theory Spec2Isabelle
  imports Complex_Main "HOL-Library.Log_Nat"
begin

unbundle bit_operations_syntax

section \<open>Python values and exceptions\<close>

text \<open>
  The program is a single Python module, \<^verbatim>\<open>into.py\<close>.  Python integers are unbounded and are
  modelled by \<^typ>\<open>int\<close>; \<^verbatim>\<open>x & 255\<close>, \<^verbatim>\<open>x >> 16\<close> and \<^verbatim>\<open>x << 16\<close> are the
  two's-complement operations \<open>AND\<close>, \<open>drop_bit\<close> and \<open>push_bit\<close> on \<^typ>\<open>int\<close>, and
  \<^verbatim>\<open>%\<close> is \<open>mod\<close> (both take the sign of the divisor).  Every exception the modelled code can
  raise is a value of \<open>py_error\<close>; a function that can raise returns \<open>py_error + 'a\<close>.
\<close>

datatype py_error =
  RuntimeError | KeyError | IndexError | ValueError | TypeError
  | OverflowError | ZeroDivisionError

definition bind_err :: "py_error + 'a \<Rightarrow> ('a \<Rightarrow> py_error + 'b) \<Rightarrow> py_error + 'b" where
  "bind_err m f = (case m of Inl e \<Rightarrow> Inl e | Inr x \<Rightarrow> f x)"

text \<open>\<^verbatim>\<open>xs[i]\<close> on a Python list: a negative index counts from the end, and an index outside
  the list raises IndexError.\<close>

definition py_index :: "'a list \<Rightarrow> int \<Rightarrow> py_error + 'a" where
  "py_index xs i =
     (if 0 \<le> i \<and> i < int (length xs) then Inr (xs ! nat i)
      else if i < 0 \<and> - int (length xs) \<le> i then Inr (xs ! nat (int (length xs) + i))
      else Inl IndexError)"

text \<open>\<^verbatim>\<open>d[k]\<close> on a dict, kept as an association list in insertion order: a missing key raises
  KeyError.\<close>

definition py_getitem :: "(string \<times> 'v) list \<Rightarrow> string \<Rightarrow> py_error + 'v" where
  "py_getitem d k = (case map_of d k of None \<Rightarrow> Inl KeyError | Some v \<Rightarrow> Inr v)"

text \<open>\<^verbatim>\<open>k in d\<close> and \<^verbatim>\<open>list(d.keys())\<close>.\<close>

definition py_contains :: "(string \<times> 'v) list \<Rightarrow> string \<Rightarrow> bool" where
  "py_contains d k = (k \<in> set (map fst d))"

definition py_keys :: "(string \<times> 'v) list \<Rightarrow> string list" where
  "py_keys d = map fst d"

text \<open>\<^verbatim>\<open>keys.index(current)\<close>: the first position of the element, ValueError when absent.\<close>

fun list_index :: "string list \<Rightarrow> string \<Rightarrow> py_error + int" where
  "list_index [] x = Inl ValueError"
| "list_index (y # ys) x =
     (if y = x then Inr 0 else bind_err (list_index ys x) (\<lambda>i. Inr (i + 1)))"

section \<open>Colours\<close>

text \<open>The fallback \<^verbatim>\<open>Color\<close> of the module (used when the LED driver is not installed):
  \<^verbatim>\<open>((r & 0xFF) << 16) | ((g & 0xFF) << 8) | (b & 0xFF)\<close>.\<close>

definition Color :: "int \<Rightarrow> int \<Rightarrow> int \<Rightarrow> int" where
  "Color r g b = push_bit 16 (r AND 255) OR push_bit 8 (g AND 255) OR (b AND 255)"

definition wheel :: "int \<Rightarrow> int" where
  "wheel position =
     (let pos = 255 - position in
      if pos < 85 then Color (255 - pos * 3) 0 (pos * 3)
      else if pos < 170 then
        (let pos = pos - 85 in Color 0 (pos * 3) (255 - pos * 3))
      else
        (let pos = pos - 170 in Color (pos * 3) (255 - pos * 3) 0))"

definition color_to_ascii :: "int \<Rightarrow> string" where
  "color_to_ascii color =
     (if color = 0 then ''.''
      else
        let red = drop_bit 16 color AND 255;
            green = drop_bit 8 color AND 255;
            blue = color AND 255
        in if red > 180 \<and> green > 180 \<and> blue > 180 then ''W''
           else if red \<ge> green \<and> red \<ge> blue then ''R''
           else if green \<ge> red \<and> green \<ge> blue then ''G''
           else ''B'')"

section \<open>Text formatting\<close>

text \<open>\<^verbatim>\<open>str(n)\<close> of an integer, the format \<^verbatim>\<open>{n:04d}\<close> (sign first, then zeros up to a total
  width of four) and \<^verbatim>\<open>line.ljust(width)\<close>.\<close>

definition digit_char :: "nat \<Rightarrow> char" where
  "digit_char d = ''0123456789'' ! d"

fun digits_of_nat :: "nat \<Rightarrow> string" where
  "digits_of_nat n =
     (if n < 10 then [digit_char n] else digits_of_nat (n div 10) @ [digit_char (n mod 10)])"

declare digits_of_nat.simps [simp del]

definition py_str_int :: "int \<Rightarrow> string" where
  "py_str_int i = (if i < 0 then ''-'' @ digits_of_nat (nat (- i)) else digits_of_nat (nat i))"

definition zero_pad :: "nat \<Rightarrow> string \<Rightarrow> string" where
  "zero_pad w s = replicate (w - length s) (CHR ''0'') @ s"

definition format_04d :: "int \<Rightarrow> string" where
  "format_04d i =
     (if i < 0 then ''-'' @ zero_pad 3 (digits_of_nat (nat (- i)))
      else zero_pad 4 (digits_of_nat (nat i)))"

definition ljust :: "string \<Rightarrow> int \<Rightarrow> string" where
  "ljust s w = s @ replicate (nat w - length s) (CHR '' '')"

text \<open>\<^verbatim>\<open>[tail[i : i + w] for i in range(0, len(tail), w)]\<close> for a positive step \<open>w\<close>.\<close>

fun slices_of :: "nat \<Rightarrow> string \<Rightarrow> string list" where
  "slices_of w xs = (if w = 0 \<or> xs = [] then [] else take w xs # slices_of w (drop w xs))"

declare slices_of.simps [simp del]

section \<open>The software pixel sink\<close>

definition LED_COUNT :: int where
  "LED_COUNT = 120"

definition LED_BRIGHTNESS :: int where
  "LED_BRIGHTNESS = 255"

text \<open>The class \<^verbatim>\<open>VirtualStrip\<close>.  The width of the terminal, which the constructor asks the
  operating system for, is an argument of the constructor here.\<close>

record VirtualStrip =
  count :: int
  pixels :: "int list"
  brightness :: int
  frame :: int
  render_width :: int
  rendered_lines :: int
  has_animated :: bool

definition VirtualStrip_init :: "int \<Rightarrow> int \<Rightarrow> VirtualStrip" where
  "VirtualStrip_init terminal_width cnt =
     \<lparr>count = cnt,
      pixels = replicate (nat cnt) (Color 0 0 0),
      brightness = LED_BRIGHTNESS,
      frame = 0,
      render_width = max 20 (terminal_width - 2),
      rendered_lines = 0,
      has_animated = False\<rparr>"

text \<open>\<^verbatim>\<open>setPixelColor\<close> ignores an index outside \<open>[0, count)\<close>; the assignment
  \<^verbatim>\<open>self.pixels[n] = color\<close> raises IndexError should the list be shorter than \<open>count\<close>.\<close>

definition setPixelColor :: "VirtualStrip \<Rightarrow> int \<Rightarrow> int \<Rightarrow> py_error + VirtualStrip" where
  "setPixelColor s n color =
     (if 0 \<le> n \<and> n < count s then
        (if nat n < length (pixels s) then Inr (s\<lparr>pixels := (pixels s)[nat n := color]\<rparr>)
         else Inl IndexError)
      else Inr s)"

definition setBrightness :: "VirtualStrip \<Rightarrow> int \<Rightarrow> VirtualStrip" where
  "setBrightness s b = s\<lparr>brightness := max 0 (min 255 b)\<rparr>"

text \<open>\<^verbatim>\<open>show\<close> writes to standard output.  The first argument says whether standard output is
  a terminal; the result is the strip and the text written, in order.  \<^verbatim>\<open>print(x)\<close> writes
  \<open>x\<close> and a newline.  \<^verbatim>\<open>range(0, len(tail), width)\<close> raises ValueError for a step of
  zero and is empty for a negative one.\<close>

definition newline :: char where
  "newline = CHR 0x0A"

definition escape :: char where
  "escape = CHR 0x1B"

definition carriage_return :: char where
  "carriage_return = CHR 0x0D"

definition frame_prefix :: "int \<Rightarrow> string" where
  "frame_prefix f = ''Frame '' @ format_04d f @ '' | ''"

definition show_strip :: "bool \<Rightarrow> VirtualStrip \<Rightarrow> py_error + (VirtualStrip \<times> string)" where
  "show_strip isatty s0 =
     (let s = s0\<lparr>frame := frame s0 + 1\<rparr>;
          ascii_pixels = concat (map color_to_ascii (pixels s))
      in if \<not> isatty then Inr (s, frame_prefix (frame s) @ ascii_pixels @ [newline])
         else
           let prefix = frame_prefix (frame s);
               first_line_capacity = max 10 (render_width s - int (length prefix));
               tail = drop (nat first_line_capacity) ascii_pixels;
               first_line = prefix @ take (nat first_line_capacity) ascii_pixels
           in if render_width s = 0 then Inl ValueError
              else
                let lines = first_line # slices_of (nat (render_width s)) tail;
                    chunks = map (\<lambda>line. ljust line (render_width s)) lines;
                    head = (if has_animated s
                            then [escape] @ ''['' @ py_str_int (rendered_lines s) @ ''A''
                                 @ [carriage_return]
                            else [])
                in Inr (s\<lparr>has_animated := True,
                           rendered_lines := int (length chunks) + 1\<rparr>,
                        head @ concat (map (\<lambda>chunk. [escape] @ ''[2K'' @ [carriage_return]
                                                     @ chunk @ [newline]) chunks)))"

text \<open>The process: the global \<^verbatim>\<open>strip\<close> (\<^verbatim>\<open>None\<close> until initialised), the text written to
  standard output so far, and whether standard output is a terminal.\<close>

record World =
  strip :: "VirtualStrip option"
  stdout :: string
  stdout_isatty :: bool

definition init_virtual_strip :: "int \<Rightarrow> int \<Rightarrow> World \<Rightarrow> World" where
  "init_virtual_strip terminal_width led_count w =
     w\<lparr>strip := Some (VirtualStrip_init terminal_width led_count)\<rparr>"

definition get_strip :: "World \<Rightarrow> py_error + VirtualStrip" where
  "get_strip w = (case strip w of None \<Rightarrow> Inl RuntimeError | Some s \<Rightarrow> Inr s)"

text \<open>\<^verbatim>\<open>active_strip.show()\<close> on the global strip.\<close>

definition flush_strip :: "VirtualStrip \<Rightarrow> World \<Rightarrow> py_error + World" where
  "flush_strip s w =
     bind_err (show_strip (stdout_isatty w) s)
       (\<lambda>(s', written). Inr (w\<lparr>strip := Some s', stdout := stdout w @ written\<rparr>))"

text \<open>\<^verbatim>\<open>for i in range(n): active_strip.setPixelColor(i, color)\<close>.\<close>

fun set_pixels :: "int list \<Rightarrow> int \<Rightarrow> VirtualStrip \<Rightarrow> py_error + VirtualStrip" where
  "set_pixels [] color s = Inr s"
| "set_pixels (i # is) color s = bind_err (setPixelColor s i color) (set_pixels is color)"

definition py_range :: "int \<Rightarrow> int list" where
  "py_range n = [0..n - 1]"

definition clear_strip :: "int \<Rightarrow> bool \<Rightarrow> World \<Rightarrow> py_error + World" where
  "clear_strip led_count show_now w =
     (case strip w of
        None \<Rightarrow> Inr w
      | Some s \<Rightarrow>
          bind_err (set_pixels (py_range led_count) (Color 0 0 0) s)
            (\<lambda>s'. if show_now then flush_strip s' w else Inr (w\<lparr>strip := Some s'\<rparr>)))"

definition clamp_brightness :: "int \<Rightarrow> int" where
  "clamp_brightness v = max 0 (min 255 v)"

definition set_strip_brightness :: "int \<Rightarrow> World \<Rightarrow> py_error + World" where
  "set_strip_brightness v w =
     bind_err (get_strip w)
       (\<lambda>s. Inr (w\<lparr>strip := Some (setBrightness s (clamp_brightness v))\<rparr>))"

section \<open>Floating point\<close>

text \<open>
  A Python \<^verbatim>\<open>float\<close> is an IEEE 754 binary64 value: a finite number (kept as the real number
  it denotes; the sign of zero is not kept), an infinity or a NaN.  \<open>round_double\<close> rounds a
  real number to the nearest binary64 number, ties to even, subnormal numbers included:
  a nonzero \<open>x\<close> with \<open>2\<^sup>e \<le> |x| < 2\<^sup>e\<^sup>+\<^sup>1\<close> is rounded to a multiple of \<open>2\<^sup>e\<^sup>-\<^sup>5\<^sup>2\<close>, and \<open>e\<close>
  is not taken below \<open>-1022\<close>.  A result of magnitude \<open>2\<^sup>1\<^sup>0\<^sup>2\<^sup>4\<close> or more has overflowed.
\<close>

datatype pyfloat = Finite real | PosInf | NegInf | NaN

definition round_half_even :: "real \<Rightarrow> int" where
  "round_half_even x =
     (let f = \<lfloor>x\<rfloor>; d = x - of_int f
      in if d < 1 / 2 then f else if 1 / 2 < d then f + 1 else if even f then f else f + 1)"

definition binary_exponent :: "real \<Rightarrow> int" where
  "binary_exponent x =
     (let a = \<bar>x\<bar>
      in if 1 \<le> a then bitlen \<lfloor>a\<rfloor> - 1 else - bitlen (\<lceil>1 / a\<rceil> - 1))"

definition round_double :: "real \<Rightarrow> real" where
  "round_double x =
     (if x = 0 then 0
      else let e = max (binary_exponent x) (- 1022); ulp = 2 powi (e - 52)
           in of_int (round_half_even (x / ulp)) * ulp)"

definition double_overflows :: "real \<Rightarrow> bool" where
  "double_overflows y = (2 ^ 1024 \<le> \<bar>y\<bar>)"

text \<open>The binary64 result of an arithmetic operation whose exact result is \<open>x\<close>.\<close>

definition to_double :: "real \<Rightarrow> pyfloat" where
  "to_double x =
     (let y = round_double x
      in if double_overflows y then (if 0 < y then PosInf else NegInf) else Finite y)"

text \<open>\<^verbatim>\<open>float(i)\<close> of an integer, also the conversion of the integer operand of a mixed
  product: OverflowError when the integer is too large.\<close>

definition float_of_int :: "int \<Rightarrow> py_error + pyfloat" where
  "float_of_int i =
     (let y = round_double (of_int i)
      in if double_overflows y then Inl OverflowError else Inr (Finite y))"

text \<open>\<^verbatim>\<open>a / b\<close> on two integers: the correctly rounded quotient.\<close>

definition int_truediv :: "int \<Rightarrow> int \<Rightarrow> py_error + pyfloat" where
  "int_truediv a b =
     (if b = 0 then Inl ZeroDivisionError
      else let y = round_double (of_int a / of_int b)
           in if double_overflows y then Inl OverflowError else Inr (Finite y))"

text \<open>\<^verbatim>\<open>x * y\<close> on two floats.\<close>

fun float_mul :: "pyfloat \<Rightarrow> pyfloat \<Rightarrow> pyfloat" where
  "float_mul (Finite x) (Finite y) = to_double (x * y)"
| "float_mul NaN _ = NaN"
| "float_mul _ NaN = NaN"
| "float_mul (Finite x) PosInf = (if x = 0 then NaN else if 0 < x then PosInf else NegInf)"
| "float_mul (Finite x) NegInf = (if x = 0 then NaN else if 0 < x then NegInf else PosInf)"
| "float_mul PosInf (Finite y) = (if y = 0 then NaN else if 0 < y then PosInf else NegInf)"
| "float_mul NegInf (Finite y) = (if y = 0 then NaN else if 0 < y then NegInf else PosInf)"
| "float_mul PosInf PosInf = PosInf"
| "float_mul PosInf NegInf = NegInf"
| "float_mul NegInf PosInf = NegInf"
| "float_mul NegInf NegInf = PosInf"

text \<open>\<^verbatim>\<open>x > y\<close> on two floats; a comparison with a NaN is false.\<close>

fun float_gt :: "pyfloat \<Rightarrow> pyfloat \<Rightarrow> bool" where
  "float_gt NaN _ = False"
| "float_gt _ NaN = False"
| "float_gt (Finite x) (Finite y) = (y < x)"
| "float_gt PosInf PosInf = False"
| "float_gt PosInf _ = True"
| "float_gt NegInf _ = False"
| "float_gt (Finite x) NegInf = True"
| "float_gt (Finite x) PosInf = False"

text \<open>\<^verbatim>\<open>max(a, b)\<close> on two floats: \<open>b\<close> only when \<open>b > a\<close>.\<close>

definition float_max :: "pyfloat \<Rightarrow> pyfloat \<Rightarrow> pyfloat" where
  "float_max a b = (if float_gt b a then b else a)"

text \<open>\<^verbatim>\<open>int(x)\<close> of a float truncates towards zero; an infinity raises OverflowError and a
  NaN raises ValueError.\<close>

definition truncate_real :: "real \<Rightarrow> int" where
  "truncate_real x = (if 0 \<le> x then \<lfloor>x\<rfloor> else \<lceil>x\<rceil>)"

fun int_of_float :: "pyfloat \<Rightarrow> py_error + int" where
  "int_of_float (Finite x) = Inr (truncate_real x)"
| "int_of_float PosInf = Inl OverflowError"
| "int_of_float NegInf = Inl OverflowError"
| "int_of_float NaN = Inl ValueError"

section \<open>Tables\<close>

text \<open>The dictionaries of the module are association lists in the order of the source;
  the delays, which the code only hands to \<^verbatim>\<open>time.sleep\<close>, are the decimal numbers written
  there.\<close>

definition EMERGENCY_DELAY_SECONDS :: real where
  "EMERGENCY_DELAY_SECONDS = 0.12"

definition EMERGENCY_COLORS :: "(string \<times> int) list" where
  "EMERGENCY_COLORS =
     [(''Red'', Color 255 0 0), (''Blue'', Color 0 0 255), (''White'', Color 255 255 255)]"

definition EMERGENCY_SOS_STEPS :: "int list" where
  "EMERGENCY_SOS_STEPS =
     [1, 0, 1, 0, 1, 0,
      1, 1, 1, 0, 1, 1, 1, 0, 1, 1, 1, 0,
      1, 0, 1, 0, 1, 0,
      0, 0, 0, 0]"

definition PATTERN_NAMES :: "(string \<times> string) list" where
  "PATTERN_NAMES =
     [(''1'', ''Chase''), (''2'', ''Random''), (''3'', ''Bounce''), (''4'', ''Emergency SOS'')]"

definition SPEED_LABELS :: "(string \<times> string) list" where
  "SPEED_LABELS = [(''1'', ''Slow''), (''2'', ''Medium''), (''3'', ''Fast'')]"

definition SPEED_MAP :: "(string \<times> (string \<times> real) list) list" where
  "SPEED_MAP =
     [(''1'', [(''1'', 0.08), (''2'', 0.03), (''3'', 0.01)]),
      (''2'', [(''1'', 0.30), (''2'', 0.12), (''3'', 0.05)]),
      (''3'', [(''1'', 0.06), (''2'', 0.02), (''3'', 0.008)])]"

definition CHASE_COLORS :: "(string \<times> (string \<times> int)) list" where
  "CHASE_COLORS =
     [(''1'', (''Orange'', Color 255 140 0)),
      (''2'', (''Green'', Color 0 255 0)),
      (''3'', (''Blue'', Color 0 0 255)),
      (''4'', (''Rainbow'', 0))]"

definition RANDOM_PALETTES :: "(string \<times> (string \<times> int list option)) list" where
  "RANDOM_PALETTES =
     [(''1'', (''Any RGB'', None)),
      (''2'', (''Warm'', Some [Color 255 0 0, Color 255 120 0, Color 255 255 0])),
      (''3'', (''Cool'', Some [Color 0 255 255, Color 0 0 255, Color 180 0 255]))]"

definition BOUNCE_COLORS :: "(string \<times> (string \<times> int)) list" where
  "BOUNCE_COLORS =
     [(''1'', (''Blue'', Color 0 0 255)),
      (''2'', (''Purple'', Color 180 0 255)),
      (''3'', (''White'', Color 255 255 255)),
      (''4'', (''Rainbow'', 0))]"

section \<open>The animation state\<close>

record AppState =
  pattern :: string
  speed :: string
  chase_color :: string
  random_palette :: string
  bounce_color :: string
  max_brightness :: int
  brightness :: int
  input_mode :: string
  input_pin :: int
  analog_path :: string
  analog_max :: int
  emergency_only :: bool
  emergency_step :: int
  emergency_color_index :: int
  chase_position :: int
  bounce_position :: int
  bounce_direction :: int
  rainbow_offset :: int

record RunOptions =
  frames :: int
  duration_seconds :: pyfloat
  start_delay_seconds :: pyfloat

definition available_patterns :: "bool \<Rightarrow> py_error + (string \<times> string) list" where
  "available_patterns emergency_only_flag =
     (if emergency_only_flag
      then bind_err (py_getitem PATTERN_NAMES ''4'') (\<lambda>v. Inr [(''4'', v)])
      else Inr (filter (\<lambda>(k, v). k \<noteq> ''4'') PATTERN_NAMES))"

definition normalize_pattern_for_mode :: "AppState \<Rightarrow> AppState" where
  "normalize_pattern_for_mode state =
     (if emergency_only state then state\<lparr>pattern := ''4''\<rparr>
      else if pattern state = ''4'' then state\<lparr>pattern := ''1''\<rparr>
      else state)"

section \<open>The pattern engine\<close>

text \<open>Every step function takes the strip length \<^verbatim>\<open>LED_COUNT\<close> as its first argument
  (120 in the module), the animation state and the process, and returns both updated.
  \<^verbatim>\<open>active_strip\<close> is the global strip itself, so after \<^verbatim>\<open>clear_strip\<close> it is read again.\<close>

definition pattern_step_chase :: "int \<Rightarrow> AppState \<Rightarrow> World \<Rightarrow> py_error + (AppState \<times> World)" where
  "pattern_step_chase led_count state w =
     bind_err (get_strip w) (\<lambda>_.
     bind_err (clear_strip led_count False w) (\<lambda>w1.
     bind_err
       (if chase_color state = ''4''
        then Inr (wheel ((rainbow_offset state + chase_position state * 8) AND 255),
                  state\<lparr>rainbow_offset := (rainbow_offset state + 3) AND 255\<rparr>)
        else bind_err (py_getitem CHASE_COLORS (chase_color state))
               (\<lambda>(name, c). Inr (c, state)))
       (\<lambda>(color, state1).
     bind_err (get_strip w1) (\<lambda>active_strip.
     bind_err (setPixelColor active_strip (chase_position state1) color) (\<lambda>active_strip.
     bind_err (flush_strip active_strip w1) (\<lambda>w2.
     if led_count = 0 then Inl ZeroDivisionError
     else Inr (state1\<lparr>chase_position := (chase_position state1 + 1) mod led_count\<rparr>,
               w2)))))))"

definition pattern_step_bounce :: "int \<Rightarrow> AppState \<Rightarrow> World \<Rightarrow> py_error + (AppState \<times> World)" where
  "pattern_step_bounce led_count state w =
     bind_err (get_strip w) (\<lambda>_.
     bind_err (clear_strip led_count False w) (\<lambda>w1.
     bind_err
       (if bounce_color state = ''4''
        then Inr (wheel ((rainbow_offset state + bounce_position state * 8) AND 255),
                  state\<lparr>rainbow_offset := (rainbow_offset state + 3) AND 255\<rparr>)
        else bind_err (py_getitem BOUNCE_COLORS (bounce_color state))
               (\<lambda>(name, c). Inr (c, state)))
       (\<lambda>(color, state1).
     bind_err (get_strip w1) (\<lambda>active_strip.
     bind_err (setPixelColor active_strip (bounce_position state1) color) (\<lambda>active_strip.
     bind_err (flush_strip active_strip w1) (\<lambda>w2.
     let state2 =
           (if bounce_position state1 = led_count - 1 then state1\<lparr>bounce_direction := - 1\<rparr>
            else if bounce_position state1 = 0 then state1\<lparr>bounce_direction := 1\<rparr>
            else state1)
     in Inr (state2\<lparr>bounce_position := bounce_position state2 + bounce_direction state2\<rparr>,
             w2)))))))"

definition pattern_step_emergency :: "int \<Rightarrow> AppState \<Rightarrow> World \<Rightarrow> py_error + (AppState \<times> World)" where
  "pattern_step_emergency led_count state w =
     bind_err (get_strip w) (\<lambda>active_strip.
     bind_err (py_index EMERGENCY_SOS_STEPS (emergency_step state)) (\<lambda>step_value.
     bind_err (py_index EMERGENCY_COLORS (emergency_color_index state)) (\<lambda>(name, color).
     let step_on = (step_value > 0) in
     bind_err (set_pixels (py_range led_count) (if step_on then color else Color 0 0 0)
                 active_strip) (\<lambda>active_strip.
     bind_err (flush_strip active_strip w) (\<lambda>w1.
     let state1 = state\<lparr>emergency_step := emergency_step state + 1\<rparr>
     in if emergency_step state1 \<ge> int (length EMERGENCY_SOS_STEPS)
        then Inr (state1\<lparr>emergency_step := 0,
                           emergency_color_index :=
                             (emergency_color_index state1 + 1)
                               mod int (length EMERGENCY_COLORS)\<rparr>, w1)
        else Inr (state1, w1))))))"

definition get_delay :: "AppState \<Rightarrow> py_error + real" where
  "get_delay state =
     (if pattern state = ''4'' then Inr EMERGENCY_DELAY_SECONDS
      else bind_err (py_getitem SPEED_MAP (pattern state))
             (\<lambda>row. py_getitem row (speed state)))"

text \<open>\<open>n\<close> steps of one pattern in a row, as the run loop makes them while the pattern is
  not changed; the first exception ends the run.\<close>

fun repeat_step ::
  "nat \<Rightarrow> (AppState \<Rightarrow> World \<Rightarrow> py_error + (AppState \<times> World)) \<Rightarrow> AppState \<Rightarrow> World
     \<Rightarrow> py_error + (AppState \<times> World)" where
  "repeat_step 0 step state w = Inr (state, w)"
| "repeat_step (Suc n) step state w =
     bind_err (step state w) (\<lambda>(state1, w1). repeat_step n step state1 w1)"

section \<open>Input response\<close>

text \<open>The two sensor reads are outside the program; what each would return (\<^verbatim>\<open>None\<close> for no
  sample) is an argument.  The scaling \<^verbatim>\<open>int((bounded / analog_max) * state.max_brightness)\<close>
  is a division of two integers, a product of two floats and a truncation.\<close>

definition apply_pi_input_response ::
  "int option \<Rightarrow> int option \<Rightarrow> AppState \<Rightarrow> World \<Rightarrow> py_error + (AppState \<times> World)" where
  "apply_pi_input_response digital_read analog_read state w =
     (if input_mode state = ''off'' then Inr (state, w)
      else if input_mode state = ''digital'' then
        (case digital_read of
           None \<Rightarrow> Inr (state, w)
         | Some digital_value \<Rightarrow>
             let state1 = state\<lparr>brightness :=
                                  (if digital_value > 0 then max_brightness state else 0)\<rparr>
             in bind_err (set_strip_brightness (brightness state1) w)
                  (\<lambda>w1. Inr (state1, w1)))
      else
        (case analog_read of
           None \<Rightarrow> Inr (state, w)
         | Some analog_value \<Rightarrow>
             let analog_max_value = max 1 (analog_max state);
                 bounded = max 0 (min analog_max_value analog_value)
             in bind_err (int_truediv bounded analog_max_value) (\<lambda>ratio.
                bind_err (float_of_int (max_brightness state)) (\<lambda>ceiling_value.
                bind_err (int_of_float (float_mul ratio ceiling_value)) (\<lambda>scaled.
                let state1 = state\<lparr>brightness := clamp_brightness scaled\<rparr>
                in bind_err (set_strip_brightness (brightness state1) w)
                     (\<lambda>w1. Inr (state1, w1)))))))"

section \<open>The command interpreter\<close>

definition cycle_choice :: "string \<Rightarrow> (string \<times> 'v) list \<Rightarrow> py_error + string" where
  "cycle_choice current choices =
     (let keys = py_keys choices
      in bind_err (list_index keys current) (\<lambda>idx.
         if length keys = 0 then Inl ZeroDivisionError
         else py_index keys ((idx + 1) mod int (length keys))))"

text \<open>\<^verbatim>\<open>print_status\<close> looks the state up in the tables and computes the brightness percentage
  before it prints; the line it prints is not kept, what it can raise is.\<close>

definition print_status :: "AppState \<Rightarrow> py_error + unit" where
  "print_status state =
     bind_err (py_getitem PATTERN_NAMES (pattern state)) (\<lambda>pattern_name.
     bind_err (py_getitem SPEED_LABELS (speed state)) (\<lambda>speed_name.
     bind_err
       (if pattern state = ''1''
        then bind_err (py_getitem CHASE_COLORS (chase_color state)) (\<lambda>(name, c). Inr name)
        else if pattern state = ''2''
        then bind_err (py_getitem RANDOM_PALETTES (random_palette state))
               (\<lambda>(name, p). Inr name)
        else if pattern state = ''3''
        then bind_err (py_getitem BOUNCE_COLORS (bounce_color state)) (\<lambda>(name, c). Inr name)
        else bind_err (py_index EMERGENCY_COLORS (emergency_color_index state))
               (\<lambda>(name, c). Inr name))
       (\<lambda>detail.
     bind_err (int_truediv (max 0 (brightness state)) (max 1 (max_brightness state)))
       (\<lambda>ratio.
     bind_err (float_of_int 100) (\<lambda>hundred.
     bind_err (int_of_float (float_mul ratio hundred)) (\<lambda>brightness_pct. Inr ()))))))"

text \<open>\<^verbatim>\<open>handle_key\<close> returns whether the run loop goes on.  Its \<^verbatim>\<open>options\<close> argument is only
  printed (by Ctrl+O, the character 0x0F) and is left out, as is every text printed.\<close>

definition handle_key :: "AppState \<Rightarrow> World \<Rightarrow> string \<Rightarrow> py_error + (AppState \<times> World \<times> bool)" where
  "handle_key state w key =
     bind_err (available_patterns (emergency_only state)) (\<lambda>allowed.
     if py_contains allowed key then
       (let state1 = state\<lparr>pattern := key\<rparr>
        in bind_err (print_status state1) (\<lambda>_. Inr (state1, w, True)))
     else if key = ''p'' then
       bind_err (cycle_choice (pattern state) allowed) (\<lambda>p.
       let state1 = state\<lparr>pattern := p\<rparr>
       in bind_err (print_status state1) (\<lambda>_. Inr (state1, w, True)))
     else if key = ''s'' then
       bind_err (cycle_choice (speed state) SPEED_LABELS) (\<lambda>sp.
       let state1 = state\<lparr>speed := sp\<rparr>
       in bind_err (print_status state1) (\<lambda>_. Inr (state1, w, True)))
     else if key = ''c'' then
       bind_err
         (if pattern state = ''1''
          then bind_err (cycle_choice (chase_color state) CHASE_COLORS)
                 (\<lambda>c. Inr (state\<lparr>chase_color := c\<rparr>))
          else if pattern state = ''2''
          then bind_err (cycle_choice (random_palette state) RANDOM_PALETTES)
                 (\<lambda>c. Inr (state\<lparr>random_palette := c\<rparr>))
          else if pattern state = ''3''
          then bind_err (cycle_choice (bounce_color state) BOUNCE_COLORS)
                 (\<lambda>c. Inr (state\<lparr>bounce_color := c\<rparr>))
          else Inr state)
         (\<lambda>state1. bind_err (print_status state1) (\<lambda>_. Inr (state1, w, True)))
     else if key = ''+'' then
       (let state1 = state\<lparr>brightness := clamp_brightness (brightness state + 16)\<rparr>
        in bind_err (set_strip_brightness (brightness state1) w) (\<lambda>w1.
           bind_err (print_status state1) (\<lambda>_. Inr (state1, w1, True))))
     else if key = ''-'' then
       (let state1 = state\<lparr>brightness := clamp_brightness (brightness state - 16)\<rparr>
        in bind_err (set_strip_brightness (brightness state1) w) (\<lambda>w1.
           bind_err (print_status state1) (\<lambda>_. Inr (state1, w1, True))))
     else if key = ''h'' then
       bind_err (print_status state) (\<lambda>_. Inr (state, w, True))
     else if key = [CHR 0x0F] then Inr (state, w, True)
     else if key = ''q'' then Inr (state, w, False)
     else Inr (state, w, True))"

text \<open>A sequence of keystrokes, each handled in turn as the run loop does; \<^verbatim>\<open>q\<close> ends the
  loop, and so does the first exception.\<close>

fun handle_keys :: "AppState \<Rightarrow> World \<Rightarrow> string list \<Rightarrow> py_error + (AppState \<times> World \<times> bool)" where
  "handle_keys state w [] = Inr (state, w, True)"
| "handle_keys state w (key # keys) =
     bind_err (handle_key state w key)
       (\<lambda>(state1, w1, continue).
          if continue then handle_keys state1 w1 keys else Inr (state1, w1, False))"

section \<open>Loaded settings\<close>

text \<open>
  What \<^verbatim>\<open>json.loads\<close> can return: \<^verbatim>\<open>None\<close>, a bool, an integer, a float (the parser reads
  \<^verbatim>\<open>Infinity\<close>, \<^verbatim>\<open>NaN\<close> and literals beyond the binary64 range such as \<^verbatim>\<open>1e999\<close> as well), a
  string, a list or a dict.  A string is a list of code points below 256; text with
  code points beyond that is not covered.  The parsers of the interpreter for \<^verbatim>\<open>int(s)\<close> and \<^verbatim>\<open>float(s)\<close> on a string are
  arguments: each returns \<open>None\<close> where the interpreter raises ValueError.
\<close>

datatype pyval =
  PNone | PBool bool | PInt int | PFloat pyfloat | PStr string
  | PList "pyval list" | PDict "(string \<times> pyval) list"

text \<open>\<^verbatim>\<open>d.get(k)\<close>.\<close>

definition dict_get :: "(string \<times> pyval) list \<Rightarrow> string \<Rightarrow> pyval" where
  "dict_get d k = (case map_of d k of None \<Rightarrow> PNone | Some v \<Rightarrow> v)"

text \<open>\<^verbatim>\<open>int(value)\<close> and \<^verbatim>\<open>float(value)\<close>.\<close>

fun py_int :: "(string \<Rightarrow> int option) \<Rightarrow> pyval \<Rightarrow> py_error + int" where
  "py_int parse PNone = Inl TypeError"
| "py_int parse (PBool b) = Inr (if b then 1 else 0)"
| "py_int parse (PInt i) = Inr i"
| "py_int parse (PFloat x) = int_of_float x"
| "py_int parse (PStr s) = (case parse s of None \<Rightarrow> Inl ValueError | Some i \<Rightarrow> Inr i)"
| "py_int parse (PList xs) = Inl TypeError"
| "py_int parse (PDict d) = Inl TypeError"

fun py_float :: "(string \<Rightarrow> pyfloat option) \<Rightarrow> pyval \<Rightarrow> py_error + pyfloat" where
  "py_float parse PNone = Inl TypeError"
| "py_float parse (PBool b) = Inr (Finite (if b then 1 else 0))"
| "py_float parse (PInt i) = float_of_int i"
| "py_float parse (PFloat x) = Inr x"
| "py_float parse (PStr s) = (case parse s of None \<Rightarrow> Inl ValueError | Some x \<Rightarrow> Inr x)"
| "py_float parse (PList xs) = Inl TypeError"
| "py_float parse (PDict d) = Inl TypeError"

text \<open>\<^verbatim>\<open>try: return int(value)\<close> \<^verbatim>\<open>except (TypeError, ValueError): return default\<close>: any other
  exception goes on to the caller.\<close>

definition as_int :: "(string \<Rightarrow> int option) \<Rightarrow> pyval \<Rightarrow> int \<Rightarrow> py_error + int" where
  "as_int parse v dflt =
     (case py_int parse v of
        Inl TypeError \<Rightarrow> Inr dflt
      | Inl ValueError \<Rightarrow> Inr dflt
      | Inl e \<Rightarrow> Inl e
      | Inr i \<Rightarrow> Inr i)"

definition as_float ::
  "(string \<Rightarrow> pyfloat option) \<Rightarrow> pyval \<Rightarrow> pyfloat \<Rightarrow> py_error + pyfloat" where
  "as_float parse v dflt =
     (case py_float parse v of
        Inl TypeError \<Rightarrow> Inr dflt
      | Inl ValueError \<Rightarrow> Inr dflt
      | Inl e \<Rightarrow> Inl e
      | Inr x \<Rightarrow> Inr x)"

text \<open>\<^verbatim>\<open>value.strip().lower()\<close>.  A character stands for the code point of its number:
  the whitespace \<^verbatim>\<open>strip\<close> removes below 256 is U+0009 to U+000D, U+001C to U+0020, U+0085
  and U+00A0; \<^verbatim>\<open>lower\<close> moves \<open>A\<close> to \<open>Z\<close> and the capital letters U+00C0 to U+00DE (the
  sign U+00D7 is not one) up by 32.\<close>

definition is_space :: "char \<Rightarrow> bool" where
  "is_space c = (c \<in> set [CHR 0x09, CHR 0x0A, CHR 0x0B, CHR 0x0C, CHR 0x0D,
                           CHR 0x1C, CHR 0x1D, CHR 0x1E, CHR 0x1F, CHR 0x20,
                           CHR 0x85, CHR 0xA0])"

definition py_strip :: "string \<Rightarrow> string" where
  "py_strip s = rev (dropWhile is_space (rev (dropWhile is_space s)))"

definition lower_char :: "char \<Rightarrow> char" where
  "lower_char c =
     (let n = of_char c :: nat
      in if (65 \<le> n \<and> n \<le> 90) \<or> (192 \<le> n \<and> n \<le> 222 \<and> n \<noteq> 215)
         then char_of (n + 32) else c)"

definition py_lower :: "string \<Rightarrow> string" where
  "py_lower s = map lower_char s"

fun as_bool :: "pyval \<Rightarrow> bool \<Rightarrow> bool" where
  "as_bool (PBool b) dflt = b"
| "as_bool (PStr s) dflt =
     (let normalized = py_lower (py_strip s)
      in if normalized \<in> set [''1'', ''true'', ''yes'', ''y'', ''on''] then True
         else if normalized \<in> set [''0'', ''false'', ''no'', ''n'', ''off''] then False
         else dflt)"
| "as_bool _ dflt = dflt"

fun as_str :: "pyval \<Rightarrow> string \<Rightarrow> string" where
  "as_str (PStr s) dflt = s"
| "as_str _ dflt = dflt"

text \<open>\<^verbatim>\<open>cast(dict, x) if isinstance(x, dict) else {}\<close>.\<close>

fun dict_or_empty :: "pyval \<Rightarrow> (string \<times> pyval) list" where
  "dict_or_empty (PDict d) = d"
| "dict_or_empty _ = []"

definition default_analog_path :: string where
  "default_analog_path = ''/sys/bus/iio/devices/iio:device0/in_voltage0_raw''"

definition state_options_from_headless_data ::
  "(string \<Rightarrow> int option) \<Rightarrow> (string \<Rightarrow> pyfloat option) \<Rightarrow> (string \<times> pyval) list
     \<Rightarrow> py_error + (AppState \<times> RunOptions \<times> bool)" where
  "state_options_from_headless_data parse_int parse_float data =
     (let input_data = dict_or_empty (dict_get data ''input'');
          run_data = dict_or_empty (dict_get data ''run'')
      in
      bind_err (as_int parse_int (dict_get data ''brightness'') LED_BRIGHTNESS) (\<lambda>b.
      bind_err (as_int parse_int (dict_get data ''max_brightness'') LED_BRIGHTNESS) (\<lambda>mb.
      bind_err (as_int parse_int (dict_get input_data ''pin'') 23) (\<lambda>pin.
      bind_err (as_int parse_int (dict_get input_data ''analog_max'') 4095) (\<lambda>amax.
      let state0 =
            \<lparr>pattern = as_str (dict_get data ''pattern'') ''1'',
             speed = as_str (dict_get data ''speed'') ''2'',
             chase_color = as_str (dict_get data ''chase_color'') ''1'',
             random_palette = as_str (dict_get data ''random_palette'') ''1'',
             bounce_color = as_str (dict_get data ''bounce_color'') ''1'',
             max_brightness = clamp_brightness mb,
             brightness = clamp_brightness b,
             input_mode = as_str (dict_get input_data ''mode'') ''off'',
             input_pin = pin,
             analog_path = as_str (dict_get input_data ''analog_path'') default_analog_path,
             analog_max = max 1 amax,
             emergency_only = as_bool (dict_get data ''emergency_only'') False,
             emergency_step = 0,
             emergency_color_index = 0,
             chase_position = 0,
             bounce_position = 0,
             bounce_direction = 1,
             rainbow_offset = 0\<rparr>
      in
      bind_err (as_int parse_int (dict_get run_data ''frames'') 0) (\<lambda>fr.
      bind_err (as_float parse_float (dict_get run_data ''duration_seconds'') (Finite 0))
        (\<lambda>dur.
      bind_err (as_float parse_float (dict_get run_data ''start_delay_seconds'') (Finite 0))
        (\<lambda>delay.
      let options = \<lparr>frames = max 0 fr,
                     duration_seconds = float_max (Finite 0) dur,
                     start_delay_seconds = float_max (Finite 0) delay\<rparr>;
          test_mode = as_bool (dict_get data ''test'') False;
          state1 = (if py_contains PATTERN_NAMES (pattern state0) then state0
                    else state0\<lparr>pattern := ''1''\<rparr>);
          state2 = (if py_contains SPEED_LABELS (speed state1) then state1
                    else state1\<lparr>speed := ''2''\<rparr>);
          state3 = (if py_contains CHASE_COLORS (chase_color state2) then state2
                    else state2\<lparr>chase_color := ''1''\<rparr>);
          state4 = (if py_contains RANDOM_PALETTES (random_palette state3) then state3
                    else state3\<lparr>random_palette := ''1''\<rparr>);
          state5 = (if py_contains BOUNCE_COLORS (bounce_color state4) then state4
                    else state4\<lparr>bounce_color := ''1''\<rparr>);
          state6 = (if input_mode state5 \<in> set [''off'', ''digital'', ''analog''] then state5
                    else state5\<lparr>input_mode := ''off''\<rparr>)
      in Inr (normalize_pattern_for_mode state6, options, test_mode)))))))))"

section \<open>Command line overrides\<close>

text \<open>The parsed arguments that \<^verbatim>\<open>apply_cli_overrides\<close> reads; an option that was not given
  is \<open>None\<close>.\<close>

record Args =
  arg_pattern :: "string option"
  arg_speed :: "string option"
  arg_chase_color :: "string option"
  arg_random_palette :: "string option"
  arg_bounce_color :: "string option"
  arg_brightness :: "int option"
  arg_max_brightness :: "int option"
  arg_pi_input_mode :: "string option"
  arg_pi_input_pin :: "int option"
  arg_analog_path :: "string option"
  arg_analog_max :: "int option"
  arg_frames :: "int option"
  arg_duration_seconds :: "pyfloat option"
  arg_start_delay_seconds :: "pyfloat option"
  arg_emergency_only :: bool

definition override :: "'a option \<Rightarrow> 'a \<Rightarrow> 'a" where
  "override given current = (case given of None \<Rightarrow> current | Some v \<Rightarrow> v)"

definition apply_cli_overrides ::
  "AppState \<Rightarrow> RunOptions \<Rightarrow> Args \<Rightarrow> AppState \<times> RunOptions" where
  "apply_cli_overrides state options args =
     (let s1 = state\<lparr>pattern := override (arg_pattern args) (pattern state),
                     speed := override (arg_speed args) (speed state),
                     chase_color := override (arg_chase_color args) (chase_color state),
                     random_palette :=
                       override (arg_random_palette args) (random_palette state),
                     bounce_color := override (arg_bounce_color args) (bounce_color state)\<rparr>;
          s2 = s1\<lparr>max_brightness :=
                     override (map_option clamp_brightness (arg_max_brightness args))
                       (max_brightness s1)\<rparr>;
          s3 = s2\<lparr>brightness :=
                     override (map_option clamp_brightness (arg_brightness args))
                       (brightness s2)\<rparr>;
          s4 = s3\<lparr>brightness := min (brightness s3) (max_brightness s3)\<rparr>;
          s5 = s4\<lparr>input_mode := override (arg_pi_input_mode args) (input_mode s4),
                  input_pin := override (arg_pi_input_pin args) (input_pin s4),
                  analog_path := override (arg_analog_path args) (analog_path s4),
                  analog_max :=
                    override (map_option (max 1) (arg_analog_max args)) (analog_max s4)\<rparr>;
          options1 =
            options\<lparr>frames := override (map_option (max 0) (arg_frames args)) (frames options),
                    duration_seconds :=
                      override (map_option (float_max (Finite 0)) (arg_duration_seconds args))
                        (duration_seconds options),
                    start_delay_seconds :=
                      override
                        (map_option (float_max (Finite 0)) (arg_start_delay_seconds args))
                        (start_delay_seconds options)\<rparr>;
          s6 = (if arg_emergency_only args then s5\<lparr>emergency_only := True\<rparr> else s5)
      in (normalize_pattern_for_mode s6, options1))"

text \<open>\<^verbatim>\<open>state_from_args\<close> builds the state when options were given on the command line;
  \<^verbatim>\<open>x or d\<close> on a string option takes \<open>d\<close> for \<^verbatim>\<open>None\<close> and for the empty string.\<close>

definition str_or :: "string option \<Rightarrow> string \<Rightarrow> string" where
  "str_or given dflt = (case given of None \<Rightarrow> dflt | Some v \<Rightarrow> if v = [] then dflt else v)"

definition state_from_args :: "Args \<Rightarrow> AppState \<times> RunOptions" where
  "state_from_args args =
     (let state0 =
            \<lparr>pattern = str_or (arg_pattern args) ''1'',
             speed = str_or (arg_speed args) ''2'',
             chase_color = str_or (arg_chase_color args) ''1'',
             random_palette = str_or (arg_random_palette args) ''1'',
             bounce_color = str_or (arg_bounce_color args) ''1'',
             max_brightness =
               clamp_brightness (override (arg_max_brightness args) LED_BRIGHTNESS),
             brightness = clamp_brightness (override (arg_brightness args) LED_BRIGHTNESS),
             input_mode = str_or (arg_pi_input_mode args) ''off'',
             input_pin = override (arg_pi_input_pin args) 23,
             analog_path = str_or (arg_analog_path args) default_analog_path,
             analog_max = max 1 (override (arg_analog_max args) 4095),
             emergency_only = arg_emergency_only args,
             emergency_step = 0,
             emergency_color_index = 0,
             chase_position = 0,
             bounce_position = 0,
             bounce_direction = 1,
             rainbow_offset = 0\<rparr>;
          state1 = state0\<lparr>brightness := min (brightness state0) (max_brightness state0)\<rparr>;
          options =
            \<lparr>frames = max 0 (override (arg_frames args) 0),
             duration_seconds =
               float_max (Finite 0) (override (arg_duration_seconds args) (Finite 0)),
             start_delay_seconds =
               float_max (Finite 0) (override (arg_start_delay_seconds args) (Finite 0))\<rparr>
      in (normalize_pattern_for_mode state1, options))"

text \<open>The arguments when no option is given, and the state they give: Chase at medium
  speed, full brightness, input response off.\<close>

definition no_args :: Args where
  "no_args =
     \<lparr>arg_pattern = None, arg_speed = None, arg_chase_color = None,
      arg_random_palette = None, arg_bounce_color = None, arg_brightness = None,
      arg_max_brightness = None, arg_pi_input_mode = None, arg_pi_input_pin = None,
      arg_analog_path = None, arg_analog_max = None, arg_frames = None,
      arg_duration_seconds = None, arg_start_delay_seconds = None,
      arg_emergency_only = False\<rparr>"

definition default_state :: AppState where
  "default_state = fst (state_from_args no_args)"

text \<open>A process whose strip is the software sink of the given length, on a terminal 80
  columns wide, with standard output redirected and nothing written yet.\<close>

definition test_world :: "int \<Rightarrow> World" where
  "test_world led_count =
     init_virtual_strip 80 led_count
       \<lparr>strip = None, stdout = [], stdout_isatty = False\<rparr>"

text \<open>The strip of the process is initialised for \<open>n\<close> pixels, as \<^verbatim>\<open>init_virtual_strip\<close>
  leaves it: the pixel list has \<open>count = n\<close> entries and the render width is not zero.\<close>

definition strip_ready :: "int \<Rightarrow> World \<Rightarrow> bool" where
  "strip_ready n w =
     (case strip w of
        None \<Rightarrow> False
      | Some s \<Rightarrow> count s = n \<and> length (pixels s) = nat n \<and> render_width s \<noteq> 0)"

text \<open>The glyph of a pixel with channels \<open>r\<close>, \<open>g\<close>, \<open>b\<close> in the words of the specification:
  a dot for black, \<open>W\<close> for a colour nearest white (every channel above 180), otherwise the
  letter of the largest channel, red before green before blue when two are equal.\<close>

definition spec_glyph :: "int \<Rightarrow> int \<Rightarrow> int \<Rightarrow> char" where
  "spec_glyph r g b =
     (if r = 0 \<and> g = 0 \<and> b = 0 then CHR ''.''
      else if 180 < r \<and> 180 < g \<and> 180 < b then CHR ''W''
      else if max r (max g b) = r then CHR ''R''
      else if max r (max g b) = g then CHR ''G''
      else CHR ''B'')"

text \<open>A state in analog input mode with a sensor range of 100 and a brightness ceiling
  of 100.\<close>

definition analog_example :: AppState where
  "analog_example = default_state\<lparr>input_mode := ''analog'', analog_max := 100, max_brightness := 100\<rparr>"

text \<open>The invariants of the data model that the constructors of the state establish:
  every selection is a key of its table, the emergency colour index is one of the three
  colours, and brightness and its ceiling lie in \<open>[0, 255]\<close>.\<close>

definition state_valid :: "AppState \<Rightarrow> bool" where
  "state_valid st =
     (py_contains PATTERN_NAMES (pattern st) \<and> py_contains SPEED_LABELS (speed st) \<and>
      py_contains CHASE_COLORS (chase_color st) \<and>
      py_contains RANDOM_PALETTES (random_palette st) \<and>
      py_contains BOUNCE_COLORS (bounce_color st) \<and>
      0 \<le> emergency_color_index st \<and> emergency_color_index st < 3 \<and>
      0 \<le> brightness st \<and> brightness st \<le> 255 \<and>
      0 \<le> max_brightness st \<and> max_brightness st \<le> 255)"

text \<open>The default state with the emergency-only flag set, before normalisation.\<close>

definition panic_state :: AppState where
  "panic_state = default_state\<lparr>emergency_only := True\<rparr>"

text \<open>The default state with the brightness ceiling lowered to 100 and the brightness
  at the ceiling, as \<^verbatim>\<open>--max-brightness 100\<close> starts the program.\<close>

definition dimmed_state :: AppState where
  "dimmed_state = default_state\<lparr>max_brightness := 100, brightness := 100\<rparr>"

section \<open>Lemmas on colours\<close>

lemma and_255_mod: "(x::int) AND 255 = x mod 256"
  using take_bit_eq_mask [of 8 x] by (simp add: take_bit_eq_mod mask_eq_exp_minus_1)

lemma Color_in_range:
  assumes "0 \<le> r" "r \<le> 255" "0 \<le> g" "g \<le> 255" "0 \<le> b" "b \<le> 255"
  shows "Color r g b = r * 65536 + g * 256 + b"
proof -
  have r: "r AND 255 = r" and g: "g AND 255 = g" and b: "b AND 255 = b"
    using assms by (simp_all add: and_255_mod)
  have tb: "take_bit 8 b = b" using assms by (simp add: take_bit_eq_mod)
  have tg: "take_bit 8 g = g" using assms by (simp add: take_bit_eq_mod)
  have "push_bit 16 r OR push_bit 8 g OR b = concat_bit 8 b (concat_bit 8 g r)"
    by (simp add: concat_bit_def tb tg push_bit_or or.commute or.left_commute flip: push_bit_add)
  also have "\<dots> = b + 256 * (g + 256 * r)"
    by (simp add: concat_bit_eq tb tg push_bit_eq_mult)
  finally show ?thesis by (simp add: Color_def r g b)
qed

lemma wheel_channels:
  assumes "0 \<le> x" "x \<le> 255"
  shows "\<exists>r g b. 0 \<le> r \<and> r \<le> 255 \<and> 0 \<le> g \<and> g \<le> 255 \<and> 0 \<le> b \<and> b \<le> 255 \<and>
           r + g + b = 255 \<and> wheel x = r * 65536 + g * 256 + b"
proof -
  consider "255 - x < 85" | "85 \<le> 255 - x" "255 - x < 170" | "170 \<le> 255 - x" by linarith
  then show ?thesis
  proof cases
    case 1
    have "wheel x = Color (255 - (255 - x) * 3) 0 ((255 - x) * 3)"
      using 1 by (simp add: wheel_def Let_def)
    also have "\<dots> = (255 - (255 - x) * 3) * 65536 + 0 * 256 + (255 - x) * 3"
      using 1 assms by (intro Color_in_range) auto
    finally show ?thesis using 1 assms
      by (intro exI[of _ "255 - (255 - x) * 3"] exI[of _ 0] exI[of _ "(255 - x) * 3"]) auto
  next
    case 2
    have "wheel x = Color 0 ((255 - x - 85) * 3) (255 - (255 - x - 85) * 3)"
      using 2 by (simp add: wheel_def Let_def)
    also have "\<dots> = 0 * 65536 + ((255 - x - 85) * 3) * 256 + (255 - (255 - x - 85) * 3)"
      using 2 assms by (intro Color_in_range) auto
    finally show ?thesis using 2 assms
      by (intro exI[of _ 0] exI[of _ "(255 - x - 85) * 3"] exI[of _ "255 - (255 - x - 85) * 3"]) auto
  next
    case 3
    have "wheel x = Color ((255 - x - 170) * 3) (255 - (255 - x - 170) * 3) 0"
      using 3 by (simp add: wheel_def Let_def)
    also have "\<dots> = ((255 - x - 170) * 3) * 65536 + (255 - (255 - x - 170) * 3) * 256 + 0"
      using 3 assms by (intro Color_in_range) auto
    finally show ?thesis using 3 assms
      by (intro exI[of _ "(255 - x - 170) * 3"] exI[of _ "255 - (255 - x - 170) * 3"] exI[of _ 0]) auto
  qed
qed

section \<open>The default state\<close>

lemma default_state_simps:
  "default_state = \<lparr>pattern = ''1'', speed = ''2'', chase_color = ''1'', random_palette = ''1'',
      bounce_color = ''1'', max_brightness = 255, brightness = 255, input_mode = ''off'',
      input_pin = 23, analog_path = default_analog_path, analog_max = 4095,
      emergency_only = False, emergency_step = 0, emergency_color_index = 0,
      chase_position = 0, bounce_position = 0, bounce_direction = 1, rainbow_offset = 0\<rparr>"
  by (simp add: default_state_def state_from_args_def no_args_def str_or_def override_def
      clamp_brightness_def LED_BRIGHTNESS_def normalize_pattern_for_mode_def Let_def)

lemma default_state_fields [simp]:
  "pattern default_state = ''1''" "speed default_state = ''2''"
  "chase_color default_state = ''1''" "random_palette default_state = ''1''"
  "bounce_color default_state = ''1''" "max_brightness default_state = 255"
  "AppState.brightness default_state = 255" "input_mode default_state = ''off''"
  "analog_max default_state = 4095" "emergency_only default_state = False"
  "emergency_step default_state = 0" "emergency_color_index default_state = 0"
  "chase_position default_state = 0" "bounce_position default_state = 0"
  "bounce_direction default_state = 1" "rainbow_offset default_state = 0"
  by (simp_all add: default_state_simps)

section \<open>The colour wheel\<close>

lemma hue_shift: "(h + 256 * k + p) AND 255 = (h + p) AND (255::int)"
  by (simp add: and_255_mod mod_simps) (metis add.assoc add.commute mod_mult_self4)

lemma chase_rainbow_mod:
  "chase_color st = ''4'' \<Longrightarrow>
   pattern_step_chase n (st\<lparr>rainbow_offset := rainbow_offset st + 256 * k\<rparr>) w = pattern_step_chase n st w"
  by (simp add: pattern_step_chase_def hue_shift)

lemma bounce_rainbow_mod:
  "bounce_color st = ''4'' \<Longrightarrow>
   pattern_step_bounce n (st\<lparr>rainbow_offset := rainbow_offset st + 256 * k\<rparr>) w = pattern_step_bounce n st w"
  by (simp add: pattern_step_bounce_def hue_shift)

text \<open>Outside \<open>[0, 255]\<close> the channels leave the range and the masking of \<^verbatim>\<open>Color\<close> changes
  them: at 256 they are 258, 0 and -3, and the packed colour is not their plain
  packing.\<close>

lemma wheel_overflow_outside_range:
  "wheel 256 = Color 258 0 (- 3) \<and> Color 258 0 (- 3) \<noteq> 258 * 65536 + 0 * 256 + (- 3)"
  by (simp add: wheel_def Color_def)

text \<open>
  Claim C10, as amended.  \<^verbatim>\<open>wheel\<close> does not reduce its argument, so it is not a function of
  its argument modulo 256; its callers reduce the hue first.  A rainbow step of Chase or
  Bounce passes \<^verbatim>\<open>(rainbow_offset + position * 8) & 255\<close>, which is that sum modulo 256 and
  lies in \<open>[0, 255]\<close>: the whole step is unchanged when \<^verbatim>\<open>rainbow_offset\<close> is moved by a
  multiple of 256.  For every \<open>x\<close> in \<open>[0, 255]\<close> the three channels \<^verbatim>\<open>wheel\<close> hands to
  \<^verbatim>\<open>Color\<close> lie in \<open>[0, 255]\<close> and sum to 255, so the packed colour is
  \<open>r * 65536 + g * 256 + b\<close> with no channel overflowing into another.  The last part
  names the channels: with \<open>pos = 255 - x\<close>, they are \<open>255 - 3 pos\<close>, \<open>0\<close>, \<open>3 pos\<close> below 85,
  then \<open>0\<close>, \<open>3 (pos - 85)\<close>, \<open>255 - 3 (pos - 85)\<close> below 170, then \<open>3 (pos - 170)\<close>,
  \<open>255 - 3 (pos - 170)\<close>, \<open>0\<close>; each lies in \<open>[0, 255]\<close> and \<^verbatim>\<open>wheel(x)\<close> is their packing
  without any masking.
\<close>

theorem wheel_hue_modulo_256:
  "(chase_color st = ''4'' \<longrightarrow>
      pattern_step_chase n (st\<lparr>rainbow_offset := rainbow_offset st + 256 * k\<rparr>) w
        = pattern_step_chase n st w) \<and>
   (bounce_color st = ''4'' \<longrightarrow>
      pattern_step_bounce n (st\<lparr>rainbow_offset := rainbow_offset st + 256 * k\<rparr>) w
        = pattern_step_bounce n st w) \<and>
   h AND 255 = h mod 256 \<and> wheel (h AND 255) = wheel (h mod 256) \<and>
   (0 \<le> x \<and> x \<le> 255 \<longrightarrow>
      (\<exists>r g b. 0 \<le> r \<and> r \<le> 255 \<and> 0 \<le> g \<and> g \<le> 255 \<and> 0 \<le> b \<and> b \<le> 255 \<and>
         r + g + b = 255 \<and> wheel x = r * 65536 + g * 256 + b)) \<and>
   (0 \<le> x \<and> x \<le> 255 \<longrightarrow>
      (let pos = 255 - x in
       if pos < 85 then
         0 \<le> 255 - pos * 3 \<and> 255 - pos * 3 \<le> 255 \<and> 0 \<le> pos * 3 \<and> pos * 3 \<le> 255 \<and>
         wheel x = (255 - pos * 3) * 65536 + 0 * 256 + pos * 3
       else if pos < 170 then
         (let pos = pos - 85 in
          0 \<le> pos * 3 \<and> pos * 3 \<le> 255 \<and> 0 \<le> 255 - pos * 3 \<and> 255 - pos * 3 \<le> 255 \<and>
          wheel x = 0 * 65536 + (pos * 3) * 256 + (255 - pos * 3))
       else
         (let pos = pos - 170 in
          0 \<le> pos * 3 \<and> pos * 3 \<le> 255 \<and> 0 \<le> 255 - pos * 3 \<and> 255 - pos * 3 \<le> 255 \<and>
          wheel x = (pos * 3) * 65536 + (255 - pos * 3) * 256 + 0)))"
proof -
  have packed: "let pos = 255 - x in
       if pos < 85 then
         0 \<le> 255 - pos * 3 \<and> 255 - pos * 3 \<le> 255 \<and> 0 \<le> pos * 3 \<and> pos * 3 \<le> 255 \<and>
         wheel x = (255 - pos * 3) * 65536 + 0 * 256 + pos * 3
       else if pos < 170 then
         (let pos = pos - 85 in
          0 \<le> pos * 3 \<and> pos * 3 \<le> 255 \<and> 0 \<le> 255 - pos * 3 \<and> 255 - pos * 3 \<le> 255 \<and>
          wheel x = 0 * 65536 + (pos * 3) * 256 + (255 - pos * 3))
       else
         (let pos = pos - 170 in
          0 \<le> pos * 3 \<and> pos * 3 \<le> 255 \<and> 0 \<le> 255 - pos * 3 \<and> 255 - pos * 3 \<le> 255 \<and>
          wheel x = (pos * 3) * 65536 + (255 - pos * 3) * 256 + 0)"
    if x: "0 \<le> x" "x \<le> 255"
  proof -
    consider "255 - x < 85" | "85 \<le> 255 - x" "255 - x < 170" | "170 \<le> 255 - x" by linarith
    then show ?thesis
    proof cases
      case 1
      have "wheel x = Color (255 - (255 - x) * 3) 0 ((255 - x) * 3)"
        using 1 by (simp add: wheel_def Let_def)
      also have "\<dots> = (255 - (255 - x) * 3) * 65536 + 0 * 256 + (255 - x) * 3"
        using 1 x by (intro Color_in_range) auto
      finally show ?thesis using 1 x by (simp add: Let_def)
    next
      case 2
      have "wheel x = Color 0 ((255 - x - 85) * 3) (255 - (255 - x - 85) * 3)"
        using 2 by (simp add: wheel_def Let_def)
      also have "\<dots> = 0 * 65536 + ((255 - x - 85) * 3) * 256 + (255 - (255 - x - 85) * 3)"
        using 2 x by (intro Color_in_range) auto
      finally show ?thesis using 2 x by (simp add: Let_def)
    next
      case 3
      have "wheel x = Color ((255 - x - 170) * 3) (255 - (255 - x - 170) * 3) 0"
        using 3 by (simp add: wheel_def Let_def)
      also have "\<dots> = ((255 - x - 170) * 3) * 65536 + (255 - (255 - x - 170) * 3) * 256 + 0"
        using 3 x by (intro Color_in_range) auto
      finally show ?thesis using 3 x by (simp add: Let_def)
    qed
  qed
  have 1: "chase_color st = ''4'' \<longrightarrow>
      pattern_step_chase n (st\<lparr>rainbow_offset := rainbow_offset st + 256 * k\<rparr>) w
        = pattern_step_chase n st w"
    using chase_rainbow_mod [of st n k w] by blast
  have 2: "bounce_color st = ''4'' \<longrightarrow>
      pattern_step_bounce n (st\<lparr>rainbow_offset := rainbow_offset st + 256 * k\<rparr>) w
        = pattern_step_bounce n st w"
    using bounce_rainbow_mod [of st n k w] by blast
  have 3: "h AND 255 = h mod 256" "wheel (h AND 255) = wheel (h mod 256)"
    by (simp_all add: and_255_mod)
  from 1 2 3 wheel_channels [of x] packed show ?thesis by blast
qed

theorem wheel_hue_modulo_256_witness:
  "pattern_step_chase 5 (default_state\<lparr>chase_color := ''4'', rainbow_offset := 256\<rparr>) (test_world 5)
     = pattern_step_chase 5 (default_state\<lparr>chase_color := ''4''\<rparr>) (test_world 5) \<and>
   wheel (300 AND 255) = wheel (300 mod 256) \<and>
   (\<exists>r g b. 0 \<le> r \<and> r \<le> 255 \<and> 0 \<le> g \<and> g \<le> 255 \<and> 0 \<le> b \<and> b \<le> 255 \<and>
         r + g + b = 255 \<and> wheel 100 = r * 65536 + g * 256 + b) \<and>
   (0::int) \<le> 100 \<and> (100::int) \<le> 255 \<and> wheel 100 = 0 * 65536 + 210 * 256 + 45"
proof -
  note t = wheel_hue_modulo_256
    [of "default_state\<lparr>chase_color := ''4''\<rparr>" 5 1 "test_world 5" 300 100]
  have r: "(0::int) \<le> 100" "(100::int) \<le> 255" by simp_all
  have a: "pattern_step_chase 5 (default_state\<lparr>chase_color := ''4'', rainbow_offset := 256\<rparr>)
        (test_world 5)
     = pattern_step_chase 5 (default_state\<lparr>chase_color := ''4''\<rparr>) (test_world 5)"
    using t by simp
  have b: "wheel (300 AND 255) = wheel (300 mod 256)"
    using t by blast
  have c: "\<exists>r g b. 0 \<le> r \<and> r \<le> 255 \<and> 0 \<le> g \<and> g \<le> 255 \<and> 0 \<le> b \<and> b \<le> 255 \<and>
         r + g + b = 255 \<and> wheel 100 = r * 65536 + g * 256 + b"
    using t r by blast
  have d: "wheel 100 = 0 * 65536 + 210 * 256 + 45"
    using t by (simp add: Let_def)
  from a b c d r show ?thesis by blast
qed

text \<open>
  Claim C10 as stated fails: \<open>256 mod 256 = 0\<close>, but \<^verbatim>\<open>wheel(256)\<close> is \<^verbatim>\<open>Color(258, 0, -3)\<close>,
  that is \<open>0x0200FD\<close>, and \<^verbatim>\<open>wheel(0)\<close> is \<^verbatim>\<open>Color(255, 0, 0)\<close>, that is \<open>0xFF0000\<close>.
\<close>

theorem wheel_not_periodic_counterexample:
  "256 mod 256 = (0::int) \<and> wheel 256 = 131325 \<and> wheel 0 = 16711680 \<and> wheel 256 \<noteq> wheel (256 mod 256)"
  by (simp add: wheel_def Color_def)

section \<open>Frame delay\<close>

lemma get_delay_emergency: "pattern st = ''4'' \<Longrightarrow> get_delay st = Inr 0.12"
  by (simp add: get_delay_def EMERGENCY_DELAY_SECONDS_def)

lemma get_delay_lookup:
  "pattern st \<noteq> ''4'' \<Longrightarrow> map_of SPEED_MAP (pattern st) = Some row \<Longrightarrow> map_of row (speed st) = Some d
    \<Longrightarrow> get_delay st = Inr d"
  by (simp add: get_delay_def py_getitem_def bind_err_def)

lemma get_delay_entry:
  assumes "pattern st \<noteq> ''4''" "map_of SPEED_MAP (pattern st) = Some row"
    "map_of row (speed st) = Some d" "0.008 \<le> d" "d \<le> 0.30"
  shows "\<exists>row d. map_of SPEED_MAP (pattern st) = Some row \<and> map_of row (speed st) = Some d \<and>
         get_delay st = Inr d \<and> 0.008 \<le> d \<and> d \<le> 0.30"
  using assms get_delay_lookup [OF assms(1-3)] by blast

lemma get_delay_in_table:
  assumes "pattern st \<in> {''1'', ''2'', ''3''}" "speed st \<in> {''1'', ''2'', ''3''}"
  shows "\<exists>row d. map_of SPEED_MAP (pattern st) = Some row \<and> map_of row (speed st) = Some d \<and>
         get_delay st = Inr d \<and> 0.008 \<le> d \<and> d \<le> 0.30"
proof -
  consider "pattern st = ''1''" "speed st = ''1''" | "pattern st = ''1''" "speed st = ''2''" | "pattern st = ''1''" "speed st = ''3''" | "pattern st = ''2''" "speed st = ''1''" | "pattern st = ''2''" "speed st = ''2''" | "pattern st = ''2''" "speed st = ''3''" | "pattern st = ''3''" "speed st = ''1''" | "pattern st = ''3''" "speed st = ''2''" | "pattern st = ''3''" "speed st = ''3''"
    using assms by auto
  then show ?thesis
  proof cases
    case 1
    then show ?thesis
      by (intro get_delay_entry [where row = "[(''1'', 0.08), (''2'', 0.03), (''3'', 0.01)]" and d = "0.08"])
         (simp_all add: SPEED_MAP_def)
  next
    case 2
    then show ?thesis
      by (intro get_delay_entry [where row = "[(''1'', 0.08), (''2'', 0.03), (''3'', 0.01)]" and d = "0.03"])
         (simp_all add: SPEED_MAP_def)
  next
    case 3
    then show ?thesis
      by (intro get_delay_entry [where row = "[(''1'', 0.08), (''2'', 0.03), (''3'', 0.01)]" and d = "0.01"])
         (simp_all add: SPEED_MAP_def)
  next
    case 4
    then show ?thesis
      by (intro get_delay_entry [where row = "[(''1'', 0.30), (''2'', 0.12), (''3'', 0.05)]" and d = "0.30"])
         (simp_all add: SPEED_MAP_def)
  next
    case 5
    then show ?thesis
      by (intro get_delay_entry [where row = "[(''1'', 0.30), (''2'', 0.12), (''3'', 0.05)]" and d = "0.12"])
         (simp_all add: SPEED_MAP_def)
  next
    case 6
    then show ?thesis
      by (intro get_delay_entry [where row = "[(''1'', 0.30), (''2'', 0.12), (''3'', 0.05)]" and d = "0.05"])
         (simp_all add: SPEED_MAP_def)
  next
    case 7
    then show ?thesis
      by (intro get_delay_entry [where row = "[(''1'', 0.06), (''2'', 0.02), (''3'', 0.008)]" and d = "0.06"])
         (simp_all add: SPEED_MAP_def)
  next
    case 8
    then show ?thesis
      by (intro get_delay_entry [where row = "[(''1'', 0.06), (''2'', 0.02), (''3'', 0.008)]" and d = "0.02"])
         (simp_all add: SPEED_MAP_def)
  next
    case 9
    then show ?thesis
      by (intro get_delay_entry [where row = "[(''1'', 0.06), (''2'', 0.02), (''3'', 0.008)]" and d = "0.008"])
         (simp_all add: SPEED_MAP_def)
  qed
qed

lemma get_delay_values:
  "pattern st = ''1'' \<Longrightarrow> speed st = ''1'' \<Longrightarrow> get_delay st = Inr 0.08"
  "pattern st = ''1'' \<Longrightarrow> speed st = ''2'' \<Longrightarrow> get_delay st = Inr 0.03"
  "pattern st = ''1'' \<Longrightarrow> speed st = ''3'' \<Longrightarrow> get_delay st = Inr 0.01"
  "pattern st = ''2'' \<Longrightarrow> speed st = ''1'' \<Longrightarrow> get_delay st = Inr 0.30"
  "pattern st = ''2'' \<Longrightarrow> speed st = ''2'' \<Longrightarrow> get_delay st = Inr 0.12"
  "pattern st = ''2'' \<Longrightarrow> speed st = ''3'' \<Longrightarrow> get_delay st = Inr 0.05"
  "pattern st = ''3'' \<Longrightarrow> speed st = ''1'' \<Longrightarrow> get_delay st = Inr 0.06"
  "pattern st = ''3'' \<Longrightarrow> speed st = ''2'' \<Longrightarrow> get_delay st = Inr 0.02"
  "pattern st = ''3'' \<Longrightarrow> speed st = ''3'' \<Longrightarrow> get_delay st = Inr 0.008"
  by (simp_all add: get_delay_def SPEED_MAP_def py_getitem_def bind_err_def)

lemma get_delay_faster_than_random:
  assumes "pattern st \<in> {''1'', ''3''}" "speed st \<in> {''1'', ''2'', ''3''}"
  shows "\<exists>d r. get_delay st = Inr d \<and> get_delay (st\<lparr>pattern := ''2''\<rparr>) = Inr r \<and> d < r"
proof -
  consider "pattern st = ''1''" "speed st = ''1''" | "pattern st = ''1''" "speed st = ''2''"
    | "pattern st = ''1''" "speed st = ''3''" | "pattern st = ''3''" "speed st = ''1''"
    | "pattern st = ''3''" "speed st = ''2''" | "pattern st = ''3''" "speed st = ''3''"
    using assms by auto
  then show ?thesis
  proof cases
    case 1
    then have "get_delay st = Inr 0.08" "get_delay (st\<lparr>pattern := ''2''\<rparr>) = Inr 0.30"
      by (simp_all add: get_delay_values)
    moreover have "(0.08::real) < 0.30" by simp
    ultimately show ?thesis by blast
  next
    case 2
    then have "get_delay st = Inr 0.03" "get_delay (st\<lparr>pattern := ''2''\<rparr>) = Inr 0.12"
      by (simp_all add: get_delay_values)
    moreover have "(0.03::real) < 0.12" by simp
    ultimately show ?thesis by blast
  next
    case 3
    then have "get_delay st = Inr 0.01" "get_delay (st\<lparr>pattern := ''2''\<rparr>) = Inr 0.05"
      by (simp_all add: get_delay_values)
    moreover have "(0.01::real) < 0.05" by simp
    ultimately show ?thesis by blast
  next
    case 4
    then have "get_delay st = Inr 0.06" "get_delay (st\<lparr>pattern := ''2''\<rparr>) = Inr 0.30"
      by (simp_all add: get_delay_values)
    moreover have "(0.06::real) < 0.30" by simp
    ultimately show ?thesis by blast
  next
    case 5
    then have "get_delay st = Inr 0.02" "get_delay (st\<lparr>pattern := ''2''\<rparr>) = Inr 0.12"
      by (simp_all add: get_delay_values)
    moreover have "(0.02::real) < 0.12" by simp
    ultimately show ?thesis by blast
  next
    case 6
    then have "get_delay st = Inr 0.008" "get_delay (st\<lparr>pattern := ''2''\<rparr>) = Inr 0.05"
      by (simp_all add: get_delay_values)
    moreover have "(0.008::real) < 0.05" by simp
    ultimately show ?thesis by blast
  qed
qed

text \<open>
  Claim C3, as amended.  \<^verbatim>\<open>get_delay\<close> returns 0.12 whenever the pattern is Emergency SOS,
  whatever the speed; for Chase, Random and Bounce (\<open>1\<close>, \<open>2\<close>, \<open>3\<close>) at speed \<open>1\<close>, \<open>2\<close> or
  \<open>3\<close> it returns the entry of \<^verbatim>\<open>SPEED_MAP\<close> for the pattern and the speed, and every entry
  lies in \<open>[0.008, 0.30]\<close>; at each speed the delay of Chase and the delay of Bounce are
  smaller than the delay of Random (Chase and Bounce run faster, not slower).
\<close>

theorem get_delay_table:
  "(pattern st = ''4'' \<longrightarrow> get_delay st = Inr 0.12) \<and>
   (pattern st \<in> {''1'', ''2'', ''3''} \<and> speed st \<in> {''1'', ''2'', ''3''} \<longrightarrow>
      (\<exists>row d. map_of SPEED_MAP (pattern st) = Some row \<and> map_of row (speed st) = Some d \<and>
         get_delay st = Inr d \<and> 0.008 \<le> d \<and> d \<le> 0.30)) \<and>
   (pattern st \<in> {''1'', ''3''} \<and> speed st \<in> {''1'', ''2'', ''3''} \<longrightarrow>
      (\<exists>d r. get_delay st = Inr d \<and> get_delay (st\<lparr>pattern := ''2''\<rparr>) = Inr r \<and> d < r))"
  using get_delay_emergency [of st] get_delay_in_table [of st] get_delay_faster_than_random [of st]
  by blast

theorem get_delay_table_witness:
  "get_delay (default_state\<lparr>pattern := ''4''\<rparr>) = Inr 0.12 \<and>
   (\<exists>d r. get_delay (default_state\<lparr>pattern := ''3'', speed := ''3''\<rparr>) = Inr d \<and>
      get_delay (default_state\<lparr>speed := ''3'', pattern := ''2''\<rparr>) = Inr r \<and> d < r)"
  using get_delay_table [of "default_state\<lparr>pattern := ''4''\<rparr>"]
    get_delay_table [of "default_state\<lparr>pattern := ''3'', speed := ''3''\<rparr>"]
  by simp

text \<open>
  Claim C3 as stated fails: at speed Slow the delay of Chase is 0.08 and the delay of
  Random is 0.30, so the delay of Chase is not the larger one.
\<close>

theorem chase_slower_than_random_counterexample:
  "get_delay (default_state\<lparr>pattern := ''1'', speed := ''1''\<rparr>) = Inr 0.08 \<and>
   get_delay (default_state\<lparr>pattern := ''2'', speed := ''1''\<rparr>) = Inr 0.30 \<and>
   \<not> ((0.30::real) < 0.08)"
  by (simp add: get_delay_def SPEED_MAP_def py_getitem_def bind_err_def)

section \<open>Lemmas on the strip\<close>

lemma bind_err_simps [simp]:
  "bind_err (Inl e) f = Inl e"
  "bind_err (Inr x) f = f x"
  by (simp_all add: bind_err_def)

lemma bind_err_InrD: "bind_err m f = Inr y \<Longrightarrow> \<exists>x. m = Inr x \<and> f x = Inr y"
  by (cases m) simp_all

lemma Color_black [simp]: "Color 0 0 0 = 0"
  by (simp add: Color_def)

lemma setPixelColor_in:
  "0 \<le> i \<Longrightarrow> i < count s \<Longrightarrow> length (pixels s) = nat (count s) \<Longrightarrow>
   setPixelColor s i c = Inr (s\<lparr>pixels := (pixels s)[nat i := c]\<rparr>)"
  by (simp add: setPixelColor_def)

lemma setPixelColor_out:
  "\<not> (0 \<le> i \<and> i < count s) \<Longrightarrow> setPixelColor s i c = Inr s"
  by (auto simp add: setPixelColor_def)

lemma set_pixels_result:
  assumes "length (pixels s) = nat (count s)"
  shows "set_pixels js c s =
           Inr (s\<lparr>pixels := map (\<lambda>j. if int j \<in> set js then c else pixels s ! j)
                                [0..<length (pixels s)]\<rparr>)"
  using assms
proof (induction js arbitrary: s)
  case Nil
  show ?case by (simp add: map_nth)
next
  case (Cons i js)
  show ?case
  proof (cases "0 \<le> i \<and> i < count s")
    case True
    let ?s1 = "s\<lparr>pixels := (pixels s)[nat i := c]\<rparr>"
    have len: "length (pixels ?s1) = nat (count ?s1)" using Cons.prems by simp
    have "set_pixels (i # js) c s = set_pixels js c ?s1"
      using True Cons.prems by (simp add: setPixelColor_in)
    also note Cons.IH [OF len]
    finally have step: "set_pixels (i # js) c s =
        Inr (s\<lparr>pixels := map (\<lambda>j. if int j \<in> set js then c else (pixels s)[nat i := c] ! j)
                             [0..<length (pixels s)]\<rparr>)"
      by simp
    have eq: "map (\<lambda>j. if int j \<in> set js then c else (pixels s)[nat i := c] ! j)
                [0..<length (pixels s)]
            = map (\<lambda>j. if int j \<in> set (i # js) then c else pixels s ! j)
                [0..<length (pixels s)]"
      using True by (intro map_cong) (auto simp: nth_list_update)
    show ?thesis unfolding step eq ..
  next
    case False
    have "set_pixels (i # js) c s = set_pixels js c s"
      using False by (simp add: setPixelColor_out)
    also note Cons.IH [OF Cons.prems]
    finally have step: "set_pixels (i # js) c s =
        Inr (s\<lparr>pixels := map (\<lambda>j. if int j \<in> set js then c else pixels s ! j)
                             [0..<length (pixels s)]\<rparr>)" .
    have eq: "map (\<lambda>j. if int j \<in> set js then c else pixels s ! j) [0..<length (pixels s)]
            = map (\<lambda>j. if int j \<in> set (i # js) then c else pixels s ! j)
                [0..<length (pixels s)]"
      using False Cons.prems by (intro map_cong) auto
    show ?thesis unfolding step eq ..
  qed
qed

lemma set_py_range: "set (py_range n) = {0..n - 1}"
  by (simp add: py_range_def)

lemma set_pixels_range:
  assumes "length (pixels s) = nat (count s)" "count s = n"
  shows "set_pixels (py_range n) c s = Inr (s\<lparr>pixels := replicate (nat n) c\<rparr>)"
proof -
  have "map (\<lambda>j. if int j \<in> set (py_range n) then c else pixels s ! j) [0..<length (pixels s)]
        = replicate (nat n) c"
    using assms by (auto simp: set_py_range intro!: nth_equalityI)
  then show ?thesis using set_pixels_result [OF assms(1), of "py_range n" c] by simp
qed

lemma show_strip_notty:
  "show_strip False s =
     Inr (s\<lparr>frame := frame s + 1\<rparr>,
          frame_prefix (frame s + 1) @ concat (map color_to_ascii (pixels s)) @ [newline])"
  by (simp add: show_strip_def Let_def)

lemma show_strip_ok:
  assumes "render_width s \<noteq> 0"
  shows "\<exists>s' out. show_strip tty s = Inr (s', out) \<and> pixels s' = pixels s \<and> count s' = count s
           \<and> frame s' = frame s + 1 \<and> render_width s' = render_width s
           \<and> VirtualStrip.brightness s' = VirtualStrip.brightness s"
  using assms by (cases tty) (simp_all add: show_strip_def Let_def)

lemma flush_strip_ok:
  assumes "render_width s \<noteq> 0"
  shows "\<exists>s' out. flush_strip s w = Inr (w\<lparr>strip := Some s', stdout := stdout w @ out\<rparr>)
           \<and> pixels s' = pixels s \<and> count s' = count s
           \<and> frame s' = frame s + 1 \<and> render_width s' = render_width s
           \<and> VirtualStrip.brightness s' = VirtualStrip.brightness s"
proof -
  from show_strip_ok [OF assms, of "stdout_isatty w"] obtain s' out where
    "show_strip (stdout_isatty w) s = Inr (s', out)" "pixels s' = pixels s" "count s' = count s"
    "frame s' = frame s + 1" "render_width s' = render_width s"
    "VirtualStrip.brightness s' = VirtualStrip.brightness s" by blast
  then show ?thesis by (auto simp: flush_strip_def)
qed

lemma clear_strip_ok:
  assumes "strip w = Some s" "count s = n" "length (pixels s) = nat n"
  shows "clear_strip n False w = Inr (w\<lparr>strip := Some (s\<lparr>pixels := replicate (nat n) 0\<rparr>)\<rparr>)"
  using assms set_pixels_range [of s n 0] by (simp add: clear_strip_def)

lemma strip_ready_test_world: "strip_ready n (test_world n)"
  by (simp add: strip_ready_def test_world_def init_virtual_strip_def VirtualStrip_init_def)

section \<open>Emergency SOS\<close>

lemma repeat_step_add:
  "repeat_step (a + b) step st w =
     bind_err (repeat_step a step st w) (\<lambda>(st1, w1). repeat_step b step st1 w1)"
proof (induction a arbitrary: st w)
  case 0
  then show ?case by simp
next
  case (Suc a)
  show ?case
  proof (cases "step st w")
    case (Inl e)
    then show ?thesis by simp
  next
    case (Inr r)
    then show ?thesis by (cases r) (simp add: Suc.IH)
  qed
qed

lemma length_sos [simp]: "length EMERGENCY_SOS_STEPS = 28"
  by (simp add: EMERGENCY_SOS_STEPS_def)

lemma length_emergency_colors [simp]: "length EMERGENCY_COLORS = 3"
  by (simp add: EMERGENCY_COLORS_def)

lemma py_index_in_range:
  "0 \<le> i \<Longrightarrow> i < int (length xs) \<Longrightarrow> py_index xs i = Inr (xs ! nat i)"
  by (simp add: py_index_def)

lemma fill_and_flush:
  assumes "strip w = Some s" "count s = n" "length (pixels s) = nat n" "render_width s \<noteq> 0"
  shows "\<exists>w'. bind_err (set_pixels (py_range n) c s) (\<lambda>a. bind_err (flush_strip a w) k) = k w'
           \<and> strip_ready n w'"
proof -
  let ?s1 = "s\<lparr>pixels := replicate (nat n) c\<rparr>"
  have sp: "set_pixels (py_range n) c s = Inr ?s1"
    using assms by (intro set_pixels_range) simp_all
  have rw: "render_width ?s1 \<noteq> 0" using assms by simp
  from flush_strip_ok [OF rw, of w] obtain s' out where
    fl: "flush_strip ?s1 w = Inr (w\<lparr>strip := Some s', stdout := stdout w @ out\<rparr>)"
    and s': "pixels s' = pixels ?s1" "count s' = count ?s1" "render_width s' = render_width ?s1"
    by blast
  have ready: "strip_ready n (w\<lparr>strip := Some s', stdout := stdout w @ out\<rparr>)"
    using assms s' by (simp add: strip_ready_def)
  show ?thesis using sp fl ready by auto
qed

lemma pattern_step_emergency_ok:
  assumes "strip_ready n w" "0 \<le> emergency_step st" "emergency_step st < 28"
    "0 \<le> emergency_color_index st" "emergency_color_index st < 3"
  shows "\<exists>w'. pattern_step_emergency n st w =
           Inr (if emergency_step st = 27
                then st\<lparr>emergency_step := 0,
                       emergency_color_index := (emergency_color_index st + 1) mod 3\<rparr>
                else st\<lparr>emergency_step := emergency_step st + 1\<rparr>, w')
         \<and> strip_ready n w'"
proof -
  from assms(1) obtain s where s: "strip w = Some s" "count s = n" "length (pixels s) = nat n"
    "render_width s \<noteq> 0"
    by (auto simp: strip_ready_def split: option.splits)
  obtain name color where col: "EMERGENCY_COLORS ! nat (emergency_color_index st) = (name, color)"
    by (cases "EMERGENCY_COLORS ! nat (emergency_color_index st)") auto
  define c where "c = (if EMERGENCY_SOS_STEPS ! nat (emergency_step st) > 0 then color else 0)"
  define st' where "st' = (if emergency_step st = 27
                then st\<lparr>emergency_step := 0,
                       emergency_color_index := (emergency_color_index st + 1) mod 3\<rparr>
                else st\<lparr>emergency_step := emergency_step st + 1\<rparr>)"
  have unfold: "pattern_step_emergency n st w =
      bind_err (set_pixels (py_range n) c s)
        (\<lambda>a. bind_err (flush_strip a w) (\<lambda>w1. Inr (st', w1)))"
    using assms(2-5) s col
    by (auto simp add: pattern_step_emergency_def get_strip_def py_index_in_range c_def st'_def
        Let_def)
  from fill_and_flush [OF s, of c "\<lambda>w1. Inr (st', w1)"] show ?thesis
    unfolding unfold st'_def by simp
qed

lemma emergency_run_inside:
  assumes "strip_ready n w" "0 \<le> emergency_step st" "emergency_step st + int k < 28"
    "0 \<le> emergency_color_index st" "emergency_color_index st < 3"
  shows "\<exists>w'. repeat_step k (pattern_step_emergency n) st w =
           Inr (st\<lparr>emergency_step := emergency_step st + int k\<rparr>, w') \<and> strip_ready n w'"
  using assms
proof (induction k arbitrary: st w)
  case 0
  then show ?case by simp
next
  case (Suc k)
  from Suc.prems have lt: "emergency_step st < 28" "emergency_step st \<noteq> 27" by auto
  from pattern_step_emergency_ok [OF Suc.prems(1,2) lt(1) Suc.prems(4,5)] lt(2)
  obtain w1 where 1: "pattern_step_emergency n st w =
      Inr (st\<lparr>emergency_step := emergency_step st + 1\<rparr>, w1)" and r1: "strip_ready n w1"
    by auto
  let ?st1 = "st\<lparr>emergency_step := emergency_step st + 1\<rparr>"
  have "\<exists>w'. repeat_step k (pattern_step_emergency n) ?st1 w1 =
           Inr (?st1\<lparr>emergency_step := emergency_step ?st1 + int k\<rparr>, w') \<and> strip_ready n w'"
    using Suc.prems r1 by (intro Suc.IH) auto
  then show ?case using 1 by (auto simp: add.assoc add.commute)
qed

lemma emergency_waveform:
  assumes "strip_ready n w" "emergency_step st = 0"
    "0 \<le> emergency_color_index st" "emergency_color_index st < 3"
  shows "\<exists>w'. repeat_step 28 (pattern_step_emergency n) st w =
           Inr (st\<lparr>emergency_color_index := (emergency_color_index st + 1) mod 3\<rparr>, w')
         \<and> strip_ready n w'"
proof -
  from emergency_run_inside [of n w st 27] assms obtain w1 where
    1: "repeat_step 27 (pattern_step_emergency n) st w = Inr (st\<lparr>emergency_step := 27\<rparr>, w1)"
    and r1: "strip_ready n w1" by auto
  let ?st1 = "st\<lparr>emergency_step := 27\<rparr>"
  from pattern_step_emergency_ok [of n w1 ?st1] r1 assms obtain w2 where
    2: "pattern_step_emergency n ?st1 w1 =
          Inr (?st1\<lparr>emergency_step := 0,
                     emergency_color_index := (emergency_color_index st + 1) mod 3\<rparr>, w2)"
    and r2: "strip_ready n w2" by auto
  have "repeat_step 28 (pattern_step_emergency n) st w
      = repeat_step (27 + 1) (pattern_step_emergency n) st w" by simp
  also have "\<dots> = Inr (?st1\<lparr>emergency_step := 0,
                     emergency_color_index := (emergency_color_index st + 1) mod 3\<rparr>, w2)"
    unfolding repeat_step_add using 1 2 by simp
  also have "?st1\<lparr>emergency_step := 0,
                     emergency_color_index := (emergency_color_index st + 1) mod 3\<rparr>
     = st\<lparr>emergency_color_index := (emergency_color_index st + 1) mod 3\<rparr>"
    using assms(2) by simp
  finally show ?thesis using r2 by blast
qed

lemma repeat_step_Suc_end:
  "repeat_step (Suc k) step st w =
     bind_err (repeat_step k step st w) (\<lambda>(st1, w1). step st1 w1)"
proof (induction k arbitrary: st w)
  case 0
  show ?case by (cases "step st w") auto
next
  case (Suc k)
  show ?case
  proof (cases "step st w")
    case (Inl e)
    then show ?thesis by simp
  next
    case (Inr r)
    obtain s1 w1 where r: "r = (s1, w1)" by (cases r)
    have "repeat_step (Suc (Suc k)) step st w = repeat_step (Suc k) step s1 w1"
      using Inr r by simp
    also have "\<dots> = bind_err (repeat_step k step s1 w1) (\<lambda>(st1, w1). step st1 w1)"
      by (rule Suc.IH)
    also have "repeat_step k step s1 w1 = repeat_step (Suc k) step st w"
      using Inr r by simp
    finally show ?thesis .
  qed
qed

lemma emergency_run:
  assumes "strip_ready n w" "emergency_step st = 0"
    "0 \<le> emergency_color_index st" "emergency_color_index st < 3"
  shows "\<exists>w'. repeat_step k (pattern_step_emergency n) st w =
           Inr (st\<lparr>emergency_step := int (k mod 28),
                  emergency_color_index := (emergency_color_index st + int (k div 28)) mod 3\<rparr>, w')
         \<and> strip_ready n w'"
proof (induction k)
  case 0
  have "st\<lparr>emergency_step := 0, emergency_color_index := emergency_color_index st mod 3\<rparr> = st"
    using assms(2-4) by simp
  then show ?case using assms(1) by simp
next
  case (Suc k)
  let ?i = "emergency_color_index st"
  let ?sk = "st\<lparr>emergency_step := int (k mod 28),
                  emergency_color_index := (?i + int (k div 28)) mod 3\<rparr>"
  from Suc obtain w1 where
    1: "repeat_step k (pattern_step_emergency n) st w = Inr (?sk, w1)"
    and r1: "strip_ready n w1" by blast
  have rng: "0 \<le> emergency_step ?sk" "emergency_step ?sk < 28"
    "0 \<le> emergency_color_index ?sk" "emergency_color_index ?sk < 3"
    by simp_all
  from pattern_step_emergency_ok [OF r1 rng] obtain w2 where
    2: "pattern_step_emergency n ?sk w1 =
          Inr (if emergency_step ?sk = 27
               then ?sk\<lparr>emergency_step := 0,
                      emergency_color_index := (emergency_color_index ?sk + 1) mod 3\<rparr>
               else ?sk\<lparr>emergency_step := emergency_step ?sk + 1\<rparr>, w2)"
    and r2: "strip_ready n w2" by blast
  have next_state: "(if emergency_step ?sk = 27
               then ?sk\<lparr>emergency_step := 0,
                      emergency_color_index := (emergency_color_index ?sk + 1) mod 3\<rparr>
               else ?sk\<lparr>emergency_step := emergency_step ?sk + 1\<rparr>)
      = st\<lparr>emergency_step := int (Suc k mod 28),
           emergency_color_index := (?i + int (Suc k div 28)) mod 3\<rparr>"
  proof (cases "k mod 28 = 27")
    case True
    then have m: "Suc k mod 28 = 0" and d: "Suc k div 28 = Suc (k div 28)"
      by (simp_all add: mod_Suc div_Suc)
    have "((?i + int (k div 28)) mod 3 + 1) mod 3 = (?i + int (Suc (k div 28))) mod 3"
      by (simp add: mod_simps algebra_simps)
    with True show ?thesis by (simp add: m d)
  next
    case False
    then have m: "Suc k mod 28 = Suc (k mod 28)" and d: "Suc k div 28 = k div 28"
      by (simp_all add: mod_Suc div_Suc)
    from False have "int (k mod 28) \<noteq> 27" by linarith
    then show ?thesis by (simp add: m d)
  qed
  have "repeat_step (Suc k) (pattern_step_emergency n) st w = pattern_step_emergency n ?sk w1"
    unfolding repeat_step_Suc_end 1 by simp
  also have "\<dots> = Inr (st\<lparr>emergency_step := int (Suc k mod 28),
           emergency_color_index := (?i + int (Suc k div 28)) mod 3\<rparr>, w2)"
    by (simp only: 2 next_state)
  finally show ?case using r2 by blast
qed

text \<open>
  Claim C5.  The waveform \<^verbatim>\<open>EMERGENCY_SOS_STEPS\<close> has exactly 28 entries.  On an initialised
  strip, from \<^verbatim>\<open>emergency_step = 0\<close> and a colour index of the three-colour palette, every
  call of \<^verbatim>\<open>pattern_step_emergency\<close> returns, and after \<open>k\<close> calls \<^verbatim>\<open>emergency_step\<close> is
  \<open>k mod 28\<close> and \<^verbatim>\<open>emergency_color_index\<close> is the original index plus \<open>k div 28\<close>, modulo 3
  (nothing else of the state changes).  So during the first 27 calls the step counts
  up and the colour index stays; the 28th call puts \<^verbatim>\<open>emergency_step\<close> back to 0 and
  advances the colour index by one modulo 3, once per waveform; 84 calls return the
  state they started from, so the colour index is the original one.
\<close>

theorem emergency_sos_cycle:
  assumes "strip_ready n w" "emergency_step st = 0"
    "0 \<le> emergency_color_index st" "emergency_color_index st < 3"
  shows "length EMERGENCY_SOS_STEPS = 28 \<and>
    (\<forall>k. \<exists>w'. repeat_step k (pattern_step_emergency n) st w =
           Inr (st\<lparr>emergency_step := int (k mod 28),
                  emergency_color_index := (emergency_color_index st + int (k div 28)) mod 3\<rparr>,
                w')) \<and>
    (\<forall>k<28. \<exists>w'. repeat_step k (pattern_step_emergency n) st w =
           Inr (st\<lparr>emergency_step := int k\<rparr>, w')) \<and>
    (\<exists>w'. repeat_step 28 (pattern_step_emergency n) st w =
           Inr (st\<lparr>emergency_color_index := (emergency_color_index st + 1) mod 3\<rparr>, w')) \<and>
    (\<exists>w'. repeat_step 84 (pattern_step_emergency n) st w = Inr (st, w'))"
proof -
  let ?f = "pattern_step_emergency n"
  let ?i = "emergency_color_index st"
  have run: "\<exists>w'. repeat_step k ?f st w =
           Inr (st\<lparr>emergency_step := int (k mod 28),
                  emergency_color_index := (?i + int (k div 28)) mod 3\<rparr>, w')" for k
    using emergency_run [OF assms, of k] by blast
  have inside: "\<exists>w'. repeat_step k ?f st w = Inr (st\<lparr>emergency_step := int k\<rparr>, w')"
    if "k < 28" for k
  proof -
    have "st\<lparr>emergency_step := int (k mod 28),
              emergency_color_index := (?i + int (k div 28)) mod 3\<rparr>
        = st\<lparr>emergency_step := int k\<rparr>"
      using that assms(3,4) by simp
    with run [of k] show ?thesis by simp
  qed
  have "st\<lparr>emergency_step := int (28 mod 28),
              emergency_color_index := (?i + int (28 div 28)) mod 3\<rparr>
        = st\<lparr>emergency_color_index := (?i + 1) mod 3\<rparr>"
    using assms(2) by simp
  with run [of 28] have once: "\<exists>w'. repeat_step 28 ?f st w =
           Inr (st\<lparr>emergency_color_index := (?i + 1) mod 3\<rparr>, w')"
    by simp
  have "st\<lparr>emergency_step := int (84 mod 28),
              emergency_color_index := (?i + int (84 div 28)) mod 3\<rparr> = st"
    using assms(2-4) by simp
  with run [of 84] have thrice: "\<exists>w'. repeat_step 84 ?f st w = Inr (st, w')"
    by simp
  from run inside once thrice show ?thesis by simp
qed

theorem emergency_sos_cycle_witness:
  "strip_ready LED_COUNT (test_world LED_COUNT) \<and> emergency_step default_state = 0 \<and>
   0 \<le> emergency_color_index default_state \<and> emergency_color_index default_state < 3 \<and>
   length EMERGENCY_SOS_STEPS = 28 \<and>
   (\<exists>w'. repeat_step 1 (pattern_step_emergency LED_COUNT) default_state (test_world LED_COUNT) =
           Inr (default_state\<lparr>emergency_step := 1\<rparr>, w')) \<and>
   (\<exists>w'. repeat_step 27 (pattern_step_emergency LED_COUNT) default_state (test_world LED_COUNT) =
           Inr (default_state\<lparr>emergency_step := 27\<rparr>, w')) \<and>
   (\<exists>w'. repeat_step 28 (pattern_step_emergency LED_COUNT) default_state (test_world LED_COUNT) =
           Inr (default_state\<lparr>emergency_color_index := 1\<rparr>, w')) \<and>
   (\<exists>w'. repeat_step 29 (pattern_step_emergency LED_COUNT) default_state (test_world LED_COUNT) =
           Inr (default_state\<lparr>emergency_step := 1, emergency_color_index := 1\<rparr>, w')) \<and>
   (\<exists>w'. repeat_step 84 (pattern_step_emergency LED_COUNT) default_state (test_world LED_COUNT) =
           Inr (default_state, w'))"
proof -
  let ?f = "pattern_step_emergency LED_COUNT"
  let ?w = "test_world LED_COUNT"
  have h: "strip_ready LED_COUNT ?w" "emergency_step default_state = 0"
    "0 \<le> emergency_color_index default_state" "emergency_color_index default_state < 3"
    by (simp_all add: strip_ready_test_world)
  note t = emergency_sos_cycle [OF h]
  from t have all: "\<exists>w'. repeat_step k ?f default_state ?w =
           Inr (default_state\<lparr>emergency_step := int (k mod 28),
                  emergency_color_index :=
                    (emergency_color_index default_state + int (k div 28)) mod 3\<rparr>, w')" for k
    by blast
  from t have inside: "\<exists>w'. repeat_step k ?f default_state ?w =
           Inr (default_state\<lparr>emergency_step := int k\<rparr>, w')" if "k < 28" for k
    using that by blast
  from t have len: "length EMERGENCY_SOS_STEPS = 28" by blast
  from t have c28: "\<exists>w'. repeat_step 28 ?f default_state ?w =
           Inr (default_state\<lparr>emergency_color_index := (emergency_color_index default_state + 1) mod 3\<rparr>, w')"
    by blast
  from t have c84: "\<exists>w'. repeat_step 84 ?f default_state ?w = Inr (default_state, w')"
    by blast
  have c1: "\<exists>w'. repeat_step 1 ?f default_state ?w = Inr (default_state\<lparr>emergency_step := 1\<rparr>, w')"
    using inside [of 1] by simp
  have c27: "\<exists>w'. repeat_step 27 ?f default_state ?w = Inr (default_state\<lparr>emergency_step := 27\<rparr>, w')"
    using inside [of 27] by simp
  have c29: "\<exists>w'. repeat_step 29 ?f default_state ?w =
       Inr (default_state\<lparr>emergency_step := 1, emergency_color_index := 1\<rparr>, w')"
    using all [of 29] by simp
  from c28 have c28': "\<exists>w'. repeat_step 28 ?f default_state ?w =
           Inr (default_state\<lparr>emergency_color_index := 1\<rparr>, w')"
    by simp
  from h len c1 c27 c28' c29 c84 show ?thesis by blast
qed

section \<open>Chase\<close>

lemma strip_readyE:
  assumes "strip_ready n w"
  obtains s where "strip w = Some s" "count s = n" "length (pixels s) = nat n"
    "render_width s \<noteq> 0"
  using assms by (auto simp: strip_ready_def split: option.splits)

lemma paint_pixel:
  assumes "strip w = Some s" "count s = n" "length (pixels s) = nat n" "render_width s \<noteq> 0"
    "0 \<le> pos" "pos < n"
  shows "\<exists>s' out.
      bind_err (get_strip w) (\<lambda>_. bind_err (clear_strip n False w) (\<lambda>w1.
        bind_err (get_strip w1) (\<lambda>a. bind_err (setPixelColor a pos c) (\<lambda>a.
          bind_err (flush_strip a w1) k))))
        = k (w\<lparr>strip := Some s', stdout := stdout w @ out\<rparr>)
      \<and> pixels s' = (replicate (nat n) 0)[nat pos := c] \<and> count s' = n
      \<and> render_width s' = render_width s \<and> frame s' = frame s + 1
      \<and> (\<not> stdout_isatty w \<longrightarrow>
            out = frame_prefix (frame s + 1)
                  @ concat (map color_to_ascii ((replicate (nat n) 0)[nat pos := c])) @ [newline])"
proof -
  let ?s0 = "s\<lparr>pixels := replicate (nat n) 0\<rparr>"
  let ?w1 = "w\<lparr>strip := Some ?s0\<rparr>"
  let ?s1 = "?s0\<lparr>pixels := (replicate (nat n) 0)[nat pos := c]\<rparr>"
  have cl: "clear_strip n False w = Inr ?w1" using assms by (intro clear_strip_ok)
  have px: "setPixelColor ?s0 pos c = Inr ?s1"
    using assms by (simp add: setPixelColor_def)
  have rw: "render_width ?s1 \<noteq> 0" using assms by simp
  have fl: "\<exists>s' out. flush_strip ?s1 ?w1 = Inr (w\<lparr>strip := Some s', stdout := stdout w @ out\<rparr>)
      \<and> pixels s' = pixels ?s1 \<and> count s' = count ?s1 \<and> render_width s' = render_width ?s1
      \<and> frame s' = frame ?s1 + 1
      \<and> (\<not> stdout_isatty w \<longrightarrow>
            out = frame_prefix (frame s + 1) @ concat (map color_to_ascii (pixels ?s1)) @ [newline])"
  proof (cases "stdout_isatty w")
    case False
    then show ?thesis
      by (intro exI[of _ "?s1\<lparr>frame := frame s + 1\<rparr>"]
            exI[of _ "frame_prefix (frame s + 1) @ concat (map color_to_ascii (pixels ?s1))
                      @ [newline]"])
         (simp add: flush_strip_def show_strip_notty)
  next
    case True
    from flush_strip_ok [OF rw, of ?w1] show ?thesis using True by auto
  qed
  then obtain s' out where
    "flush_strip ?s1 ?w1 = Inr (w\<lparr>strip := Some s', stdout := stdout w @ out\<rparr>)"
    "pixels s' = pixels ?s1" "count s' = count ?s1" "render_width s' = render_width ?s1"
    "frame s' = frame ?s1 + 1"
    "\<not> stdout_isatty w \<longrightarrow>
        out = frame_prefix (frame s + 1) @ concat (map color_to_ascii (pixels ?s1)) @ [newline]"
    by blast
  then show ?thesis using assms cl px
    by (intro exI[of _ s'] exI[of _ out]) (simp add: get_strip_def)
qed








section \<open>Bounce\<close>

lemma bounce_color_cases:
  assumes "bounce_color st \<in> {''1'', ''2'', ''3'', ''4''}"
  shows "\<exists>color.
     (if bounce_color st = ''4''
        then Inr (wheel ((rainbow_offset st + bounce_position st * 8) AND 255),
                  st\<lparr>rainbow_offset := (rainbow_offset st + 3) AND 255\<rparr>)
        else bind_err (py_getitem BOUNCE_COLORS (bounce_color st))
               (\<lambda>(name, c). Inr (c, st)))
     = Inr (color, st\<lparr>rainbow_offset :=
                         (if bounce_color st = ''4'' then (rainbow_offset st + 3) mod 256
                          else rainbow_offset st)\<rparr>)"
proof -
  from assms consider "bounce_color st = ''1''" | "bounce_color st = ''2''"
    | "bounce_color st = ''3''" | "bounce_color st = ''4''" by auto
  then show ?thesis
  proof cases
    case 1 then show ?thesis by (simp add: BOUNCE_COLORS_def py_getitem_def)
  next
    case 2 then show ?thesis by (simp add: BOUNCE_COLORS_def py_getitem_def)
  next
    case 3 then show ?thesis by (simp add: BOUNCE_COLORS_def py_getitem_def)
  next
    case 4 then show ?thesis by (simp add: and_255_mod)
  qed
qed

text \<open>The direction after a Bounce step, from the position and direction before it.\<close>

lemma pattern_step_bounce_ok:
  assumes "strip_ready n w" "0 \<le> bounce_position st" "bounce_position st < n"
    "bounce_color st \<in> {''1'', ''2'', ''3'', ''4''}"
  shows "\<exists>st' w'. pattern_step_bounce n st w = Inr (st', w') \<and> strip_ready n w'
      \<and> bounce_direction st' =
          (if bounce_position st = n - 1 then - 1
           else if bounce_position st = 0 then 1 else bounce_direction st)
      \<and> bounce_position st' = bounce_position st + bounce_direction st'
      \<and> bounce_color st' = bounce_color st"
proof -
  from assms(1) obtain s where s: "strip w = Some s" "count s = n"
    "length (pixels s) = nat n" "render_width s \<noteq> 0" by (rule strip_readyE)
  from bounce_color_cases [OF assms(4)] obtain color where
    col: "(if bounce_color st = ''4''
        then Inr (wheel ((rainbow_offset st + bounce_position st * 8) AND 255),
                  st\<lparr>rainbow_offset := (rainbow_offset st + 3) AND 255\<rparr>)
        else bind_err (py_getitem BOUNCE_COLORS (bounce_color st))
               (\<lambda>(name, c). Inr (c, st)))
     = Inr (color, st\<lparr>rainbow_offset :=
                         (if bounce_color st = ''4'' then (rainbow_offset st + 3) mod 256
                          else rainbow_offset st)\<rparr>)"
    by blast
  let ?st1 = "st\<lparr>rainbow_offset :=
                         (if bounce_color st = ''4'' then (rainbow_offset st + 3) mod 256
                          else rainbow_offset st)\<rparr>"
  let ?st2 = "(if bounce_position ?st1 = n - 1 then ?st1\<lparr>bounce_direction := - 1\<rparr>
            else if bounce_position ?st1 = 0 then ?st1\<lparr>bounce_direction := 1\<rparr>
            else ?st1)"
  let ?k = "\<lambda>w2. Inr (?st2\<lparr>bounce_position := bounce_position ?st2 + bounce_direction ?st2\<rparr>, w2)"
  have unfold: "pattern_step_bounce n st w =
      bind_err (get_strip w) (\<lambda>_. bind_err (clear_strip n False w) (\<lambda>w1.
        bind_err (get_strip w1) (\<lambda>a. bind_err (setPixelColor a (bounce_position st) color) (\<lambda>a.
          bind_err (flush_strip a w1) ?k))))"
    unfolding pattern_step_bounce_def col by (simp add: Let_def)
  from paint_pixel [OF s assms(2,3), of color ?k] obtain s' out where
    run: "bind_err (get_strip w) (\<lambda>_. bind_err (clear_strip n False w) (\<lambda>w1.
        bind_err (get_strip w1) (\<lambda>a. bind_err (setPixelColor a (bounce_position st) color) (\<lambda>a.
          bind_err (flush_strip a w1) ?k))))
        = ?k (w\<lparr>strip := Some s', stdout := stdout w @ out\<rparr>)"
    and rest: "pixels s' = (replicate (nat n) 0)[nat (bounce_position st) := color]" "count s' = n"
      "render_width s' = render_width s"
    by blast
  have ready: "strip_ready n (w\<lparr>strip := Some s', stdout := stdout w @ out\<rparr>)"
    using s rest by (simp add: strip_ready_def)
  show ?thesis
    unfolding unfold run using ready
    by (intro exI[of _ "?st2\<lparr>bounce_position := bounce_position ?st2 + bounce_direction ?st2\<rparr>"]
          exI[of _ "w\<lparr>strip := Some s', stdout := stdout w @ out\<rparr>"]) simp
qed

lemma bounce_run:
  assumes "2 \<le> n" "strip_ready n w" "0 \<le> bounce_position st" "bounce_position st < n"
    "bounce_direction st \<in> {1, - 1}" "bounce_color st \<in> {''1'', ''2'', ''3'', ''4''}"
  shows "\<exists>st' w'. repeat_step k (pattern_step_bounce n) st w = Inr (st', w')
      \<and> strip_ready n w' \<and> 0 \<le> bounce_position st' \<and> bounce_position st' < n
      \<and> bounce_direction st' \<in> {1, - 1} \<and> bounce_color st' = bounce_color st
      \<and> (0 < k \<longrightarrow> (bounce_position st' = n - 1 \<longrightarrow> bounce_direction st' = 1)
                  \<and> (bounce_position st' = 0 \<longrightarrow> bounce_direction st' = - 1))"
  using assms(2-6)
proof (induction k arbitrary: st w)
  case 0
  then show ?case by simp
next
  case (Suc k)
  from pattern_step_bounce_ok [OF Suc.prems(1-3,5)] obtain st1 w1 where
    1: "pattern_step_bounce n st w = Inr (st1, w1)" and r1: "strip_ready n w1"
    and d1: "bounce_direction st1 =
          (if bounce_position st = n - 1 then - 1
           else if bounce_position st = 0 then 1 else bounce_direction st)"
    and p1: "bounce_position st1 = bounce_position st + bounce_direction st1"
    and c1: "bounce_color st1 = bounce_color st"
    by blast
  have dir1: "bounce_direction st1 \<in> {1, - 1}" using d1 Suc.prems(4) by auto
  have pos1: "0 \<le> bounce_position st1" "bounce_position st1 < n"
    using d1 p1 Suc.prems(2,3,4) assms(1) by (auto split: if_splits)
  have end1: "(bounce_position st1 = n - 1 \<longrightarrow> bounce_direction st1 = 1)
            \<and> (bounce_position st1 = 0 \<longrightarrow> bounce_direction st1 = - 1)"
    using d1 p1 Suc.prems(2,3,4) assms(1) by (auto split: if_splits)
  have col1: "bounce_color st1 \<in> {''1'', ''2'', ''3'', ''4''}" using c1 Suc.prems(5) by simp
  from Suc.IH [OF r1 pos1 dir1 col1] obtain st' w' where
    2: "repeat_step k (pattern_step_bounce n) st1 w1 = Inr (st', w')"
    and r2: "strip_ready n w'" "0 \<le> bounce_position st'" "bounce_position st' < n"
      "bounce_direction st' \<in> {1, - 1}" "bounce_color st' = bounce_color st1"
    and e2: "0 < k \<longrightarrow> (bounce_position st' = n - 1 \<longrightarrow> bounce_direction st' = 1)
                  \<and> (bounce_position st' = 0 \<longrightarrow> bounce_direction st' = - 1)"
    by blast
  have run: "repeat_step (Suc k) (pattern_step_bounce n) st w = Inr (st', w')"
    using 1 2 by simp
  have e: "(bounce_position st' = n - 1 \<longrightarrow> bounce_direction st' = 1)
                  \<and> (bounce_position st' = 0 \<longrightarrow> bounce_direction st' = - 1)"
  proof (cases "k = 0")
    case True
    with 2 have "st' = st1" by simp
    with end1 show ?thesis by simp
  next
    case False
    with e2 show ?thesis by simp
  qed
  from run r2 e c1 show ?case by auto
qed

text \<open>
  Claim C2, as amended: for every strip length \<open>n \<ge> 2\<close> (the module has 120).  On an
  initialised strip, from \<^verbatim>\<open>bounce_position\<close> in \<open>[0, n)\<close>, a direction of \<open>+1\<close> or \<open>-1\<close> and
  one of the four colour options, any number \<open>k\<close> of calls of \<^verbatim>\<open>pattern_step_bounce\<close>
  return and leave the position in \<open>[0, n)\<close> and the direction \<open>+1\<close> or \<open>-1\<close>.  Each step
  sets the direction to \<open>-1\<close> when the position before it is \<open>n - 1\<close>, to \<open>+1\<close> when it is 0,
  leaves it alone elsewhere, and then adds the direction to the position.  After at least
  one step the direction points away from an endpoint whenever the position is one, so
  from then on a step changes the direction exactly when the position before it is
  \<open>n - 1\<close> or 0.
\<close>

theorem bounce_stays_in_range:
  assumes "2 \<le> n" "strip_ready n w" "0 \<le> bounce_position st" "bounce_position st < n"
    "bounce_direction st \<in> {1, - 1}" "bounce_color st \<in> {''1'', ''2'', ''3'', ''4''}"
  shows
    "(\<exists>st' w'. repeat_step k (pattern_step_bounce n) st w = Inr (st', w')
        \<and> strip_ready n w' \<and> 0 \<le> bounce_position st' \<and> bounce_position st' < n
        \<and> bounce_direction st' \<in> {1, - 1} \<and> bounce_color st' = bounce_color st
        \<and> (0 < k \<longrightarrow>
             (\<exists>st'' w''. pattern_step_bounce n st' w' = Inr (st'', w'')
                \<and> (bounce_direction st'' \<noteq> bounce_direction st'
                     \<longleftrightarrow> bounce_position st' = n - 1 \<or> bounce_position st' = 0)))) \<and>
     (\<exists>st' w'. pattern_step_bounce n st w = Inr (st', w')
        \<and> bounce_direction st' =
            (if bounce_position st = n - 1 then - 1
             else if bounce_position st = 0 then 1 else bounce_direction st)
        \<and> bounce_position st' = bounce_position st + bounce_direction st')"
proof -
  from bounce_run [OF assms, of k] obtain st' w' where
    run: "repeat_step k (pattern_step_bounce n) st w = Inr (st', w')"
    and inv: "strip_ready n w'" "0 \<le> bounce_position st'" "bounce_position st' < n"
      "bounce_direction st' \<in> {1, - 1}" "bounce_color st' = bounce_color st"
    and ends: "0 < k \<longrightarrow> (bounce_position st' = n - 1 \<longrightarrow> bounce_direction st' = 1)
                  \<and> (bounce_position st' = 0 \<longrightarrow> bounce_direction st' = - 1)"
    by blast
  have col': "bounce_color st' \<in> {''1'', ''2'', ''3'', ''4''}" using inv(5) assms(6) by simp
  from pattern_step_bounce_ok [OF inv(1-3) col'] obtain st'' w'' where
    nxt: "pattern_step_bounce n st' w' = Inr (st'', w'')"
    and d: "bounce_direction st'' =
          (if bounce_position st' = n - 1 then - 1
           else if bounce_position st' = 0 then 1 else bounce_direction st')"
    by blast
  have flip: "0 < k \<longrightarrow> (bounce_direction st'' \<noteq> bounce_direction st'
                     \<longleftrightarrow> bounce_position st' = n - 1 \<or> bounce_position st' = 0)"
    using d ends inv(4) assms(1) by (auto split: if_splits)
  have A: "\<exists>st' w'. repeat_step k (pattern_step_bounce n) st w = Inr (st', w')
        \<and> strip_ready n w' \<and> 0 \<le> bounce_position st' \<and> bounce_position st' < n
        \<and> bounce_direction st' \<in> {1, - 1} \<and> bounce_color st' = bounce_color st
        \<and> (0 < k \<longrightarrow>
             (\<exists>st'' w''. pattern_step_bounce n st' w' = Inr (st'', w'')
                \<and> (bounce_direction st'' \<noteq> bounce_direction st'
                     \<longleftrightarrow> bounce_position st' = n - 1 \<or> bounce_position st' = 0)))"
    using run inv nxt flip by blast
  from pattern_step_bounce_ok [OF assms(2-4,6)]
  have B: "\<exists>st' w'. pattern_step_bounce n st w = Inr (st', w')
        \<and> bounce_direction st' =
            (if bounce_position st = n - 1 then - 1
             else if bounce_position st = 0 then 1 else bounce_direction st)
        \<and> bounce_position st' = bounce_position st + bounce_direction st'"
    by blast
  from A B show ?thesis ..
qed

theorem bounce_stays_in_range_witness:
  "(2::int) \<le> 3 \<and> strip_ready 3 (test_world 3) \<and> 0 \<le> bounce_position default_state \<and>
   bounce_position default_state < 3 \<and> bounce_direction default_state \<in> {1, - 1} \<and>
   bounce_color default_state \<in> {''1'', ''2'', ''3'', ''4''} \<and>
   (\<exists>st' w'. repeat_step 4 (pattern_step_bounce 3) default_state (test_world 3) = Inr (st', w')
        \<and> 0 \<le> bounce_position st' \<and> bounce_position st' < 3) \<and>
   map (\<lambda>k. map_sum id (\<lambda>(st, w). (bounce_position st, bounce_direction st))
               (repeat_step k (pattern_step_bounce 3) default_state (test_world 3)))
       [0, 1, 2, 3, 4, 5]
     = [Inr (0, 1), Inr (1, 1), Inr (2, 1), Inr (1, - 1), Inr (0, - 1), Inr (1, 1)]"
proof -
  have h: "(2::int) \<le> 3" "strip_ready 3 (test_world 3)" "0 \<le> bounce_position default_state"
   "bounce_position default_state < 3" "bounce_direction default_state \<in> {1, - 1}"
   "bounce_color default_state \<in> {''1'', ''2'', ''3'', ''4''}"
    by (simp_all add: strip_ready_test_world)
  have run: "map (\<lambda>k. map_sum id (\<lambda>(st, w). (bounce_position st, bounce_direction st))
               (repeat_step k (pattern_step_bounce 3) default_state (test_world 3)))
       [0, 1, 2, 3, 4, 5]
     = [Inr (0, 1), Inr (1, 1), Inr (2, 1), Inr (1, - 1), Inr (0, - 1), Inr (1, 1)]"
    by code_simp
  from bounce_stays_in_range [OF h, of 4] h run show ?thesis by auto
qed

text \<open>
  Claim C2 as stated fails.  On a strip of one pixel, position 0 is also \<open>n - 1\<close>: the step
  sets the direction to \<open>-1\<close> and moves to position \<open>-1\<close>, outside \<open>[0, 1)\<close>.  And a start at
  position \<open>n - 1\<close> with direction \<open>-1\<close> (here \<open>n = 3\<close>) is a step at an endpoint that does
  not change the direction.
\<close>

theorem bounce_single_pixel_counterexample:
  "map_sum id (\<lambda>(st, w). bounce_position st)
     (pattern_step_bounce 1 default_state (test_world 1)) = Inr (- 1) \<and>
   \<not> (0 \<le> (- 1 :: int)) \<and>
   map_sum id (\<lambda>(st, w). bounce_direction st)
     (pattern_step_bounce 3 (default_state\<lparr>bounce_position := 2, bounce_direction := - 1\<rparr>)
        (test_world 3)) = Inr (- 1)"
  by code_simp


section \<open>Frames of the software sink\<close>

lemma color_to_ascii_single: "\<exists>c. color_to_ascii x = [c] \<and> c \<in> {CHR ''.'', CHR ''W'', CHR ''R'', CHR ''G'', CHR ''B''}"
  by (simp add: color_to_ascii_def Let_def)

lemma length_color_to_ascii [simp]: "length (color_to_ascii x) = 1"
  using color_to_ascii_single [of x] by auto

lemma glyphs_one_per_pixel:
  "concat (map color_to_ascii xs) = map (\<lambda>x. hd (color_to_ascii x)) xs"
proof (induction xs)
  case Nil
  then show ?case by simp
next
  case (Cons x xs)
  from color_to_ascii_single [of x] obtain c where "color_to_ascii x = [c]" by blast
  with Cons show ?case by simp
qed

lemma glyph_alphabet:
  "set (concat (map color_to_ascii xs)) \<subseteq> {CHR ''.'', CHR ''W'', CHR ''R'', CHR ''G'', CHR ''B''}"
proof -
  have "hd (color_to_ascii x) \<in> {CHR ''.'', CHR ''W'', CHR ''R'', CHR ''G'', CHR ''B''}" for x
    using color_to_ascii_single [of x] by auto
  then show ?thesis unfolding glyphs_one_per_pixel by auto
qed

lemma Color_channels:
  assumes "0 \<le> r" "r \<le> 255" "0 \<le> g" "g \<le> 255" "0 \<le> b" "b \<le> 255"
  shows "drop_bit 16 (Color r g b) AND 255 = r" "drop_bit 8 (Color r g b) AND 255 = g"
    "Color r g b AND 255 = b" "Color r g b = 0 \<longleftrightarrow> r = 0 \<and> g = 0 \<and> b = 0"
proof -
  note c = Color_in_range [OF assms]
  have "(r * 65536 + g * 256 + b) div 65536 = r" using assms by simp
  then show "drop_bit 16 (Color r g b) AND 255 = r"
    using assms by (simp add: c drop_bit_eq_div and_255_mod)
  have "(r * 65536 + g * 256 + b) div 256 = r * 256 + g" using assms by simp
  then show "drop_bit 8 (Color r g b) AND 255 = g"
    using assms by (simp add: c drop_bit_eq_div and_255_mod)
  have "(b + 256 * (r * 256 + g)) mod 256 = b mod 256" by (rule mod_mult_self2)
  then have "(r * 65536 + g * 256 + b) mod 256 = b" using assms by (simp add: algebra_simps)
  then show "Color r g b AND 255 = b" by (simp add: c and_255_mod)
  show "Color r g b = 0 \<longleftrightarrow> r = 0 \<and> g = 0 \<and> b = 0"
    unfolding c using assms by linarith
qed

lemma color_to_ascii_spec:
  assumes "0 \<le> r" "r \<le> 255" "0 \<le> g" "g \<le> 255" "0 \<le> b" "b \<le> 255"
  shows "color_to_ascii (Color r g b) = [spec_glyph r g b]"
  unfolding color_to_ascii_def Let_def Color_channels [OF assms] spec_glyph_def
  by auto

lemma length_digits_of_nat: "n < 10000 \<Longrightarrow> length (digits_of_nat n) \<le> 4"
proof -
  assume n: "n < 10000"
  have d1: "m < 10 \<Longrightarrow> length (digits_of_nat m) = 1" for m
    by (subst digits_of_nat.simps) simp
  have d2: "m < 100 \<Longrightarrow> length (digits_of_nat m) \<le> 2" for m
    by (subst digits_of_nat.simps) (auto simp: d1)
  have d3: "m < 1000 \<Longrightarrow> length (digits_of_nat m) \<le> 3" for m
  proof -
    assume m: "m < 1000"
    then have "m div 10 < 100" by simp
    from d2 [OF this] show ?thesis by (subst digits_of_nat.simps) (auto simp: d1)
  qed
  from n have "n div 10 < 1000" by simp
  from d3 [OF this] show ?thesis by (subst digits_of_nat.simps) (auto simp: d1)
qed

lemma length_format_04d:
  assumes "0 \<le> f" "f < 10000"
  shows "length (format_04d f) = 4"
proof -
  have "nat f < 10000" using assms by simp
  from length_digits_of_nat [OF this] show ?thesis
    using assms by (simp add: format_04d_def zero_pad_def)
qed

text \<open>
  Claim C9.  When standard output is not a terminal, \<^verbatim>\<open>show\<close> advances the frame counter by
  one (it is 0 in a new strip, so the first frame is number 1) and writes one line: the
  prefix \<^verbatim>\<open>Frame %04d | \<close> with the new counter (four digits up to 9999), then one glyph per
  pixel, in order, each from \<open>{., W, R, G, B}\<close>, and a newline.  The glyph of a pixel
  \<^verbatim>\<open>Color(r, g, b)\<close> with channels in \<open>[0, 255]\<close> is the one the specification names
  (\<open>spec_glyph\<close>): a dot for black, \<open>W\<close> when every channel is above 180, otherwise the
  letter of the largest channel, red before green before blue on ties.  The first frame of
  a new strip of four pixels is the line \<^verbatim>\<open>Frame 0001 | ....\<close>.
\<close>

theorem software_sink_frame_line:
  "show_strip False s =
     Inr (s\<lparr>frame := frame s + 1\<rparr>,
          ''Frame '' @ format_04d (frame s + 1) @ '' | ''
            @ concat (map color_to_ascii (pixels s)) @ [newline]) \<and>
   concat (map color_to_ascii (pixels s)) = map (\<lambda>x. hd (color_to_ascii x)) (pixels s) \<and>
   length (concat (map color_to_ascii (pixels s))) = length (pixels s) \<and>
   set (concat (map color_to_ascii (pixels s)))
     \<subseteq> {CHR ''.'', CHR ''W'', CHR ''R'', CHR ''G'', CHR ''B''} \<and>
   (0 \<le> r \<and> r \<le> 255 \<and> 0 \<le> g \<and> g \<le> 255 \<and> 0 \<le> b \<and> b \<le> 255 \<longrightarrow>
      color_to_ascii (Color r g b) = [spec_glyph r g b]) \<and>
   frame (VirtualStrip_init tw n) = 0 \<and> length (pixels (VirtualStrip_init tw n)) = nat n \<and>
   (0 \<le> frame s \<and> frame s < 9999 \<longrightarrow> length (format_04d (frame s + 1)) = 4) \<and>
   show_strip False (VirtualStrip_init tw 4) =
     Inr ((VirtualStrip_init tw 4)\<lparr>frame := 1\<rparr>, ''Frame 0001 | ....'' @ [newline])"
proof -
  have A: "show_strip False s =
     Inr (s\<lparr>frame := frame s + 1\<rparr>,
          ''Frame '' @ format_04d (frame s + 1) @ '' | ''
            @ concat (map color_to_ascii (pixels s)) @ [newline])"
    by (simp add: show_strip_notty frame_prefix_def)
  have B: "length (concat (map color_to_ascii (pixels s))) = length (pixels s)"
    unfolding glyphs_one_per_pixel by simp
  have C: "0 \<le> r \<and> r \<le> 255 \<and> 0 \<le> g \<and> g \<le> 255 \<and> 0 \<le> b \<and> b \<le> 255 \<longrightarrow>
      color_to_ascii (Color r g b) = [spec_glyph r g b]"
    using color_to_ascii_spec [of r g b] by blast
  have D: "frame (VirtualStrip_init tw n) = 0 \<and> length (pixels (VirtualStrip_init tw n)) = nat n"
    by (simp add: VirtualStrip_init_def)
  have E: "0 \<le> frame s \<and> frame s < 9999 \<longrightarrow> length (format_04d (frame s + 1)) = 4"
    using length_format_04d [of "frame s + 1"] by simp
  have F: "show_strip False (VirtualStrip_init tw 4) =
     Inr ((VirtualStrip_init tw 4)\<lparr>frame := 1\<rparr>, ''Frame 0001 | ....'' @ [newline])"
  proof -
    have "format_04d 1 = ''0001''" by code_simp
    moreover have "concat (map color_to_ascii (replicate (nat 4) (Color 0 0 0))) = ''....''"
      by code_simp
    ultimately show ?thesis
      by (simp add: show_strip_notty frame_prefix_def VirtualStrip_init_def)
  qed
  from A glyphs_one_per_pixel [of "pixels s"] B glyph_alphabet [of "pixels s"] C D E F
  show ?thesis by blast
qed

theorem software_sink_frame_line_witness:
  "show_strip False (VirtualStrip_init 80 4) =
     Inr ((VirtualStrip_init 80 4)\<lparr>frame := 1\<rparr>, ''Frame 0001 | ....'' @ [newline]) \<and>
   0 \<le> (255::int) \<and> 0 \<le> (140::int) \<and> (140::int) \<le> 255 \<and>
   color_to_ascii (Color 255 140 0) = ''R'' \<and>
   0 \<le> frame (VirtualStrip_init 80 4) \<and> frame (VirtualStrip_init 80 4) < 9999 \<and>
   length (format_04d (frame (VirtualStrip_init 80 4) + 1)) = 4"
proof -
  note t = software_sink_frame_line [of "VirtualStrip_init 80 4" 255 140 0 80 4]
  have f: "frame (VirtualStrip_init 80 4) = 0" by (simp add: VirtualStrip_init_def)
  from t have 1: "show_strip False (VirtualStrip_init 80 4) =
     Inr ((VirtualStrip_init 80 4)\<lparr>frame := 1\<rparr>, ''Frame 0001 | ....'' @ [newline])"
    by blast
  from t have "color_to_ascii (Color 255 140 0) = [spec_glyph 255 140 0]" by simp
  then have 2: "color_to_ascii (Color 255 140 0) = ''R''" by (simp add: spec_glyph_def)
  from t f have 3: "length (format_04d (frame (VirtualStrip_init 80 4) + 1)) = 4" by simp
  from 1 2 3 f show ?thesis by simp
qed


section \<open>Lemmas on floating point\<close>

lemma powi_mono2: "e \<le> e' \<Longrightarrow> (2::real) powi e \<le> 2 powi e'"
  by (rule power_int_increasing) auto

lemma powi_strict_mono2: "e < e' \<Longrightarrow> (2::real) powi e < 2 powi e'"
  by (rule power_int_strict_increasing) auto

lemma binary_exponent_bounds:
  assumes "x \<noteq> 0"
  shows "2 powi (binary_exponent x) \<le> \<bar>x\<bar> \<and> \<bar>x\<bar> < 2 powi (binary_exponent x + 1)"
proof (cases "1 \<le> \<bar>x\<bar>")
  case True
  define n where "n = \<lfloor>\<bar>x\<bar>\<rfloor>"
  have n: "0 < n" using True by (simp add: n_def)
  have e: "binary_exponent x = bitlen n - 1"
    using True by (simp add: binary_exponent_def n_def)
  have b1: "1 \<le> bitlen n" using n bitlen_eq_zero_iff[of n] bitlen_nonneg[of n] by linarith
  from bitlen_bounds[OF n] have lo: "2 ^ nat (bitlen n - 1) \<le> n" and hi: "n < 2 ^ nat (bitlen n)"
    by auto
  have "(2::real) powi (bitlen n - 1) = 2 ^ nat (bitlen n - 1)"
    using b1 by (simp add: power_int_def)
  also have "\<dots> \<le> of_int n" using lo by (metis of_int_le_iff of_int_numeral of_int_power)
  also have "\<dots> \<le> \<bar>x\<bar>" by (simp add: n_def)
  finally have A: "2 powi (binary_exponent x) \<le> \<bar>x\<bar>" by (simp add: e)
  have "n + 1 \<le> 2 ^ nat (bitlen n)" using hi by simp
  then have "real_of_int (n + 1) \<le> 2 ^ nat (bitlen n)"
    by (metis of_int_le_iff of_int_numeral of_int_power)
  moreover have "\<bar>x\<bar> < real_of_int (n + 1)" by (simp add: n_def)
  moreover have "(2::real) powi (bitlen n - 1 + 1) = 2 ^ nat (bitlen n)"
    using b1 by (simp add: power_int_def)
  ultimately have B: "\<bar>x\<bar> < 2 powi (binary_exponent x + 1)" by (simp add: e)
  from A B show ?thesis ..
next
  case False
  define a where "a = \<bar>x\<bar>"
  have a: "0 < a" "a < 1" using False assms by (simp_all add: a_def)
  define m where "m = \<lceil>1 / a\<rceil> - 1"
  have y1: "1 < 1 / a" using a by simp
  have m: "0 < m" using y1 by (simp add: m_def less_ceiling_iff)
  have mlo: "of_int m < 1 / a" unfolding m_def by linarith
  have mhi: "1 / a \<le> of_int m + 1" unfolding m_def by linarith
  define k where "k = bitlen m"
  have e: "binary_exponent x = - k"
    using False by (simp add: binary_exponent_def a_def m_def k_def)
  have k1: "1 \<le> k" using m bitlen_eq_zero_iff[of m] bitlen_nonneg[of m] by (simp add: k_def) 
  from bitlen_bounds[OF m] have lo: "2 ^ nat (k - 1) \<le> m" and hi: "m < 2 ^ nat k"
    by (auto simp: k_def)
  have "m + 1 \<le> 2 ^ nat k" using hi by simp
  then have "real_of_int (m + 1) \<le> 2 ^ nat k"
    by (metis of_int_le_iff of_int_numeral of_int_power)
  with mhi have "1 / a \<le> 2 ^ nat k" by simp
  then have "1 \<le> 2 ^ nat k * a" using a by (simp add: field_simps)
  then have "1 / 2 ^ nat k \<le> a" by (simp add: field_simps)
  moreover have "(2::real) powi (- k) = 1 / 2 ^ nat k"
    using k1 by (simp add: power_int_def field_simps)
  ultimately have A: "2 powi (binary_exponent x) \<le> \<bar>x\<bar>" by (simp add: e a_def)
  have "(2::real) ^ nat (k - 1) \<le> of_int m" using lo
    by (metis of_int_le_iff of_int_numeral of_int_power)
  with mlo have "(2::real) ^ nat (k - 1) < 1 / a" by linarith
  then have "a * 2 ^ nat (k - 1) < 1" using a by (simp add: field_simps)
  then have "a < 1 / 2 ^ nat (k - 1)" by (simp add: field_simps)
  moreover have "(2::real) powi (- k + 1) = 1 / 2 ^ nat (k - 1)"
  proof (cases "k = 1")
    case True then show ?thesis by simp
  next
    case False
    with k1 have "- k + 1 < 0" by simp
    then show ?thesis using k1 by (simp add: power_int_def field_simps nat_diff_distrib)
  qed
  ultimately have B: "\<bar>x\<bar> < 2 powi (binary_exponent x + 1)" by (simp add: e a_def)
  from A B show ?thesis ..
qed

lemma binary_exponent_eqI:
  assumes "2 powi e \<le> \<bar>x\<bar>" "\<bar>x\<bar> < 2 powi (e + 1)"
  shows "binary_exponent x = e"
proof -
  have "(0::real) < 2 powi e" by simp
  with assms have "0 < \<bar>x\<bar>" by linarith
  then have x: "x \<noteq> 0" by auto
  note b = binary_exponent_bounds[OF x]
  have "\<not> binary_exponent x < e"
  proof
    assume "binary_exponent x < e"
    then have "binary_exponent x + 1 \<le> e" by simp
    from powi_mono2[OF this] b assms show False by linarith
  qed
  moreover have "\<not> e < binary_exponent x"
  proof
    assume "e < binary_exponent x"
    then have "e + 1 \<le> binary_exponent x" by simp
    from powi_mono2[OF this] b assms show False by linarith
  qed
  ultimately show ?thesis by linarith
qed

lemma round_half_even_of_int [simp]: "round_half_even (of_int k) = k"
  by (simp add: round_half_even_def)

lemma round_double_0 [simp]: "round_double 0 = 0"
  by (simp add: round_double_def)

lemma round_double_int_small:
  assumes "\<bar>m\<bar> < 2 ^ 53"
  shows "round_double (of_int m) = of_int m"
proof (cases "m = 0")
  case True then show ?thesis by simp
next
  case False
  define e where "e = binary_exponent (of_int m)"
  have x: "real_of_int m \<noteq> 0" using False by simp
  from binary_exponent_bounds[OF x] have lo: "2 powi e \<le> \<bar>real_of_int m\<bar>" by (simp add: e_def)
  have "\<bar>real_of_int m\<bar> < 2 ^ 53" using assms
    by (metis of_int_abs of_int_less_iff of_int_numeral of_int_power)
  with lo have lt: "(2::real) powi e < 2 powi 53" by simp
  have e52: "e \<le> 52"
  proof (rule ccontr)
    assume "\<not> e \<le> 52"
    then have "53 \<le> e" by simp
    from powi_mono2[OF this] lt show False by simp
  qed
  have e0: "0 \<le> e"
  proof (rule ccontr)
    assume "\<not> 0 \<le> e"
    then have "e + 1 \<le> 0" by simp
    from powi_mono2[OF this] binary_exponent_bounds[OF x] have "\<bar>real_of_int m\<bar> < 1"
      by (simp add: e_def)
    then have "\<bar>m\<bar> < 1" by (metis of_int_abs of_int_less_1_iff)
    with False show False by simp
  qed
  define k where "k = nat (52 - e)"
  have ulp: "(2::real) powi (e - 52) = 1 / 2 ^ k"
    using e52 by (simp add: power_int_def k_def field_simps)
  have q: "real_of_int m / (1 / 2 ^ k) = of_int (m * 2 ^ k)" by simp
  have "round_double (of_int m) = of_int (round_half_even (real_of_int m / (1 / 2 ^ k))) * (1 / 2 ^ k)"
    using x e0 by (simp add: round_double_def Let_def flip: e_def ulp)
  also have "\<dots> = of_int (m * 2 ^ k) * (1 / 2 ^ k)"
    unfolding q round_half_even_of_int ..
  also have "\<dots> = of_int m" by simp
  finally show ?thesis .
qed

lemma round_double_1 [simp]: "round_double 1 = 1"
  using round_double_int_small[of 1] by simp

lemma round_double_eval:
  assumes "2 powi e \<le> \<bar>x\<bar>" "\<bar>x\<bar> < 2 powi (e + 1)" "- 1022 \<le> e"
  shows "round_double x = of_int (round_half_even (x / 2 powi (e - 52))) * 2 powi (e - 52)"
proof -
  have "(0::real) < 2 powi e" by simp
  with assms have "0 < \<bar>x\<bar>" by linarith
  then have x: "x \<noteq> 0" by auto
  show ?thesis
    using x assms(3) by (simp add: round_double_def binary_exponent_eqI[OF assms(1,2)] Let_def)
qed

lemma round_half_even_near: "\<bar>of_int (round_half_even y) - y\<bar> \<le> 1"
  unfolding round_half_even_def Let_def by (auto split: if_splits)

lemma round_double_near:
  assumes "x \<noteq> 0"
  shows "\<bar>round_double x - x\<bar> \<le> 2 powi (max (binary_exponent x) (- 1022) - 52)"
proof -
  define u :: real where "u = 2 powi (max (binary_exponent x) (- 1022) - 52)"
  have u: "0 < u" by (simp add: u_def)
  have rd: "round_double x = of_int (round_half_even (x / u)) * u"
    using assms by (simp add: round_double_def Let_def u_def)
  have eq: "\<bar>of_int (round_half_even (x / u)) * u - x\<bar>
      = \<bar>of_int (round_half_even (x / u)) - x / u\<bar> * u"
  proof -
    have "of_int (round_half_even (x / u)) * u - x
        = (of_int (round_half_even (x / u)) - x / u) * u"
      using u by (simp add: field_simps)
    then show ?thesis using u by (simp add: abs_mult)
  qed
  have "\<bar>of_int (round_half_even (x / u)) - x / u\<bar> * u \<le> 1 * u"
    using round_half_even_near [of "x / u"] u by (intro mult_right_mono) simp_all
  then have "\<bar>of_int (round_half_even (x / u)) * u - x\<bar> \<le> u"
    unfolding eq by simp
  then show ?thesis unfolding rd u_def .
qed

lemma round_double_bound: "\<bar>round_double x\<bar> \<le> 2 * \<bar>x\<bar> + 1"
proof (cases "x = 0")
  case True
  then show ?thesis by simp
next
  case False
  define e where "e = max (binary_exponent x) (- 1022)"
  have near: "\<bar>round_double x - x\<bar> \<le> 2 powi (e - 52)"
    using round_double_near [OF False] by (simp add: e_def)
  have "(2::real) powi (e - 52) \<le> \<bar>x\<bar> + 1"
  proof (cases "- 1022 \<le> binary_exponent x")
    case True
    then have "e = binary_exponent x" by (simp add: e_def)
    then have "(2::real) powi (e - 52) \<le> 2 powi (binary_exponent x)"
      by (intro powi_mono2) simp
    also have "\<dots> \<le> \<bar>x\<bar>" using binary_exponent_bounds [OF False] by simp
    finally show ?thesis by simp
  next
    case False
    then have "e = - 1022" by (simp add: e_def)
    then have "(2::real) powi (e - 52) \<le> 2 powi 0" by (intro powi_mono2) simp
    then show ?thesis by simp
  qed
  with near show ?thesis by linarith
qed

lemma no_overflow_small:
  assumes "\<bar>x\<bar> \<le> 2 ^ 1000"
  shows "\<not> double_overflows (round_double x)"
proof -
  have "\<bar>round_double x\<bar> \<le> 2 * \<bar>x\<bar> + 1" by (rule round_double_bound)
  also have "\<dots> \<le> 2 * 2 ^ 1000 + 1" using assms by simp
  also have "\<dots> < (2::real) ^ 1024" by simp
  finally show ?thesis by (simp add: double_overflows_def)
qed

text \<open>Rounding is monotone at the integers: a number between 0 and an integer below
  \<open>2\<^sup>5\<^sup>3\<close> rounds to a number in the same range.\<close>

lemma round_half_even_le: "y \<le> of_int n \<Longrightarrow> round_half_even y \<le> n"
proof -
  assume a: "y \<le> of_int n"
  then have f: "\<lfloor>y\<rfloor> \<le> n" by (simp add: floor_le_iff)
  show ?thesis
  proof (cases "\<lfloor>y\<rfloor> = n")
    case True
    then have "of_int n \<le> y" by (metis of_int_floor_le)
    with a have "y = of_int n" by simp
    then show ?thesis by simp
  next
    case False
    with f have "\<lfloor>y\<rfloor> + 1 \<le> n" by simp
    then show ?thesis by (simp add: round_half_even_def Let_def)
  qed
qed

lemma round_half_even_ge: "of_int n \<le> y \<Longrightarrow> n \<le> round_half_even y"
proof -
  assume "of_int n \<le> y"
  then have "n \<le> \<lfloor>y\<rfloor>" by (simp add: le_floor_iff)
  then show ?thesis by (simp add: round_half_even_def Let_def)
qed

lemma round_double_nonneg: "0 \<le> x \<Longrightarrow> 0 \<le> round_double x"
proof -
  assume x: "0 \<le> x"
  have "0 \<le> round_half_even (x / 2 powi e)" for e
    using x by (intro round_half_even_ge) simp
  then show ?thesis by (simp add: round_double_def Let_def)
qed

lemma round_double_le_int:
  assumes "0 \<le> x" "x \<le> of_int k" "k < 2 ^ 53"
  shows "round_double x \<le> of_int k"
proof (cases "x = 0")
  case True
  with assms show ?thesis by simp
next
  case False
  define e where "e = max (binary_exponent x) (- 1022)"
  define n where "n = nat (52 - e)"
  have "2 powi (binary_exponent x) \<le> \<bar>x\<bar>" using binary_exponent_bounds [OF False] by simp
  also have "\<dots> \<le> of_int k" using assms by simp
  also have "\<dots> < (2::real) ^ 53" using assms(3)
    by (metis of_int_less_iff of_int_numeral of_int_power)
  also have "\<dots> = 2 powi 53" by simp
  finally have "binary_exponent x < 53"
    by (smt (verit) powi_mono2)
  then have e: "e \<le> 52" by (simp add: e_def)
  have ulp: "(2::real) powi (e - 52) = 1 / 2 ^ n"
  proof -
    have "e - 52 = - int n" using e by (simp add: n_def)
    then have "(2::real) powi (e - 52) = 2 powi (- int n)" by simp
    also have "\<dots> = 1 / 2 ^ n" by (simp add: power_int_minus divide_inverse)
    finally show ?thesis .
  qed
  have "x / (2 powi (e - 52)) \<le> of_int k / (2 powi (e - 52))"
    using assms(2) by (simp add: divide_right_mono)
  also have "\<dots> = of_int (k * 2 ^ n)" by (simp add: ulp)
  finally have "round_half_even (x / (2 powi (e - 52))) \<le> k * 2 ^ n"
    by (rule round_half_even_le)
  then have "real_of_int (round_half_even (x / (2 powi (e - 52)))) \<le> of_int (k * 2 ^ n)"
    by (simp only: of_int_le_iff)
  then have "real_of_int (round_half_even (x / (2 powi (e - 52)))) * (2 powi (e - 52))
      \<le> real_of_int k"
    by (simp add: ulp field_simps)
  then show ?thesis using False by (simp add: round_double_def Let_def e_def)
qed

lemma rd_029: "round_double (29 / 100) = 5224175567749775 / 2 ^ 54"
  by (subst round_double_eval[where e = "- 2"])
     (simp_all add: power_int_minus round_half_even_def)

lemma rd_029_100: "round_double (5224175567749775 / 2 ^ 54 * 100) = 8162774324609023 / 2 ^ 48"
  by (subst round_double_eval[where e = 4])
     (simp_all add: power_int_minus round_half_even_def)

section \<open>Analog input response\<close>

lemma clamp_brightness_range: "0 \<le> clamp_brightness v \<and> clamp_brightness v \<le> 255"
  by (simp add: clamp_brightness_def)

lemma clamp_brightness_id: "0 \<le> v \<Longrightarrow> v \<le> 255 \<Longrightarrow> clamp_brightness v = v"
  by (simp add: clamp_brightness_def)

lemma set_strip_brightness_ok:
  assumes "strip w = Some s"
  shows "set_strip_brightness (clamp_brightness v) w =
           Inr (w\<lparr>strip := Some (s\<lparr>VirtualStrip.brightness := clamp_brightness v\<rparr>)\<rparr>)"
  using assms clamp_brightness_range [of v]
  by (simp add: set_strip_brightness_def get_strip_def setBrightness_def clamp_brightness_id)

lemma float_of_int_small:
  assumes "\<bar>m\<bar> < 2 ^ 53"
  shows "float_of_int m = Inr (Finite (of_int m))"
proof -
  have "\<bar>real_of_int m\<bar> < 2 ^ 53" using assms
    by (metis of_int_abs of_int_less_iff of_int_numeral of_int_power)
  then have "\<bar>real_of_int m\<bar> < 2 ^ 1024" by (rule less_trans) simp
  then show ?thesis
    by (simp add: float_of_int_def round_double_int_small [OF assms] double_overflows_def)
qed

lemma int_truediv_small:
  assumes "b \<noteq> 0" "\<bar>real_of_int a / real_of_int b\<bar> \<le> 2 ^ 1000"
  shows "int_truediv a b = Inr (Finite (round_double (of_int a / of_int b)))"
  using assms no_overflow_small [OF assms(2)] by (simp add: int_truediv_def)

lemma to_double_small:
  assumes "\<bar>x\<bar> \<le> 2 ^ 1000"
  shows "to_double x = Finite (round_double x)"
  using no_overflow_small [OF assms] by (simp add: to_double_def)

lemma scale_ok:
  assumes "1 \<le> a" "0 \<le> b" "b \<le> a" "\<bar>m\<bar> \<le> 255"
  shows "bind_err (int_truediv b a) (\<lambda>ratio.
           bind_err (float_of_int m) (\<lambda>ceiling_value.
             bind_err (int_of_float (float_mul ratio ceiling_value)) k))
         = k (truncate_real (round_double (round_double (of_int b / of_int a) * of_int m)))"
proof -
  have q: "\<bar>real_of_int b / real_of_int a\<bar> \<le> 1" using assms by simp
  then have q': "\<bar>real_of_int b / real_of_int a\<bar> \<le> 2 ^ 1000"
    by (rule order_trans) simp
  have d: "int_truediv b a = Inr (Finite (round_double (of_int b / of_int a)))"
    using assms by (intro int_truediv_small q') simp
  have m: "float_of_int m = Inr (Finite (of_int m))"
    using assms by (intro float_of_int_small) simp
  have "\<bar>round_double (of_int b / of_int a)\<bar> \<le> 2 * \<bar>real_of_int b / real_of_int a\<bar> + 1"
    by (rule round_double_bound)
  with q have rq: "\<bar>round_double (of_int b / of_int a)\<bar> \<le> 3" by simp
  have rm: "\<bar>real_of_int m\<bar> \<le> 255" using assms
    by (metis of_int_abs of_int_le_iff of_int_numeral)
  have "\<bar>round_double (of_int b / of_int a) * of_int m\<bar> \<le> 3 * 255"
    unfolding abs_mult using rq rm by (intro mult_mono) simp_all
  then have "\<bar>round_double (of_int b / of_int a) * of_int m\<bar> \<le> 2 ^ 1000"
    by (rule order_trans) simp
  from to_double_small [OF this] show ?thesis by (simp add: d m)
qed

lemma truncate_real_of_int [simp]: "truncate_real (of_int k) = k"
  by (simp add: truncate_real_def)

lemma scaled_below_ceiling:
  assumes "1 \<le> a" "0 \<le> b" "b \<le> a" "0 \<le> m" "m \<le> 255"
  shows "clamp_brightness (truncate_real (round_double
           (round_double (of_int b / of_int a) * of_int m))) \<le> m"
proof -
  define q where "q = round_double (of_int b / of_int a)"
  have "0 \<le> real_of_int b / of_int a" "real_of_int b / of_int a \<le> of_int 1"
    using assms by simp_all
  then have q: "0 \<le> q" "q \<le> 1"
    using round_double_nonneg [of "of_int b / of_int a"]
      round_double_le_int [of "of_int b / of_int a" 1] by (simp_all add: q_def)
  have m: "0 \<le> real_of_int m" using assms by simp
  have p: "0 \<le> q * of_int m" "q * of_int m \<le> of_int m"
    using q m by (simp_all add: mult_left_le_one_le)
  have "m < 2 ^ 53" using assms(5) by simp
  from round_double_le_int [OF p this] have "round_double (q * of_int m) \<le> of_int m" .
  moreover have "0 \<le> round_double (q * of_int m)" using p(1) by (rule round_double_nonneg)
  ultimately have "truncate_real (round_double (q * of_int m)) \<le> m"
    by (simp add: truncate_real_def floor_le_iff)
  then show ?thesis using assms(4) by (simp add: clamp_brightness_def flip: q_def)
qed

lemma analog_response_value:
  assumes "input_mode st \<noteq> ''off''" "input_mode st \<noteq> ''digital''" "strip w = Some s"
    "1 \<le> analog_max st" "0 \<le> max_brightness st" "max_brightness st \<le> 255"
  shows "apply_pi_input_response d (Some v) st w =
     Inr (st\<lparr>brightness := clamp_brightness (truncate_real (round_double
                (round_double (of_int (max 0 (min (analog_max st) v)) / of_int (analog_max st))
                 * of_int (max_brightness st))))\<rparr>,
          w\<lparr>strip := Some (s\<lparr>VirtualStrip.brightness :=
              clamp_brightness (truncate_real (round_double
                (round_double (of_int (max 0 (min (analog_max st) v)) / of_int (analog_max st))
                 * of_int (max_brightness st))))\<rparr>)\<rparr>)"
proof -
  define bounded where "bounded = max 0 (min (analog_max st) v)"
  define t where "t = truncate_real (round_double
                (round_double (of_int bounded / of_int (analog_max st))
                 * of_int (max_brightness st)))"
  have bnd: "0 \<le> bounded" "bounded \<le> analog_max st" using assms(4) by (simp_all add: bounded_def)
  have am: "max 1 (analog_max st) = analog_max st" using assms(4) by simp
  have mb: "\<bar>max_brightness st\<bar> \<le> 255" using assms(5,6) by simp
  let ?k = "\<lambda>scaled. let state1 = st\<lparr>brightness := clamp_brightness scaled\<rparr>
                in bind_err (set_strip_brightness (brightness state1) w)
                     (\<lambda>w1. Inr (state1, w1))"
  have "apply_pi_input_response d (Some v) st w = ?k t"
    using assms(1,2) scale_ok [OF assms(4) bnd mb, of ?k]
    by (simp add: apply_pi_input_response_def am Let_def flip: bounded_def t_def)
  also have "\<dots> = Inr (st\<lparr>brightness := clamp_brightness t\<rparr>,
                 w\<lparr>strip := Some (s\<lparr>VirtualStrip.brightness := clamp_brightness t\<rparr>)\<rparr>)"
    by (simp add: Let_def set_strip_brightness_ok [OF assms(3)])
  finally show ?thesis unfolding t_def bounded_def .
qed

text \<open>
  Claim C7, as amended.  In analog input mode, with an initialised strip, \<^verbatim>\<open>analog_max\<close> at
  least 1 and \<^verbatim>\<open>max_brightness\<close> in \<open>[0, 255]\<close>, a sample \<open>v\<close> makes
  \<^verbatim>\<open>apply_pi_input_response\<close> return and set the brightness of the state and of the sink to
  the same value: the integer part of the binary64 product of \<^verbatim>\<open>max_brightness\<close> and the
  binary64 quotient of the sample clamped to \<open>[0, analog_max]\<close> by \<^verbatim>\<open>analog_max\<close>, clamped to
  \<open>[0, 255]\<close>.  A sample of 0 or less gives 0; a sample of \<^verbatim>\<open>analog_max\<close> or more gives
  exactly \<^verbatim>\<open>max_brightness\<close>.  When the read yields no sample, in analog or in digital
  mode, the state and the sink are returned unchanged.
\<close>

theorem analog_input_scaling:
  assumes "input_mode st = ''analog''" "strip w = Some s" "1 \<le> analog_max st"
    "0 \<le> max_brightness st" "max_brightness st \<le> 255"
  shows
    "(\<exists>b. apply_pi_input_response d (Some v) st w =
            Inr (st\<lparr>brightness := b\<rparr>,
                 w\<lparr>strip := Some (s\<lparr>VirtualStrip.brightness := b\<rparr>)\<rparr>)
        \<and> b = clamp_brightness (truncate_real (round_double
                (round_double (of_int (max 0 (min (analog_max st) v)) / of_int (analog_max st))
                 * of_int (max_brightness st))))
        \<and> (v \<le> 0 \<longrightarrow> b = 0)
        \<and> (analog_max st \<le> v \<longrightarrow> b = max_brightness st)) \<and>
     apply_pi_input_response d None st w = Inr (st, w) \<and>
     apply_pi_input_response None a (st\<lparr>input_mode := ''digital''\<rparr>) w
       = Inr (st\<lparr>input_mode := ''digital''\<rparr>, w)"
proof -
  define bounded where "bounded = max 0 (min (analog_max st) v)"
  define b where "b = clamp_brightness (truncate_real (round_double
                (round_double (of_int bounded / of_int (analog_max st))
                 * of_int (max_brightness st))))"
  have run: "apply_pi_input_response d (Some v) st w =
            Inr (st\<lparr>brightness := b\<rparr>,
                 w\<lparr>strip := Some (s\<lparr>VirtualStrip.brightness := b\<rparr>)\<rparr>)"
    unfolding b_def bounded_def using assms by (intro analog_response_value) simp_all
  have lo: "v \<le> 0 \<longrightarrow> b = 0"
  proof
    assume "v \<le> 0"
    then have "bounded = 0" using assms(3) by (simp add: bounded_def)
    then show "b = 0" by (simp add: b_def clamp_brightness_def truncate_real_def)
  qed
  have hi: "analog_max st \<le> v \<longrightarrow> b = max_brightness st"
  proof
    assume "analog_max st \<le> v"
    then have "bounded = analog_max st" using assms(3) by (simp add: bounded_def)
    moreover have "real_of_int (analog_max st) / real_of_int (analog_max st) = 1"
      using assms(3) by simp
    moreover have "round_double (real_of_int (max_brightness st)) = of_int (max_brightness st)"
      using assms(4,5) by (intro round_double_int_small) simp
    ultimately show "b = max_brightness st"
      using assms(4,5) by (simp add: b_def clamp_brightness_id)
  qed
  have none: "apply_pi_input_response d None st w = Inr (st, w)"
    using assms(1) by (simp add: apply_pi_input_response_def)
  have dig: "apply_pi_input_response None a (st\<lparr>input_mode := ''digital''\<rparr>) w
       = Inr (st\<lparr>input_mode := ''digital''\<rparr>, w)"
    by (simp add: apply_pi_input_response_def)
  from run lo hi none dig show ?thesis unfolding b_def bounded_def by blast
qed

theorem analog_input_scaling_witness:
  "input_mode analog_example = ''analog'' \<and> strip (test_world 5) = Some (VirtualStrip_init 80 5) \<and>
   1 \<le> analog_max analog_example \<and> 0 \<le> max_brightness analog_example \<and>
   max_brightness analog_example \<le> 255 \<and>
   apply_pi_input_response None (Some 100) analog_example (test_world 5) =
     Inr (analog_example\<lparr>brightness := 100\<rparr>,
          (test_world 5)\<lparr>strip := Some ((VirtualStrip_init 80 5)\<lparr>VirtualStrip.brightness := 100\<rparr>)\<rparr>) \<and>
   apply_pi_input_response None None analog_example (test_world 5) = Inr (analog_example, test_world 5)"
proof -
  have h: "input_mode analog_example = ''analog''" "strip (test_world 5) = Some (VirtualStrip_init 80 5)"
    "1 \<le> analog_max analog_example" "0 \<le> max_brightness analog_example"
    "max_brightness analog_example \<le> 255"
    by (simp_all add: analog_example_def test_world_def init_virtual_strip_def)
  from analog_input_scaling [OF h, where d = None and v = 100 and a = None] h show ?thesis
    by (auto simp: analog_example_def)
qed

text \<open>
  Claim C7 as stated fails: the scaling is done in binary64, not in exact arithmetic.
  With \<^verbatim>\<open>analog_max = 100\<close>, \<^verbatim>\<open>max_brightness = 100\<close> and the sample 29, \<^verbatim>\<open>29 / 100\<close> is the
  binary64 number just below 0.29 and its product with 100 rounds to the number just below
  29, so the brightness is 28, while \<open>\<lfloor>(29 / 100) * 100\<rfloor> = 29\<close>.
\<close>

theorem analog_scaling_floor_counterexample:
  "map_sum id (\<lambda>(st, w). brightness st)
     (apply_pi_input_response None (Some 29) analog_example (test_world 5)) = Inr 28 \<and>
   \<lfloor>real_of_int (max 0 (min 100 29)) / real_of_int 100 * real_of_int 100\<rfloor> = 29"
proof -
  have h: "input_mode analog_example = ''analog''" "strip (test_world 5) = Some (VirtualStrip_init 80 5)"
    "1 \<le> analog_max analog_example" "0 \<le> max_brightness analog_example"
    "max_brightness analog_example \<le> 255"
    by (simp_all add: analog_example_def test_world_def init_virtual_strip_def)
  have s: "analog_max analog_example = 100" "max_brightness analog_example = 100"
    by (simp_all add: analog_example_def)
  have e: "round_double (round_double (29 / 100) * 100) = 8162774324609023 / 2 ^ 48"
    unfolding rd_029 by (rule rd_029_100)
  have "clamp_brightness (truncate_real (round_double (round_double (29 / 100) * 100))) = 28"
    unfolding e by (simp add: truncate_real_def clamp_brightness_def)
  moreover have "apply_pi_input_response None (Some 29) analog_example (test_world 5) =
     Inr (analog_example\<lparr>brightness := clamp_brightness (truncate_real (round_double
                (round_double (of_int (max 0 (min (analog_max analog_example) 29))
                                 / of_int (analog_max analog_example))
                 * of_int (max_brightness analog_example))))\<rparr>,
          (test_world 5)\<lparr>strip := Some ((VirtualStrip_init 80 5)\<lparr>VirtualStrip.brightness :=
              clamp_brightness (truncate_real (round_double
                (round_double (of_int (max 0 (min (analog_max analog_example) 29))
                                 / of_int (analog_max analog_example))
                 * of_int (max_brightness analog_example))))\<rparr>)\<rparr>)"
    using h by (intro analog_response_value) simp_all
  ultimately show ?thesis by (simp add: s)
qed


section \<open>The command interpreter\<close>

lemma list_index_ok:
  "x \<in> set ys \<Longrightarrow> \<exists>i. list_index ys x = Inr i \<and> 0 \<le> i \<and> i < int (length ys)"
proof (induction ys)
  case Nil
  then show ?case by simp
next
  case (Cons y ys)
  show ?case
  proof (cases "y = x")
    case True
    then show ?thesis by simp
  next
    case False
    with Cons.prems have "x \<in> set ys" by simp
    from Cons.IH [OF this] obtain i where "list_index ys x = Inr i" "0 \<le> i" "i < int (length ys)"
      by blast
    with False show ?thesis by simp
  qed
qed

lemma py_index_member: "py_index xs i = Inr x \<Longrightarrow> x \<in> set xs"
  by (auto simp: py_index_def split: if_splits)

lemma cycle_choice_member:
  "cycle_choice current choices = Inr k \<Longrightarrow> k \<in> set (py_keys choices)"
  by (auto simp: cycle_choice_def bind_err_def Let_def split: sum.splits if_splits
      dest: py_index_member)

lemma cycle_choice_ok:
  assumes "current \<in> set (py_keys choices)"
  shows "\<exists>k. cycle_choice current choices = Inr k \<and> k \<in> set (py_keys choices)"
proof -
  from list_index_ok [OF assms] obtain i where
    i: "list_index (py_keys choices) current = Inr i" "0 \<le> i" "i < int (length (py_keys choices))"
    by blast
  then have len: "0 < int (length (py_keys choices))" by linarith
  let ?j = "(i + 1) mod int (length (py_keys choices))"
  have j: "0 \<le> ?j" "?j < int (length (py_keys choices))" using len by simp_all
  then have "py_index (py_keys choices) ?j = Inr (py_keys choices ! nat ?j)"
    by (rule py_index_in_range)
  moreover have "py_keys choices ! nat ?j \<in> set (py_keys choices)"
    using j by (intro nth_mem) linarith
  ultimately show ?thesis using i len by (simp add: cycle_choice_def Let_def)
qed

lemma available_patterns_simps:
  "available_patterns True = Inr [(''4'', ''Emergency SOS'')]"
  "available_patterns False = Inr [(''1'', ''Chase''), (''2'', ''Random''), (''3'', ''Bounce'')]"
  by (simp_all add: available_patterns_def PATTERN_NAMES_def py_getitem_def)

lemma handle_key_mode:
  assumes "handle_key st w key = Inr (st', w', c)" "(pattern st = ''4'') = emergency_only st"
  shows "emergency_only st' = emergency_only st \<and> (pattern st' = ''4'') = emergency_only st'"
proof (cases "emergency_only st")
  case True
  with assms show ?thesis
    by (auto simp: handle_key_def available_patterns_simps py_contains_def py_keys_def Let_def
        bind_err_def split: sum.splits if_splits dest!: cycle_choice_member)
next
  case False
  with assms show ?thesis
    by (auto simp: handle_key_def available_patterns_simps py_contains_def py_keys_def Let_def
        bind_err_def split: sum.splits if_splits dest!: cycle_choice_member)
qed

lemma py_getitem_ok:
  "py_contains d k \<Longrightarrow> \<exists>v. py_getitem d k = Inr v"
  by (auto simp: py_contains_def py_getitem_def map_of_eq_None_iff split: option.splits)

lemma percent_ok:
  assumes "0 \<le> b" "b \<le> 255"
  shows "bind_err (int_truediv (max 0 b) (max 1 m)) (\<lambda>ratio.
           bind_err (float_of_int 100) (\<lambda>hundred.
             bind_err (int_of_float (float_mul ratio hundred)) (\<lambda>pct. Inr ()))) = Inr ()"
proof -
  have m1: "1 \<le> real_of_int (max 1 m)" by simp
  have b0: "0 \<le> real_of_int (max 0 b)" "real_of_int (max 0 b) \<le> 255" using assms by simp_all
  have "real_of_int (max 0 b) / real_of_int (max 1 m) \<le> real_of_int (max 0 b) / 1"
    using m1 b0 by (intro divide_left_mono) simp_all
  then have q: "\<bar>real_of_int (max 0 b) / real_of_int (max 1 m)\<bar> \<le> 255"
    using b0 m1 by simp
  then have q': "\<bar>real_of_int (max 0 b) / real_of_int (max 1 m)\<bar> \<le> 2 ^ 1000"
    by (rule order_trans) simp
  have d: "int_truediv (max 0 b) (max 1 m)
      = Inr (Finite (round_double (of_int (max 0 b) / of_int (max 1 m))))"
    by (intro int_truediv_small q') simp
  have h: "float_of_int 100 = Inr (Finite 100)"
    using float_of_int_small [of 100] by simp
  have "\<bar>round_double (of_int (max 0 b) / of_int (max 1 m))\<bar>
      \<le> 2 * \<bar>real_of_int (max 0 b) / real_of_int (max 1 m)\<bar> + 1"
    by (rule round_double_bound)
  with q have rq: "\<bar>round_double (of_int (max 0 b) / of_int (max 1 m))\<bar> \<le> 511" by simp
  have "\<bar>round_double (of_int (max 0 b) / of_int (max 1 m)) * 100\<bar> \<le> 511 * 100"
    unfolding abs_mult using rq by (intro mult_mono) simp_all
  then have "\<bar>round_double (of_int (max 0 b) / of_int (max 1 m)) * 100\<bar> \<le> 2 ^ 1000"
    by (rule order_trans) simp
  from to_double_small [OF this] show ?thesis by (simp add: d h)
qed

lemma print_status_ok:
  assumes "state_valid st"
  shows "print_status st = Inr ()"
proof -
  from assms have c: "py_contains PATTERN_NAMES (pattern st)" "py_contains SPEED_LABELS (speed st)"
    "py_contains CHASE_COLORS (chase_color st)" "py_contains RANDOM_PALETTES (random_palette st)"
    "py_contains BOUNCE_COLORS (bounce_color st)"
    and e: "0 \<le> emergency_color_index st" "emergency_color_index st < 3"
    and b: "0 \<le> brightness st" "brightness st \<le> 255"
    by (simp_all add: state_valid_def)
  from py_getitem_ok [OF c(1)] obtain v1 where 1: "py_getitem PATTERN_NAMES (pattern st) = Inr v1" ..
  from py_getitem_ok [OF c(2)] obtain v2 where 2: "py_getitem SPEED_LABELS (speed st) = Inr v2" ..
  from py_getitem_ok [OF c(3)] obtain v3 where 3: "py_getitem CHASE_COLORS (chase_color st) = Inr v3" ..
  from py_getitem_ok [OF c(4)] obtain v4 where 4: "py_getitem RANDOM_PALETTES (random_palette st) = Inr v4" ..
  from py_getitem_ok [OF c(5)] obtain v5 where 5: "py_getitem BOUNCE_COLORS (bounce_color st) = Inr v5" ..
  have 6: "py_index EMERGENCY_COLORS (emergency_color_index st)
      = Inr (EMERGENCY_COLORS ! nat (emergency_color_index st))"
    using e by (intro py_index_in_range) simp_all
  show ?thesis
    unfolding print_status_def
    by (simp add: 1 2 3 4 5 6 percent_ok [OF b] split: prod.splits)
qed

lemma contains_keys: "py_contains d k \<longleftrightarrow> k \<in> set (py_keys d)"
  by (simp add: py_contains_def py_keys_def)

lemma handle_key_ok:
  assumes "state_valid st" "(pattern st = ''4'') = emergency_only st" "strip w = Some s"
  shows "\<exists>st' s' c. handle_key st w key = Inr (st', w\<lparr>strip := Some s'\<rparr>, c) \<and> state_valid st'"
proof -
  have same: "w\<lparr>strip := Some s\<rparr> = w" using assms(3) by simp
  have pat_in: "pattern st \<in> set (py_keys PATTERN_NAMES)"
    using assms(1) by (simp add: state_valid_def contains_keys)
  have upd_pattern: "k \<in> {''1'', ''2'', ''3'', ''4''} \<Longrightarrow> state_valid (st\<lparr>pattern := k\<rparr>)" for k
    using assms(1) by (auto simp: state_valid_def py_contains_def PATTERN_NAMES_def)
  obtain allowed where al: "available_patterns (emergency_only st) = Inr allowed"
    and al_keys: "set (py_keys allowed) \<subseteq> {''1'', ''2'', ''3'', ''4''}"
    and al_pat: "pattern st \<in> set (py_keys allowed)"
    using assms(2) pat_in
    by (cases "emergency_only st")
       (auto simp: available_patterns_simps py_keys_def PATTERN_NAMES_def)
  consider (sel) "py_contains allowed key"
    | (p) "\<not> py_contains allowed key" "key = ''p''"
    | (s) "\<not> py_contains allowed key" "key = ''s''"
    | (c) "\<not> py_contains allowed key" "key = ''c''"
    | (plus) "\<not> py_contains allowed key" "key = ''+''"
    | (minus) "\<not> py_contains allowed key" "key = ''-''"
    | (other) "\<not> py_contains allowed key" "key \<notin> {''p'', ''s'', ''c'', ''+'', ''-''}"
    by auto
  then show ?thesis
  proof cases
    case sel
    then have "key \<in> {''1'', ''2'', ''3'', ''4''}" using al_keys by (auto simp: contains_keys)
    from upd_pattern [OF this] have v: "state_valid (st\<lparr>pattern := key\<rparr>)" .
    have "handle_key st w key = Inr (st\<lparr>pattern := key\<rparr>, w, True)"
      using sel by (simp add: handle_key_def al Let_def print_status_ok [OF v])
    with v same show ?thesis by metis
  next
    case p
    from cycle_choice_ok [OF al_pat] obtain k where
      k: "cycle_choice (pattern st) allowed = Inr k" "k \<in> set (py_keys allowed)" by blast
    then have "k \<in> {''1'', ''2'', ''3'', ''4''}" using al_keys by auto
    from upd_pattern [OF this] have v: "state_valid (st\<lparr>pattern := k\<rparr>)" .
    have "handle_key st w key = Inr (st\<lparr>pattern := k\<rparr>, w, True)"
      using p by (simp add: handle_key_def al Let_def k print_status_ok [OF v])
    with v same show ?thesis by metis
  next
    case s
    have "speed st \<in> set (py_keys SPEED_LABELS)"
      using assms(1) by (simp add: state_valid_def contains_keys)
    from cycle_choice_ok [OF this] obtain k where
      k: "cycle_choice (speed st) SPEED_LABELS = Inr k" "k \<in> set (py_keys SPEED_LABELS)" by blast
    have v: "state_valid (st\<lparr>speed := k\<rparr>)"
      using assms(1) k(2) by (simp add: state_valid_def contains_keys)
    have "handle_key st w key = Inr (st\<lparr>speed := k\<rparr>, w, True)"
      using s by (simp add: handle_key_def al Let_def k print_status_ok [OF v])
    with v same show ?thesis by metis
  next
    case c
    have "\<exists>st1. (if pattern st = ''1''
          then bind_err (cycle_choice (chase_color st) CHASE_COLORS)
                 (\<lambda>c. Inr (st\<lparr>chase_color := c\<rparr>))
          else if pattern st = ''2''
          then bind_err (cycle_choice (random_palette st) RANDOM_PALETTES)
                 (\<lambda>c. Inr (st\<lparr>random_palette := c\<rparr>))
          else if pattern st = ''3''
          then bind_err (cycle_choice (bounce_color st) BOUNCE_COLORS)
                 (\<lambda>c. Inr (st\<lparr>bounce_color := c\<rparr>))
          else Inr st) = Inr st1 \<and> state_valid st1"
    proof -
      have a: "chase_color st \<in> set (py_keys CHASE_COLORS)"
        "random_palette st \<in> set (py_keys RANDOM_PALETTES)"
        "bounce_color st \<in> set (py_keys BOUNCE_COLORS)"
        using assms(1) by (simp_all add: state_valid_def contains_keys)
      from cycle_choice_ok [OF a(1)] obtain k1 where
        k1: "cycle_choice (chase_color st) CHASE_COLORS = Inr k1" "k1 \<in> set (py_keys CHASE_COLORS)"
        by blast
      from cycle_choice_ok [OF a(2)] obtain k2 where
        k2: "cycle_choice (random_palette st) RANDOM_PALETTES = Inr k2"
          "k2 \<in> set (py_keys RANDOM_PALETTES)" by blast
      from cycle_choice_ok [OF a(3)] obtain k3 where
        k3: "cycle_choice (bounce_color st) BOUNCE_COLORS = Inr k3" "k3 \<in> set (py_keys BOUNCE_COLORS)"
        by blast
      show ?thesis
        using assms(1) k1 k2 k3 by (auto simp add: state_valid_def contains_keys)
    qed
    then obtain st1 where st1: "(if pattern st = ''1''
          then bind_err (cycle_choice (chase_color st) CHASE_COLORS)
                 (\<lambda>c. Inr (st\<lparr>chase_color := c\<rparr>))
          else if pattern st = ''2''
          then bind_err (cycle_choice (random_palette st) RANDOM_PALETTES)
                 (\<lambda>c. Inr (st\<lparr>random_palette := c\<rparr>))
          else if pattern st = ''3''
          then bind_err (cycle_choice (bounce_color st) BOUNCE_COLORS)
                 (\<lambda>c. Inr (st\<lparr>bounce_color := c\<rparr>))
          else Inr st) = Inr st1" and v: "state_valid st1" by blast
    have "handle_key st w key = Inr (st1, w, True)"
      using c unfolding handle_key_def al by (simp add: st1 print_status_ok [OF v])
    with v same show ?thesis by metis
  next
    case plus
    let ?st1 = "st\<lparr>brightness := clamp_brightness (brightness st + 16)\<rparr>"
    have v: "state_valid ?st1"
      using assms(1) clamp_brightness_range [of "brightness st + 16"] by (simp add: state_valid_def)
    have "handle_key st w key = Inr (?st1, w\<lparr>strip := Some (s\<lparr>VirtualStrip.brightness :=
              clamp_brightness (brightness st + 16)\<rparr>)\<rparr>, True)"
      using plus
      by (simp add: handle_key_def al Let_def set_strip_brightness_ok [OF assms(3)]
          print_status_ok [OF v])
    with v show ?thesis by blast
  next
    case minus
    let ?st1 = "st\<lparr>brightness := clamp_brightness (brightness st - 16)\<rparr>"
    have v: "state_valid ?st1"
      using assms(1) clamp_brightness_range [of "brightness st - 16"] by (simp add: state_valid_def)
    have "handle_key st w key = Inr (?st1, w\<lparr>strip := Some (s\<lparr>VirtualStrip.brightness :=
              clamp_brightness (brightness st - 16)\<rparr>)\<rparr>, True)"
      using minus
      by (simp add: handle_key_def al Let_def set_strip_brightness_ok [OF assms(3)]
          print_status_ok [OF v])
    with v show ?thesis by blast
  next
    case other
    have "handle_key st w key = Inr (st, w, key \<noteq> ''q'')"
      using other by (simp add: handle_key_def al print_status_ok [OF assms(1)])
    with assms(1) same show ?thesis by metis
  qed
qed

lemma normalize_mode:
  "emergency_only (normalize_pattern_for_mode st) = emergency_only st"
  "(emergency_only st \<longrightarrow> pattern (normalize_pattern_for_mode st) = ''4'')"
  "(\<not> emergency_only st \<longrightarrow> pattern (normalize_pattern_for_mode st) \<noteq> ''4'')"
  by (simp_all add: normalize_pattern_for_mode_def)

lemma normalize_valid: "state_valid st \<Longrightarrow> state_valid (normalize_pattern_for_mode st)"
  by (auto simp add: normalize_pattern_for_mode_def state_valid_def py_contains_def
      PATTERN_NAMES_def)

lemma handle_keys_mode:
  assumes "handle_keys st w keys = Inr (st', w', c)" "(pattern st = ''4'') = emergency_only st"
  shows "emergency_only st' = emergency_only st \<and> (pattern st' = ''4'') = emergency_only st'"
  using assms
proof (induction keys arbitrary: st w)
  case Nil
  then show ?case by simp
next
  case (Cons key keys)
  from Cons.prems(1) obtain st1 w1 c1 where
    1: "handle_key st w key = Inr (st1, w1, c1)"
    by (cases "handle_key st w key") (auto split: prod.splits)
  from handle_key_mode [OF 1 Cons.prems(2)] have
    m1: "emergency_only st1 = emergency_only st" "(pattern st1 = ''4'') = emergency_only st1"
    by simp_all
  show ?case
  proof (cases c1)
    case True
    with Cons.prems(1) 1 have "handle_keys st1 w1 keys = Inr (st', w', c)" by simp
    from Cons.IH [OF this m1(2)] m1(1) show ?thesis by simp
  next
    case False
    with Cons.prems(1) 1 have "st' = st1" by simp
    with m1 show ?thesis by simp
  qed
qed

lemma handle_keys_ok:
  assumes "state_valid st" "(pattern st = ''4'') = emergency_only st" "strip w = Some s"
  shows "\<exists>r. handle_keys st w keys = Inr r"
  using assms
proof (induction keys arbitrary: st w s)
  case Nil
  show ?case by auto
next
  case (Cons key keys)
  from handle_key_ok [OF Cons.prems, of key] obtain st1 s1 c1 where
    1: "handle_key st w key = Inr (st1, w\<lparr>strip := Some s1\<rparr>, c1)" and v1: "state_valid st1"
    by blast
  from handle_key_mode [OF 1 Cons.prems(2)] have m1: "(pattern st1 = ''4'') = emergency_only st1"
    by simp
  have "strip (w\<lparr>strip := Some s1\<rparr>) = Some s1" by simp
  from Cons.IH [OF v1 m1 this] obtain r where
    r: "handle_keys st1 (w\<lparr>strip := Some s1\<rparr>) keys = Inr r"
    by blast
  show ?case
  proof (cases c1)
    case True
    with 1 r have "handle_keys st w (key # keys) = Inr r" by simp
    then show ?thesis by blast
  next
    case False
    with 1 have "handle_keys st w (key # keys) = Inr (st1, w\<lparr>strip := Some s1\<rparr>, False)"
      by simp
    then show ?thesis by blast
  qed
qed

lemma handle_key_refused:
  assumes "(emergency_only st \<and> key \<in> {''1'', ''2'', ''3''}) \<or> (\<not> emergency_only st \<and> key = ''4'')"
  shows "handle_key st w key = Inr (st, w, True)"
  using assms
  by (cases "emergency_only st")
     (auto simp: handle_key_def available_patterns_simps py_contains_def)

lemma state_valid_default: "state_valid default_state"
  by (simp add: state_valid_def py_contains_def PATTERN_NAMES_def SPEED_LABELS_def
      CHASE_COLORS_def RANDOM_PALETTES_def BOUNCE_COLORS_def)

text \<open>
  Claim C6.  After \<^verbatim>\<open>normalize_pattern_for_mode\<close> the pattern is \<open>4\<close> (Emergency SOS) exactly
  when \<^verbatim>\<open>emergency_only\<close> is set.  Whenever a sequence of keystrokes, handled one after the
  other by \<^verbatim>\<open>handle_key\<close> from a normalised state, returns, \<^verbatim>\<open>emergency_only\<close> is what it
  was and the pattern is again \<open>4\<close> exactly when \<^verbatim>\<open>emergency_only\<close> is set: pinned to
  Emergency SOS in emergency-only mode, never Emergency SOS otherwise.  In emergency-only
  mode the keys \<open>1\<close>, \<open>2\<close> and \<open>3\<close> change nothing, and otherwise the key \<open>4\<close> changes
  nothing.  From a valid state with the strip initialised every such sequence does return.
\<close>

theorem emergency_only_pins_pattern:
  "(emergency_only st \<longrightarrow> pattern (normalize_pattern_for_mode st) = ''4'') \<and>
   (\<not> emergency_only st \<longrightarrow> pattern (normalize_pattern_for_mode st) \<noteq> ''4'') \<and>
   (handle_keys (normalize_pattern_for_mode st) w keys = Inr (st', w', c) \<longrightarrow>
      emergency_only st' = emergency_only st \<and> (pattern st' = ''4'') = emergency_only st) \<and>
   (emergency_only st \<and> key \<in> {''1'', ''2'', ''3''} \<longrightarrow>
      handle_key (normalize_pattern_for_mode st) w key
        = Inr (normalize_pattern_for_mode st, w, True)) \<and>
   (\<not> emergency_only st \<longrightarrow>
      handle_key (normalize_pattern_for_mode st) w ''4''
        = Inr (normalize_pattern_for_mode st, w, True)) \<and>
   (state_valid st \<and> strip w \<noteq> None \<longrightarrow>
      (\<exists>r. handle_keys (normalize_pattern_for_mode st) w keys = Inr r))"
proof -
  let ?n = "normalize_pattern_for_mode st"
  have inv: "(pattern ?n = ''4'') = emergency_only ?n"
    using normalize_mode [of st] by auto
  have A: "handle_keys ?n w keys = Inr (st', w', c) \<longrightarrow>
      emergency_only st' = emergency_only st \<and> (pattern st' = ''4'') = emergency_only st"
  proof
    assume "handle_keys ?n w keys = Inr (st', w', c)"
    from handle_keys_mode [OF this inv] show
      "emergency_only st' = emergency_only st \<and> (pattern st' = ''4'') = emergency_only st"
      by (simp add: normalize_mode(1))
  qed
  have B: "emergency_only st \<and> key \<in> {''1'', ''2'', ''3''} \<longrightarrow>
      handle_key ?n w key = Inr (?n, w, True)"
    by (intro impI handle_key_refused) (simp add: normalize_mode(1))
  have C: "\<not> emergency_only st \<longrightarrow> handle_key ?n w ''4'' = Inr (?n, w, True)"
    by (intro impI handle_key_refused) (simp add: normalize_mode(1))
  have D: "state_valid st \<and> strip w \<noteq> None \<longrightarrow> (\<exists>r. handle_keys ?n w keys = Inr r)"
  proof
    assume a: "state_valid st \<and> strip w \<noteq> None"
    then obtain s where s: "strip w = Some s" by auto
    from a have "state_valid ?n" by (simp add: normalize_valid)
    from handle_keys_ok [OF this inv s] show "\<exists>r. handle_keys ?n w keys = Inr r" .
  qed
  from normalize_mode(2,3) [of st] A B C D show ?thesis by blast
qed

theorem emergency_only_pins_pattern_witness:
  "emergency_only panic_state \<and> pattern (normalize_pattern_for_mode panic_state) = ''4'' \<and>
   \<not> emergency_only default_state \<and> pattern (normalize_pattern_for_mode default_state) \<noteq> ''4'' \<and>
   state_valid panic_state \<and> strip (test_world 5) \<noteq> None \<and>
   (\<exists>st' w' c. handle_keys (normalize_pattern_for_mode panic_state) (test_world 5)
                 [''1'', ''p'', ''3'', ''+'', ''c''] = Inr (st', w', c) \<and> pattern st' = ''4'') \<and>
   (\<exists>st' w' c. handle_keys (normalize_pattern_for_mode default_state) (test_world 5)
                 [''4'', ''p'', ''p'', ''p'', ''3'', ''s''] = Inr (st', w', c) \<and> pattern st' \<noteq> ''4'') \<and>
   handle_key (normalize_pattern_for_mode panic_state) (test_world 5) ''2''
     = Inr (normalize_pattern_for_mode panic_state, test_world 5, True)"
proof -
  have h: "emergency_only panic_state" "\<not> emergency_only default_state"
    "state_valid panic_state" "state_valid default_state" "strip (test_world 5) \<noteq> None"
    using state_valid_default
    by (simp_all add: panic_state_def state_valid_def test_world_def init_virtual_strip_def)
  note t1 = emergency_only_pins_pattern [where st = panic_state and w = "test_world 5"
      and keys = "[''1'', ''p'', ''3'', ''+'', ''c'']" and key = "''2''"]
  note t2 = emergency_only_pins_pattern [where st = default_state and w = "test_world 5"
      and keys = "[''4'', ''p'', ''p'', ''p'', ''3'', ''s'']" and key = "''2''"]
  from t1 h obtain r1 where r1: "handle_keys (normalize_pattern_for_mode panic_state) (test_world 5)
                 [''1'', ''p'', ''3'', ''+'', ''c''] = Inr r1" by blast
  obtain a1 b1 c1 where "r1 = (a1, b1, c1)" by (cases r1) auto
  with r1 t1 [of a1 b1 c1] h have 1: "\<exists>st' w' c. handle_keys (normalize_pattern_for_mode panic_state)
      (test_world 5) [''1'', ''p'', ''3'', ''+'', ''c''] = Inr (st', w', c) \<and> pattern st' = ''4''"
    by blast
  from t2 h obtain r2 where r2: "handle_keys (normalize_pattern_for_mode default_state) (test_world 5)
                 [''4'', ''p'', ''p'', ''p'', ''3'', ''s''] = Inr r2" by blast
  obtain a2 b2 c2 where "r2 = (a2, b2, c2)" by (cases r2) auto
  with r2 t2 [of a2 b2 c2] h have 2: "\<exists>st' w' c. handle_keys (normalize_pattern_for_mode default_state)
      (test_world 5) [''4'', ''p'', ''p'', ''p'', ''3'', ''s''] = Inr (st', w', c) \<and> pattern st' \<noteq> ''4''"
    by blast
  from t1 h have 3: "handle_key (normalize_pattern_for_mode panic_state) (test_world 5) ''2''
     = Inr (normalize_pattern_for_mode panic_state, test_world 5, True)" by blast
  from t1 t2 h have 4: "pattern (normalize_pattern_for_mode panic_state) = ''4''"
    "pattern (normalize_pattern_for_mode default_state) \<noteq> ''4''" by blast+
  from h 1 2 3 4 show ?thesis by blast
qed


section \<open>Brightness and its ceiling\<close>

lemma handle_key_plus:
  assumes "state_valid st" "strip w = Some s"
  shows "handle_key st w ''+'' =
     Inr (st\<lparr>brightness := clamp_brightness (brightness st + 16)\<rparr>,
          w\<lparr>strip := Some (s\<lparr>VirtualStrip.brightness := clamp_brightness (brightness st + 16)\<rparr>)\<rparr>,
          True)"
proof -
  let ?st1 = "st\<lparr>brightness := clamp_brightness (brightness st + 16)\<rparr>"
  have v: "state_valid ?st1"
    using assms(1) clamp_brightness_range [of "brightness st + 16"] by (simp add: state_valid_def)
  show ?thesis
    by (cases "emergency_only st")
       (simp_all add: handle_key_def available_patterns_simps py_contains_def Let_def
          set_strip_brightness_ok [OF assms(2)] print_status_ok [OF v])
qed

text \<open>
  The paths that keep the brightness under its ceiling.  \<^verbatim>\<open>state_from_args\<close> always does;
  \<^verbatim>\<open>apply_cli_overrides\<close> does on a state whose brightness and ceiling lie in \<open>[0, 255]\<close>, as
  loaded settings are, whether or not the brightness was under the ceiling before; every
  key but \<open>+\<close> and every sensor response keep \<open>0 \<le> brightness \<le> max_brightness \<le> 255\<close> once
  it holds.
\<close>

lemma normalize_brightness:
  "brightness (normalize_pattern_for_mode st) = brightness st"
  "max_brightness (normalize_pattern_for_mode st) = max_brightness st"
  by (simp_all add: normalize_pattern_for_mode_def)

lemma state_from_args_ceiling:
  "0 \<le> brightness (fst (state_from_args args)) \<and>
   brightness (fst (state_from_args args)) \<le> max_brightness (fst (state_from_args args)) \<and>
   max_brightness (fst (state_from_args args)) \<le> 255"
  using clamp_brightness_range [of "override (arg_max_brightness args) LED_BRIGHTNESS"]
    clamp_brightness_range [of "override (arg_brightness args) LED_BRIGHTNESS"]
  by (simp add: state_from_args_def Let_def normalize_brightness)

lemma apply_cli_overrides_ceiling:
  assumes "0 \<le> brightness st" "0 \<le> max_brightness st" "max_brightness st \<le> 255"
  shows "0 \<le> brightness (fst (apply_cli_overrides st options args)) \<and>
   brightness (fst (apply_cli_overrides st options args))
     \<le> max_brightness (fst (apply_cli_overrides st options args)) \<and>
   max_brightness (fst (apply_cli_overrides st options args)) \<le> 255"
proof -
  have "0 \<le> override (map_option clamp_brightness x) y \<and>
        (y \<le> 255 \<longrightarrow> override (map_option clamp_brightness x) y \<le> 255)" if "0 \<le> y" for x y
    using that clamp_brightness_range by (cases x) (simp_all add: override_def)
  from this [of "max_brightness st" "arg_max_brightness args"]
    this [of "brightness st" "arg_brightness args"] assms
  show ?thesis by (simp add: apply_cli_overrides_def Let_def normalize_brightness)
qed

lemma handle_key_keeps_ceiling:
  assumes "handle_key st w key = Inr (st', w', c)" "key \<noteq> ''+''"
    "0 \<le> brightness st" "brightness st \<le> max_brightness st" "max_brightness st \<le> 255"
  shows "0 \<le> brightness st' \<and> brightness st' \<le> max_brightness st' \<and> max_brightness st' \<le> 255"
proof -
  have "brightness st' = brightness st \<or> brightness st' = clamp_brightness (brightness st - 16)"
    and "max_brightness st' = max_brightness st"
    using assms(1,2) unfolding handle_key_def
    by (auto simp: Let_def split: if_splits dest!: bind_err_InrD)
  with assms(3-5) show ?thesis by (auto simp: clamp_brightness_def)
qed

lemma sensor_response_ceiling:
  assumes "strip w = Some s" "0 \<le> brightness st" "brightness st \<le> max_brightness st"
    "max_brightness st \<le> 255"
  shows "\<exists>st' w'. apply_pi_input_response d a st w = Inr (st', w') \<and>
     0 \<le> brightness st' \<and> brightness st' \<le> max_brightness st' \<and> max_brightness st' \<le> 255"
proof -
  have mb: "0 \<le> max_brightness st" using assms by simp
  have sb: "\<exists>w'. set_strip_brightness v w = Inr w'" for v
    using assms(1) by (simp add: set_strip_brightness_def get_strip_def)
  consider (off) "input_mode st = ''off''"
    | (dnone) "input_mode st = ''digital''" "d = None"
    | (dsome) v where "input_mode st = ''digital''" "d = Some v"
    | (anone) "input_mode st \<noteq> ''off''" "input_mode st \<noteq> ''digital''" "a = None"
    | (asome) v where "input_mode st \<noteq> ''off''" "input_mode st \<noteq> ''digital''" "a = Some v"
    by (cases d; cases a) auto
  then show ?thesis
  proof cases
    case off
    with assms show ?thesis by (simp add: apply_pi_input_response_def)
  next
    case dnone
    with assms show ?thesis by (simp add: apply_pi_input_response_def)
  next
    case (dsome v)
    obtain w' where "set_strip_brightness (if 0 < v then max_brightness st else 0) w = Inr w'"
      using sb by blast
    with dsome assms mb show ?thesis by (simp add: apply_pi_input_response_def Let_def)
  next
    case anone
    with assms show ?thesis by (simp add: apply_pi_input_response_def)
  next
    case (asome v)
    define amax where "amax = max 1 (analog_max st)"
    define bounded where "bounded = max 0 (min amax v)"
    define t where "t = truncate_real (round_double
                (round_double (of_int bounded / of_int amax) * of_int (max_brightness st)))"
    have am: "1 \<le> amax" by (simp add: amax_def)
    have bnd: "0 \<le> bounded" "bounded \<le> amax" using am by (simp_all add: bounded_def)
    have mb': "\<bar>max_brightness st\<bar> \<le> 255" using assms(4) mb by simp
    let ?k = "\<lambda>scaled. let state1 = st\<lparr>brightness := clamp_brightness scaled\<rparr>
                in bind_err (set_strip_brightness (brightness state1) w)
                     (\<lambda>w1. Inr (state1, w1))"
    have "apply_pi_input_response d a st w = ?k t"
      using asome scale_ok [OF am bnd mb', of ?k]
      by (simp add: apply_pi_input_response_def Let_def flip: amax_def bounded_def t_def)
    moreover obtain w' where "set_strip_brightness (clamp_brightness t) w = Inr w'"
      using sb by blast
    ultimately have "apply_pi_input_response d a st w
        = Inr (st\<lparr>brightness := clamp_brightness t\<rparr>, w')"
      by (simp add: Let_def)
    moreover have "clamp_brightness t \<le> max_brightness st"
      unfolding t_def using am bnd mb assms(4) by (rule scaled_below_ceiling)
    moreover have "0 \<le> clamp_brightness t" by (simp add: clamp_brightness_def)
    ultimately show ?thesis using assms(4) by simp
  qed
qed

text \<open>
  Claim C1 does not hold of the code.  The key \<open>+\<close> sets the brightness to
  \<^verbatim>\<open>clamp_brightness(brightness + 16)\<close>, which is bounded by 255 and not by
  \<^verbatim>\<open>max_brightness\<close>: from brightness 100 under the ceiling 100 the brightness becomes 116.
  \<^verbatim>\<open>state_options_from_headless_data\<close> clamps \<^verbatim>\<open>brightness\<close> and \<^verbatim>\<open>max_brightness\<close> to
  \<open>[0, 255]\<close> each on its own: settings with brightness 200 and ceiling 100 load as they
  are.  (\<^verbatim>\<open>state_from_args\<close> and \<^verbatim>\<open>apply_cli_overrides\<close> do take the minimum of the two.)
\<close>

theorem brightness_above_ceiling:
  "map_sum id (\<lambda>(st, w, c). (brightness st, max_brightness st))
     (handle_key dimmed_state (test_world 5) ''+'') = Inr (116, 100) \<and>
   map_sum id (\<lambda>(st, options, test_mode). (brightness st, max_brightness st))
     (state_options_from_headless_data (\<lambda>s. None) (\<lambda>s. None)
        [(''brightness'', PInt 200), (''max_brightness'', PInt 100)]) = Inr (200, 100)"
proof -
  have v: "state_valid dimmed_state"
    using state_valid_default by (simp add: dimmed_state_def state_valid_def)
  have s: "strip (test_world 5) = Some (VirtualStrip_init 80 5)"
    by (simp add: test_world_def init_virtual_strip_def)
  have b: "brightness dimmed_state = 100" "max_brightness dimmed_state = 100"
    by (simp_all add: dimmed_state_def)
  have 1: "map_sum id (\<lambda>(st, w, c). (brightness st, max_brightness st))
     (handle_key dimmed_state (test_world 5) ''+'') = Inr (116, 100)"
    unfolding handle_key_plus [OF v s] by (simp add: b clamp_brightness_def)
  have 2: "map_sum id (\<lambda>(st, options, test_mode). (brightness st, max_brightness st))
     (state_options_from_headless_data (\<lambda>s. None) (\<lambda>s. None)
        [(''brightness'', PInt 200), (''max_brightness'', PInt 100)]) = Inr (200, 100)"
    by code_simp
  from 1 2 show ?thesis ..
qed

section \<open>Loading malformed settings\<close>

text \<open>\<^verbatim>\<open>as_bool\<close> on a few values: surrounding whitespace, the no-break space and the next-line
  control included, and the case of the letters do not matter; an unknown word and a
  number that is not a bool give the default.\<close>

lemma as_bool_examples:
  "as_bool (PStr (CHR 0xA0 # ''Yes'' @ [CHR 0x85])) False = True"
  "as_bool (PStr '' OFF  '') True = False"
  "as_bool (PStr ''maybe'') True = True"
  "as_bool (PInt 1) False = False"
  by code_simp+

text \<open>
  What the loader does otherwise.  \<^verbatim>\<open>as_int\<close> raises only on an infinite float and
  \<^verbatim>\<open>as_float\<close> only on an integer too large for a float, both with OverflowError; the loader
  is its seven conversions in sequence followed by the construction of the result, so it
  returns exactly when none of the seven numeric fields is such a value, and raises
  nothing but OverflowError.  When it returns, every selection of the state is a key of
  its table, an unknown pattern has become \<open>1\<close>, and the pattern is \<open>4\<close> exactly in
  emergency-only mode.
\<close>

lemma as_int_raises:
  "as_int parse v d = Inl e \<longleftrightarrow> e = OverflowError \<and> (v = PFloat PosInf \<or> v = PFloat NegInf)"
proof (cases v)
  case (PFloat x)
  then show ?thesis by (cases x) (auto simp: as_int_def)
next
  case (PStr s)
  then show ?thesis by (cases "parse s") (auto simp: as_int_def)
qed (auto simp: as_int_def)

lemma as_float_raises:
  "as_float parse v d = Inl e \<longleftrightarrow>
     e = OverflowError \<and> (\<exists>i. v = PInt i \<and> double_overflows (round_double (of_int i)))"
proof (cases v)
  case (PStr s)
  then show ?thesis by (cases "parse s") (auto simp: as_float_def)
qed (auto simp: as_float_def float_of_int_def Let_def)

lemma as_int_returns:
  "(\<exists>i. as_int parse v d = Inr i) \<longleftrightarrow> v \<noteq> PFloat PosInf \<and> v \<noteq> PFloat NegInf"
  using as_int_raises [of parse v d]
  by (cases "as_int parse v d") auto

lemma as_float_returns:
  "(\<exists>x. as_float parse v d = Inr x) \<longleftrightarrow>
     (\<forall>i. v = PInt i \<longrightarrow> \<not> double_overflows (round_double (of_int i)))"
  using as_float_raises [of parse v d]
  by (cases "as_float parse v d") auto

lemma keep_or_set:
  "(if c then s else s\<lparr>pattern := v\<rparr>) = s\<lparr>pattern := (if c then pattern s else v)\<rparr>"
  "(if c then s else s\<lparr>speed := v\<rparr>) = s\<lparr>speed := (if c then speed s else v)\<rparr>"
  "(if c then s else s\<lparr>chase_color := v\<rparr>)
     = s\<lparr>chase_color := (if c then chase_color s else v)\<rparr>"
  "(if c then s else s\<lparr>random_palette := v\<rparr>)
     = s\<lparr>random_palette := (if c then random_palette s else v)\<rparr>"
  "(if c then s else s\<lparr>bounce_color := v\<rparr>)
     = s\<lparr>bounce_color := (if c then bounce_color s else v)\<rparr>"
  "(if c then s else s\<lparr>input_mode := v\<rparr>)
     = s\<lparr>input_mode := (if c then input_mode s else v)\<rparr>"
  by simp_all

lemma loader_unfold:
  "state_options_from_headless_data parse_int parse_float data =
     bind_err (as_int parse_int (dict_get data ''brightness'') LED_BRIGHTNESS) (\<lambda>b.
     bind_err (as_int parse_int (dict_get data ''max_brightness'') LED_BRIGHTNESS) (\<lambda>mb.
     bind_err (as_int parse_int (dict_get (dict_or_empty (dict_get data ''input'')) ''pin'') 23)
       (\<lambda>pin.
     bind_err
       (as_int parse_int (dict_get (dict_or_empty (dict_get data ''input'')) ''analog_max'') 4095)
       (\<lambda>amax.
     bind_err (as_int parse_int (dict_get (dict_or_empty (dict_get data ''run'')) ''frames'') 0)
       (\<lambda>fr.
     bind_err
       (as_float parse_float
          (dict_get (dict_or_empty (dict_get data ''run'')) ''duration_seconds'') (Finite 0))
       (\<lambda>dur.
     bind_err
       (as_float parse_float
          (dict_get (dict_or_empty (dict_get data ''run'')) ''start_delay_seconds'') (Finite 0))
       (\<lambda>delay.
     Inr (normalize_pattern_for_mode
            \<lparr>pattern =
               (if py_contains PATTERN_NAMES (as_str (dict_get data ''pattern'') ''1'')
                then as_str (dict_get data ''pattern'') ''1'' else ''1''),
             speed =
               (if py_contains SPEED_LABELS (as_str (dict_get data ''speed'') ''2'')
                then as_str (dict_get data ''speed'') ''2'' else ''2''),
             chase_color =
               (if py_contains CHASE_COLORS (as_str (dict_get data ''chase_color'') ''1'')
                then as_str (dict_get data ''chase_color'') ''1'' else ''1''),
             random_palette =
               (if py_contains RANDOM_PALETTES (as_str (dict_get data ''random_palette'') ''1'')
                then as_str (dict_get data ''random_palette'') ''1'' else ''1''),
             bounce_color =
               (if py_contains BOUNCE_COLORS (as_str (dict_get data ''bounce_color'') ''1'')
                then as_str (dict_get data ''bounce_color'') ''1'' else ''1''),
             max_brightness = clamp_brightness mb,
             brightness = clamp_brightness b,
             input_mode =
               (if as_str (dict_get (dict_or_empty (dict_get data ''input'')) ''mode'') ''off''
                     \<in> set [''off'', ''digital'', ''analog'']
                then as_str (dict_get (dict_or_empty (dict_get data ''input'')) ''mode'') ''off''
                else ''off''),
             input_pin = pin,
             analog_path =
               as_str (dict_get (dict_or_empty (dict_get data ''input'')) ''analog_path'')
                 default_analog_path,
             analog_max = max 1 amax,
             emergency_only = as_bool (dict_get data ''emergency_only'') False,
             emergency_step = 0,
             emergency_color_index = 0,
             chase_position = 0,
             bounce_position = 0,
             bounce_direction = 1,
             rainbow_offset = 0\<rparr>,
          \<lparr>frames = max 0 fr,
           duration_seconds = float_max (Finite 0) dur,
           start_delay_seconds = float_max (Finite 0) delay\<rparr>,
          as_bool (dict_get data ''test'') False))))))))"
  unfolding state_options_from_headless_data_def
  by (simp only: Let_def keep_or_set AppState.simps)


lemma bind_err_chain_returns:
  "(\<exists>r. bind_err m1 (\<lambda>a. bind_err m2 (\<lambda>b. bind_err m3 (\<lambda>c. bind_err m4 (\<lambda>d.
          bind_err m5 (\<lambda>e. bind_err m6 (\<lambda>f. bind_err m7 (\<lambda>g.
            Inr (K a b c d e f g)))))))) = Inr r) \<longleftrightarrow>
   (\<exists>a. m1 = Inr a) \<and> (\<exists>b. m2 = Inr b) \<and> (\<exists>c. m3 = Inr c) \<and> (\<exists>d. m4 = Inr d) \<and>
   (\<exists>e. m5 = Inr e) \<and> (\<exists>f. m6 = Inr f) \<and> (\<exists>g. m7 = Inr g)"
  by (cases m1; cases m2; cases m3; cases m4; cases m5; cases m6; cases m7) simp_all

lemma bind_err_chain_result:
  assumes "bind_err m1 (\<lambda>a. bind_err m2 (\<lambda>b. bind_err m3 (\<lambda>c. bind_err m4 (\<lambda>d.
          bind_err m5 (\<lambda>e. bind_err m6 (\<lambda>f. bind_err m7 (\<lambda>g.
            Inr (K a b c d e f g)))))))) = Inr r"
  shows "\<exists>a b c d e f g. r = K a b c d e f g"
  using assms
  by (cases m1; cases m2; cases m3; cases m4; cases m5; cases m6; cases m7) (simp_all, blast)

lemma bind_err_chain_raises:
  assumes "bind_err m1 (\<lambda>a. bind_err m2 (\<lambda>b. bind_err m3 (\<lambda>c. bind_err m4 (\<lambda>d.
          bind_err m5 (\<lambda>e. bind_err m6 (\<lambda>f. bind_err m7 (\<lambda>g.
            Inr (K a b c d e f g)))))))) = Inl err"
  shows "m1 = Inl err \<or> m2 = Inl err \<or> m3 = Inl err \<or> m4 = Inl err \<or> m5 = Inl err \<or>
     m6 = Inl err \<or> m7 = Inl err"
  using assms
  by (cases m1; cases m2; cases m3; cases m4; cases m5; cases m6; cases m7) auto

lemma loader_raises_only_overflow:
  assumes "state_options_from_headless_data parse_int parse_float data = Inl e"
  shows "e = OverflowError"
  using bind_err_chain_raises [OF assms [unfolded loader_unfold]]
  by (auto simp: as_int_raises as_float_raises)

lemma loader_returns_iff:
  "(\<exists>r. state_options_from_headless_data parse_int parse_float data = Inr r) \<longleftrightarrow>
     (\<forall>v \<in> {dict_get data ''brightness'', dict_get data ''max_brightness'',
            dict_get (dict_or_empty (dict_get data ''input'')) ''pin'',
            dict_get (dict_or_empty (dict_get data ''input'')) ''analog_max'',
            dict_get (dict_or_empty (dict_get data ''run'')) ''frames''}.
        v \<noteq> PFloat PosInf \<and> v \<noteq> PFloat NegInf) \<and>
     (\<forall>v \<in> {dict_get (dict_or_empty (dict_get data ''run'')) ''duration_seconds'',
            dict_get (dict_or_empty (dict_get data ''run'')) ''start_delay_seconds''}.
        \<forall>i. v = PInt i \<longrightarrow> \<not> double_overflows (round_double (of_int i)))"
  unfolding loader_unfold bind_err_chain_returns as_int_returns as_float_returns
  by simp

lemma loader_result:
  assumes "state_options_from_headless_data parse_int parse_float data = Inr (st, options, test_mode)"
  shows "state_valid st \<and> (pattern st = ''4'') = emergency_only st \<and>
     emergency_only st = as_bool (dict_get data ''emergency_only'') False \<and>
     (\<not> emergency_only st \<longrightarrow>
        pattern st = (if as_str (dict_get data ''pattern'') ''1'' \<in> {''1'', ''2'', ''3''}
                      then as_str (dict_get data ''pattern'') ''1'' else ''1'')) \<and>
     input_mode st \<in> {''off'', ''digital'', ''analog''} \<and> 1 \<le> analog_max st \<and>
     0 \<le> frames options"
proof -
  from bind_err_chain_result [OF assms [unfolded loader_unfold]]
  obtain b mb pin amax fr s6 where
    st: "st = normalize_pattern_for_mode s6"
    and fr: "frames options = max 0 fr"
    and p: "pattern s6 = (if py_contains PATTERN_NAMES (as_str (dict_get data ''pattern'') ''1'')
                then as_str (dict_get data ''pattern'') ''1'' else ''1'')"
    and s: "speed s6 = (if py_contains SPEED_LABELS (as_str (dict_get data ''speed'') ''2'')
                then as_str (dict_get data ''speed'') ''2'' else ''2'')"
    and cc: "chase_color s6 = (if py_contains CHASE_COLORS (as_str (dict_get data ''chase_color'') ''1'')
                then as_str (dict_get data ''chase_color'') ''1'' else ''1'')"
    and rp: "random_palette s6 = (if py_contains RANDOM_PALETTES (as_str (dict_get data ''random_palette'') ''1'')
                then as_str (dict_get data ''random_palette'') ''1'' else ''1'')"
    and bc: "bounce_color s6 = (if py_contains BOUNCE_COLORS (as_str (dict_get data ''bounce_color'') ''1'')
                then as_str (dict_get data ''bounce_color'') ''1'' else ''1'')"
    and im: "input_mode s6 = (if as_str (dict_get (dict_or_empty (dict_get data ''input'')) ''mode'') ''off''
                     \<in> set [''off'', ''digital'', ''analog'']
                then as_str (dict_get (dict_or_empty (dict_get data ''input'')) ''mode'') ''off''
                else ''off'')"
    and rest: "max_brightness s6 = clamp_brightness mb" "brightness s6 = clamp_brightness b"
      "analog_max s6 = max 1 amax" "emergency_color_index s6 = 0"
      "emergency_only s6 = as_bool (dict_get data ''emergency_only'') False"
    by (elim exE, simp only: prod.inject)
       (erule conjE, erule conjE, simp only: AppState.simps RunOptions.simps)
  have v6: "state_valid s6"
    unfolding state_valid_def p s cc rp bc rest
    using clamp_brightness_range [of b] clamp_brightness_range [of mb]
    by (simp add: py_contains_def PATTERN_NAMES_def SPEED_LABELS_def CHASE_COLORS_def
          RANDOM_PALETTES_def BOUNCE_COLORS_def)
  have v: "state_valid st" unfolding st using v6 by (rule normalize_valid)
  have m: "(pattern st = ''4'') = emergency_only st"
    "emergency_only st = as_bool (dict_get data ''emergency_only'') False"
    "input_mode st = input_mode s6" "analog_max st = analog_max s6"
    unfolding st by (simp_all add: normalize_pattern_for_mode_def rest)
  have pt: "pattern st = (if as_str (dict_get data ''pattern'') ''1'' \<in> {''1'', ''2'', ''3''}
                      then as_str (dict_get data ''pattern'') ''1'' else ''1'')"
    if "\<not> emergency_only st"
    using that unfolding st
    by (auto simp: normalize_pattern_for_mode_def p py_contains_def PATTERN_NAMES_def)
  have i: "input_mode st \<in> {''off'', ''digital'', ''analog''}"
    unfolding m im by simp
  show ?thesis using v m(1,2) pt i fr by (simp add: m(4) rest)
qed

text \<open>
  Claim C8 does not hold of the code.  \<^verbatim>\<open>as_int\<close> catches TypeError and ValueError only,
  and \<^verbatim>\<open>int\<close> of an infinite float raises OverflowError: settings whose \<^verbatim>\<open>brightness\<close> is
  the number \<^verbatim>\<open>Infinity\<close> (or \<^verbatim>\<open>1e999\<close>) make \<^verbatim>\<open>state_options_from_headless_data\<close> raise
  instead of taking the default 255, whatever the string parsers do.
\<close>

theorem loader_raises_on_infinite_number:
  "state_options_from_headless_data parse_int parse_float [(''brightness'', PFloat PosInf)]
     = Inl OverflowError"
  by (simp add: state_options_from_headless_data_def dict_get_def as_int_def Let_def)


end
